theory Spec2Isabelle
  imports
    Complex_Main
    "HOL-Library.Product_Lexorder"
    "HOL-Library.List_Lexorder"
    "HOL-Library.Char_ord"
    "HOL-Library.AList"
begin

section \<open>Common data\<close>

text \<open>
  Python exceptions are values.  Only the exception classes that the modelled
  functions can raise are listed; the string is the exception's message.
  \<open>EmptyReductionError\<close> stands for the exception torch raises when \<^verbatim>\<open>max\<close> is
  taken along a dimension of size zero (an \<^verbatim>\<open>IndexError\<close> in current releases, a
  \<^verbatim>\<open>RuntimeError\<close> in older ones), and \<open>DTypeError\<close> for the \<^verbatim>\<open>RuntimeError\<close> it
  raises when the norm of an integer tensor is asked for.
\<close>

datatype py_error =
    RuntimeError string
  | AssertionError string
  | IndexError
  | TypeError
  | KeyError string
  | AttributeError
  | FileNotFoundError
  | FileExistsError
  | NotADirectoryError
  | IsADirectoryError
  | NameError
  | EmptyReductionError
  | DTypeError
  | OpenReviewException string

text \<open>
  A score entry is the tuple \<^verbatim>\<open>(note_id, profile_id, score)\<close> appended to
  \<^verbatim>\<open>self.preliminary_scores\<close>.  Identifiers are Python strings, compared
  lexicographically by code point, which is the order of \<^theory_text>\<open>List_Lexorder\<close> over
  \<^theory_text>\<open>Char_ord\<close>.  The score type is a parameter: the sparsifier only compares scores,
  so it is modelled for every linearly ordered score type (floats without NaN are one).
\<close>

type_synonym 's score_entry = "string \<times> string \<times> 's"

definition note_of :: "'s score_entry \<Rightarrow> string" where
  "note_of e = fst e"

definition profile_of :: "'s score_entry \<Rightarrow> string" where
  "profile_of e = fst (snd e)"

definition score_of :: "'s score_entry \<Rightarrow> 's" where
  "score_of e = snd (snd e)"

section \<open>Specter2Predictor: construction\<close>

text \<open>
  The fields of \<^verbatim>\<open>Specter2Predictor\<close> that scoring and sparsification read.
  \<^verbatim>\<open>pub_author_ids_to_note_id\<close> is the insertion-ordered dictionary filled by
  \<^verbatim>\<open>set_archives_dataset\<close>.
\<close>

record 's predictor =
  average_score :: bool
  max_score :: bool
  sparse_value :: "int option"
  preliminary_scores :: "'s score_entry list option"
  pub_author_ids_to_note_id :: "(string \<times> string list) list"

text \<open>
  \<^verbatim>\<open>__init__\<close>: the assertion \<^verbatim>\<open>max_score ^ average_score\<close> is the only way
  the constructor fails in this model; \<^verbatim>\<open>preliminary_scores\<close> starts as \<^verbatim>\<open>None\<close>.
\<close>

definition init_predictor :: "bool \<Rightarrow> bool \<Rightarrow> int option \<Rightarrow> py_error + 's predictor" where
  "init_predictor average_score_arg max_score_arg sparse_value_arg =
     (if max_score_arg \<noteq> average_score_arg
      then Inr \<lparr> average_score = average_score_arg,
                 max_score = max_score_arg,
                 sparse_value = sparse_value_arg,
                 preliminary_scores = None,
                 pub_author_ids_to_note_id = [] \<rparr>
      else Inl (AssertionError ''(Only) One of max_score or average_score must be True''))"

section \<open>Sparsification\<close>

text \<open>
  \<^verbatim>\<open>list.sort(key=..., reverse=True)\<close> is a stable descending sort: elements with equal
  keys keep their relative order.  CPython obtains it by reversing, sorting stably
  ascending and reversing again, which is what is written here.
\<close>

definition py_sort_desc :: "('a \<Rightarrow> 'k::linorder) \<Rightarrow> 'a list \<Rightarrow> 'a list" where
  "py_sort_desc key xs = rev (sort_key key (rev xs))"

definition note_key :: "('s::linorder) score_entry \<Rightarrow> string \<times> 's" where
  "note_key x = (note_of x, score_of x)"

definition profile_key :: "('s::linorder) score_entry \<Rightarrow> string \<times> 's" where
  "profile_key x = (profile_of x, score_of x)"

text \<open>
  The helper is called with \<^verbatim>\<open>id_index\<close> 0 (note ids) and 1 (profile ids) only.
\<close>

datatype id_index = Idx0 | Idx1

fun entry_id :: "id_index \<Rightarrow> 's score_entry \<Rightarrow> string" where
  "entry_id Idx0 e = note_of e"
| "entry_id Idx1 e = profile_of e"

text \<open>
  \<^verbatim>\<open>all_scores\<close> is a Python set.  It is modelled as a duplicate-free list in
  order of first insertion; the iteration order of a Python set is unspecified, so only
  the membership of this list is meaningful.
\<close>

definition set_add :: "'a \<Rightarrow> 'a list \<Rightarrow> 'a list" where
  "set_add x s = (if x \<in> set s then s else s @ [x])"

text \<open>The body of the \<^verbatim>\<open>for\<close> loop of \<^verbatim>\<open>_sparse_scores_helper\<close>.\<close>

fun sparse_loop ::
  "id_index \<Rightarrow> int \<Rightarrow> 's score_entry list \<Rightarrow> int \<Rightarrow> string \<Rightarrow> 's score_entry list
     \<Rightarrow> 's score_entry list" where
  "sparse_loop ix k [] counter current_id all_scores = all_scores"
| "sparse_loop ix k (e # es) counter current_id all_scores =
     (if counter < k then
        sparse_loop ix k es (counter + 1) current_id (set_add e all_scores)
      else if entry_id ix e \<noteq> current_id then
        sparse_loop ix k es (0 + 1) (entry_id ix e) (set_add e all_scores)
      else
        sparse_loop ix k es (counter + 1) current_id all_scores)"

text \<open>
  \<^verbatim>\<open>_sparse_scores_helper\<close>, with \<^verbatim>\<open>self.preliminary_scores\<close> and
  \<^verbatim>\<open>self.sparse_value\<close> passed explicitly.  Reading element 0 of an empty list
  raises \<^verbatim>\<open>IndexError\<close>; comparing the counter with a \<^verbatim>\<open>None\<close> sparse value
  raises \<^verbatim>\<open>TypeError\<close> in the first iteration.
\<close>

definition sparse_scores_helper ::
  "'s score_entry list \<Rightarrow> int option \<Rightarrow> 's score_entry list \<Rightarrow> id_index
     \<Rightarrow> py_error + 's score_entry list" where
  "sparse_scores_helper prelim sparse all_scores ix =
     (case prelim of
        [] \<Rightarrow> Inl IndexError
      | first # _ \<Rightarrow>
          (case sparse of
             None \<Rightarrow> Inl TypeError
           | Some k \<Rightarrow> Inr (sparse_loop ix k prelim 0 (entry_id ix first) all_scores)))"

text \<open>
  \<^verbatim>\<open>sparse_scores\<close> (the optional write to \<^verbatim>\<open>scores_path\<close> is left out).  The
  result is the returned list together with the predictor, whose
  \<^verbatim>\<open>preliminary_scores\<close> the two in-place sorts have reordered.
\<close>

definition sparse_scores ::
  "('s::linorder) predictor \<Rightarrow> py_error + ('s score_entry list \<times> 's predictor)" where
  "sparse_scores self =
     (case preliminary_scores self of
        None \<Rightarrow> Inl (RuntimeError ''Call all_scores before calling sparse_scores'')
      | Some prelim \<Rightarrow>
          (let sorted1 = py_sort_desc note_key prelim in
           case sparse_scores_helper sorted1 (sparse_value self) [] Idx0 of
             Inl err \<Rightarrow> Inl err
           | Inr all_scores1 \<Rightarrow>
               (let sorted2 = py_sort_desc profile_key sorted1 in
                case sparse_scores_helper sorted2 (sparse_value self) all_scores1 Idx1 of
                  Inl err \<Rightarrow> Inl err
                | Inr all_scores2 \<Rightarrow>
                    Inr (py_sort_desc note_key all_scores2,
                         self\<lparr>preliminary_scores := Some sorted2\<rparr>))))"

text \<open>
  The reading of "top k of an entity" that the sparsifier is measured against: the
  entries of the entity, ranked by descending score with ties kept in the order of the
  list \<open>scan\<close> they are taken from, cut after \<open>k\<close>.  It sorts one entity's entries by
  score alone and does not mention the helper.
\<close>

definition spec_top_k ::
  "nat \<Rightarrow> (('s::linorder) score_entry \<Rightarrow> string) \<Rightarrow> string \<Rightarrow> 's score_entry list
     \<Rightarrow> 's score_entry list" where
  "spec_top_k k idf g scan = take k (py_sort_desc score_of (filter (\<lambda>e. idf e = g) scan))"

text \<open>
  The key of the sort that precedes a pass: \<open>(note_id, score)\<close> for \<^verbatim>\<open>id_index\<close> 0 and
  \<open>(profile_id, score)\<close> for \<^verbatim>\<open>id_index\<close> 1.
\<close>

definition pass_key :: "id_index \<Rightarrow> ('s::linorder) score_entry \<Rightarrow> string \<times> 's" where
  "pass_key ix = (case ix of Idx0 \<Rightarrow> note_key | Idx1 \<Rightarrow> profile_key)"

text \<open>
  One pass as the specification describes it, on a list sorted by the pass's key: of the
  run of every id, the entries at positions below \<open>k\<close>, and the first entry of the run
  whatever \<open>k\<close> is.  The run of an id is the sublist of the entries with that id, so the
  position of an entry in its run starts at zero at every boundary.  The definition
  follows the specification's words and does not mention the helper.
\<close>

definition spec_pass :: "id_index \<Rightarrow> int \<Rightarrow> 's score_entry list \<Rightarrow> 's score_entry list" where
  "spec_pass ix k sorted_entries =
     concat (map (\<lambda>g. take (max 1 (nat k)) (filter (\<lambda>e. entry_id ix e = g) sorted_entries))
                 (remdups (map (entry_id ix) sorted_entries)))"

subsection \<open>Example predictors\<close>

definition ex_sparse :: "real predictor" where
  "ex_sparse =
     \<lparr> average_score = False, max_score = True, sparse_value = Some 1,
       preliminary_scores =
         Some [(''n1'', ''p'', 0.5), (''n1'', ''q'', 0.9), (''n2'', ''p'', 0.5), (''n2'', ''q'', 0.9)],
       pub_author_ids_to_note_id = [] \<rparr>"

text \<open>
  Scores of two submissions for two reviewers, in the order in which \<^verbatim>\<open>all_scores\<close>
  appends them (reviewer by reviewer, and for each reviewer line by line of the
  submissions file); and a list in which one note has one entry and another has five.
\<close>

definition ex_dense :: "real score_entry list" where
  "ex_dense = [(''n1'', ''a'', 0.8), (''n2'', ''a'', 0.9), (''n1'', ''b'', 0.4), (''n2'', ''b'', 0.5)]"

definition ex_ragged :: "real score_entry list" where
  "ex_ragged =
     [(''n2'', ''r1'', 0.7),
      (''n1'', ''r1'', 0.9), (''n1'', ''r2'', 0.8), (''n1'', ''r3'', 0.7),
      (''n1'', ''r4'', 0.6), (''n1'', ''r5'', 0.5)]"

definition ex_unset :: "real predictor" where
  "ex_unset =
     \<lparr> average_score = False, max_score = True, sparse_value = Some 3,
       preliminary_scores = None, pub_author_ids_to_note_id = [] \<rparr>"

definition ex_empty :: "real predictor" where
  "ex_empty = ex_unset\<lparr>preliminary_scores := Some []\<rparr>"

section \<open>Scoring: \<^verbatim>\<open>all_scores\<close>\<close>

text \<open>
  The model covers the file-based branch of \<^verbatim>\<open>all_scores\<close> (\<^verbatim>\<open>use_redis\<close> false,
  the constructor's default).  An embedding file is the list of its parsed lines, each a
  \<^verbatim>\<open>paper_id\<close> with its \<^verbatim>\<open>embedding\<close>.  torch computes in 32-bit floating point,
  with a rounding and an order of summation that are not part of the sources; the model
  computes over the reals.  It therefore says which entries are produced, from which
  rows and columns, and where the computation fails, and it agrees with torch on the
  values that no rounding touches (a score of zero, NaN), not on the digits of any
  other score.  The one non-real value the code can produce, the NaN that torch returns
  as the mean of no elements, is a value of its own.
\<close>

datatype fscore = Num real | NaN

type_synonym emb_line = "string \<times> real list"

definition paper_emb_size_default :: nat where
  "paper_emb_size_default = 768"

text \<open>The \<^verbatim>\<open>for line in emb_file\<close> loop of \<^verbatim>\<open>load_emb_file\<close>.\<close>

fun load_emb_loop ::
  "emb_line list \<Rightarrow> string list \<times> real list list \<times> string set
     \<Rightarrow> py_error + (string list \<times> real list list \<times> string set)" where
  "load_emb_loop [] acc = Inr acc"
| "load_emb_loop ((paper_id, embedding) # rest) (id_list, emb_list, bad_id_set) =
     (let paper_emb_size = length embedding in
      if \<not> (paper_emb_size = 0 \<or> paper_emb_size = paper_emb_size_default) then
        Inl (AssertionError [])
      else if paper_emb_size = 0 then
        load_emb_loop rest
          (id_list @ [paper_id], emb_list @ [replicate paper_emb_size_default 0],
           insert paper_id bad_id_set)
      else
        load_emb_loop rest (id_list @ [paper_id], emb_list @ [embedding], bad_id_set))"

definition l2_norm :: "real list \<Rightarrow> real" where
  "l2_norm v = sqrt (\<Sum>x\<leftarrow>v. x * x)"

text \<open>\<^verbatim>\<open>emb_tensor / (emb_tensor.norm(dim=1, keepdim=True) + 0.000000000001)\<close>\<close>

definition normalize_rows :: "real list list \<Rightarrow> real list list" where
  "normalize_rows m = map (\<lambda>row. map (\<lambda>x. x / (l2_norm row + 1 / 10 ^ 12)) row) m"

text \<open>
  \<^verbatim>\<open>load_emb_file\<close>.  \<^verbatim>\<open>torch.tensor\<close> of an empty list is one-dimensional, so for
  a file without lines the norm along dimension 1 raises \<^verbatim>\<open>IndexError\<close>.  The
  placeholder of an empty embedding is a list of integer zeros, while an embedding read
  from the file is a list of floats: when every line of the file has an empty embedding
  the tensor is an integer tensor, and torch refuses to take its norm.
\<close>

definition load_emb_file ::
  "emb_line list \<Rightarrow> py_error + (real list list \<times> string list \<times> string set)" where
  "load_emb_file emb_file =
     (case load_emb_loop emb_file ([], [], {}) of
        Inl err \<Rightarrow> Inl err
      | Inr (id_list, emb_list, bad_id_set) \<Rightarrow>
          if emb_list = [] then Inl IndexError
          else if list_all (\<lambda>line. snd line = []) emb_file then Inl DTypeError
          else Inr (normalize_rows emb_list, id_list, bad_id_set))"

text \<open>
  \<^verbatim>\<open>paper_id2train_idx\<close>: filled in the order of \<^verbatim>\<open>enumerate(train_id_list)\<close>, a
  later line with the same id overwriting the earlier index.
\<close>

fun build_idx :: "nat \<Rightarrow> string list \<Rightarrow> (string \<times> nat) list \<Rightarrow> (string \<times> nat) list" where
  "build_idx idx [] paper_id2train_idx = paper_id2train_idx"
| "build_idx idx (paper_id # rest) paper_id2train_idx =
     build_idx (idx + 1) rest (AList.update paper_id idx paper_id2train_idx)"

text \<open>
  \<^verbatim>\<open>torch.sum(paper_emb_test[i, :].unsqueeze(dim=0) * paper_emb_train, dim=1)\<close>, cell
  by cell: \<^verbatim>\<open>p2p_aff[i, j]\<close> is \<open>p2p_aff i j\<close>.
\<close>

definition dot :: "real list \<Rightarrow> real list \<Rightarrow> real" where
  "dot u v = (\<Sum>(a, b)\<leftarrow>zip u v. a * b)"

definition compute_p2p_aff :: "real list list \<Rightarrow> real list list \<Rightarrow> nat \<Rightarrow> nat \<Rightarrow> real" where
  "compute_p2p_aff paper_emb_test paper_emb_train i j =
     dot (paper_emb_test ! i) (paper_emb_train ! j)"

text \<open>
  The inner loop building \<^verbatim>\<open>train_paper_idx\<close>: a publication id outside the bad-id set
  that no line of the publications file carries raises \<^verbatim>\<open>KeyError\<close>.
\<close>

fun train_paper_idx_of ::
  "(string \<times> nat) list \<Rightarrow> string set \<Rightarrow> string list \<Rightarrow> py_error + nat list" where
  "train_paper_idx_of paper_id2train_idx train_bad_id_set [] = Inr []"
| "train_paper_idx_of paper_id2train_idx train_bad_id_set (paper_id # rest) =
     (if paper_id \<notin> train_bad_id_set then
        (case map_of paper_id2train_idx paper_id of
           None \<Rightarrow> Inl (KeyError paper_id)
         | Some idx \<Rightarrow>
             (case train_paper_idx_of paper_id2train_idx train_bad_id_set rest of
                Inl err \<Rightarrow> Inl err
              | Inr idxs \<Rightarrow> Inr (idx # idxs)))
      else train_paper_idx_of paper_id2train_idx train_bad_id_set rest)"

text \<open>
  The reduction of \<^verbatim>\<open>p2p_aff[:, train_paper_idx]\<close> along dimension 1, one value per
  submission row \<open>j\<close>.  Over no columns the mean is NaN and \<^verbatim>\<open>max\<close> raises.  With
  neither flag set \<^verbatim>\<open>all_paper_aff\<close> is never bound.
\<close>

definition reduce_scores ::
  "bool \<Rightarrow> bool \<Rightarrow> (nat \<Rightarrow> nat \<Rightarrow> real) \<Rightarrow> nat list \<Rightarrow> py_error + (nat \<Rightarrow> fscore)" where
  "reduce_scores avg mx p2p_aff train_paper_idx =
     (if avg then
        Inr (\<lambda>j. if train_paper_idx = [] then NaN
                 else Num (sum_list (map (p2p_aff j) train_paper_idx)
                             / real (length train_paper_idx)))
      else if mx then
        (if train_paper_idx = [] then Inl EmptyReductionError
         else Inr (\<lambda>j. Num (Max (set (map (p2p_aff j) train_paper_idx)))))
      else Inl NameError)"

text \<open>
  The loop over \<^verbatim>\<open>self.pub_author_ids_to_note_id.items()\<close>.  It returns the exception
  that stopped it, if any, and the entries appended to \<^verbatim>\<open>self.preliminary_scores\<close> up
  to that point.
\<close>

fun reviewer_loop ::
  "bool \<Rightarrow> bool \<Rightarrow> (nat \<Rightarrow> nat \<Rightarrow> real) \<Rightarrow> (string \<times> nat) list \<Rightarrow> string set \<Rightarrow> string list
     \<Rightarrow> (string \<times> string list) list \<Rightarrow> fscore score_entry list
     \<Rightarrow> py_error option \<times> fscore score_entry list" where
  "reviewer_loop avg mx p2p_aff paper_id2train_idx train_bad_id_set test_id_list [] acc =
     (None, acc)"
| "reviewer_loop avg mx p2p_aff paper_id2train_idx train_bad_id_set test_id_list
       ((reviewer_id, train_note_id_list) # rest) acc =
     (if length train_note_id_list = 0 then
        reviewer_loop avg mx p2p_aff paper_id2train_idx train_bad_id_set test_id_list rest acc
      else
        (case train_paper_idx_of paper_id2train_idx train_bad_id_set train_note_id_list of
           Inl err \<Rightarrow> (Some err, acc)
         | Inr train_paper_idx \<Rightarrow>
             (case reduce_scores avg mx p2p_aff train_paper_idx of
                Inl err \<Rightarrow> (Some err, acc)
              | Inr all_paper_aff \<Rightarrow>
                  reviewer_loop avg mx p2p_aff paper_id2train_idx train_bad_id_set test_id_list
                    rest
                    (acc @ map (\<lambda>j. (test_id_list ! j, reviewer_id, all_paper_aff j))
                               [0..<length test_id_list]))))"

text \<open>
  \<^verbatim>\<open>all_scores\<close> (the optional write to \<^verbatim>\<open>scores_path\<close> is left out).
  \<^verbatim>\<open>self.preliminary_scores\<close> is set to the empty list before the reviewer loop and
  appended to inside it, so an exception in the loop leaves the entries written so far.
  \<^verbatim>\<open>test_bad_id_set\<close> is bound and not read again.
\<close>

definition all_scores ::
  "fscore predictor \<Rightarrow> emb_line list \<Rightarrow> emb_line list
     \<Rightarrow> (py_error + fscore score_entry list) \<times> fscore predictor" where
  "all_scores self publications submissions =
     (case load_emb_file publications of
        Inl err \<Rightarrow> (Inl err, self)
      | Inr (paper_emb_train, train_id_list, train_bad_id_set) \<Rightarrow>
          (let paper_id2train_idx = build_idx 0 train_id_list [] in
           case load_emb_file submissions of
             Inl err \<Rightarrow> (Inl err, self)
           | Inr (paper_emb_test, test_id_list, test_bad_id_set) \<Rightarrow>
               (case reviewer_loop (average_score self) (max_score self)
                       (compute_p2p_aff paper_emb_test paper_emb_train)
                       paper_id2train_idx train_bad_id_set test_id_list
                       (pub_author_ids_to_note_id self) [] of
                  (Some err, scores) \<Rightarrow> (Inl err, self\<lparr>preliminary_scores := Some scores\<rparr>)
                | (None, scores) \<Rightarrow> (Inr scores, self\<lparr>preliminary_scores := Some scores\<rparr>))))"

text \<open>
  The two reductions as the specification words them: the arithmetic mean and the maximum
  of a reviewer's similarities.
\<close>

definition spec_reduce :: "bool \<Rightarrow> real list \<Rightarrow> real" where
  "spec_reduce avg sims = (if avg then sum_list sims / real (length sims) else Max (set sims))"

subsection \<open>Example inputs\<close>

definition ex_reviewer :: "bool \<Rightarrow> fscore predictor" where
  "ex_reviewer avg =
     \<lparr> average_score = avg, max_score = \<not> avg, sparse_value = None, preliminary_scores = None,
       pub_author_ids_to_note_id = [(''r1'', [''p1''])] \<rparr>"

definition ex_fresh :: "fscore predictor" where
  "ex_fresh =
     \<lparr> average_score = False, max_score = True, sparse_value = None,
       preliminary_scores = None, pub_author_ids_to_note_id = [] \<rparr>"

definition ex_pubs :: "emb_line list" where
  "ex_pubs = [(''a1'', replicate 768 0), (''a2'', replicate 768 0)]"

definition ex_subs :: "emb_line list" where
  "ex_subs = [(''s1'', replicate 768 0)]"

section \<open>Expertise service: data\<close>

text \<open>
  JSON values as \<^verbatim>\<open>json.load\<close> returns them.  A Python dictionary with string keys is
  an association list with distinct keys in insertion order: \<open>map_of\<close> reads a key,
  \<open>AList.update\<close> assigns one (a new key goes to the end) and \<open>AList.delete\<close> removes it.
  \<open>JNum\<close> is a Python \<^verbatim>\<open>int\<close>.  The service does no arithmetic on floats, so a
  \<^verbatim>\<open>float\<close> is kept as \<open>JFloat\<close> of its \<^verbatim>\<open>repr\<close>, the text \<^verbatim>\<open>json.dump\<close> writes for
  it.
\<close>

datatype json =
    JNull
  | JBool bool
  | JNum int
  | JFloat string
  | JStr string
  | JArr "json list"
  | JObj "(string \<times> json) list"

type_synonym dict = "(string \<times> json) list"

definition SUPERUSER_IDS :: "string list" where
  "SUPERUSER_IDS = [''openreview.net'']"

text \<open>
  The \<^verbatim>\<open>repr\<close> of a list of keys, as the f-strings of the error messages print it
  (keys that need escaping are printed here without it).
\<close>

fun repr_items :: "string list \<Rightarrow> string" where
  "repr_items [] = []"
| "repr_items [k] = [CHR 0x27] @ k @ [CHR 0x27]"
| "repr_items (k # ks) = [CHR 0x27] @ k @ [CHR 0x27] @ '', '' @ repr_items ks"

definition repr_keys :: "string list \<Rightarrow> string" where
  "repr_keys ks = ''['' @ repr_items ks @ '']''"

section \<open>Expertise service: request validation (\<^verbatim>\<open>utils.py\<close>)\<close>

text \<open>
  \<^verbatim>\<open>_get_required_field\<close>: pops the key and returns its value with the shortened
  dictionary; a missing key is reported as a bad request.
\<close>

definition get_required_field :: "dict \<Rightarrow> string \<Rightarrow> string \<Rightarrow> py_error + (json \<times> dict)" where
  "get_required_field req superkey key =
     (case map_of req key of
        None \<Rightarrow> Inl (OpenReviewException
                      (''Bad request: required field missing in '' @ superkey @ '': '' @ key))
      | Some field \<Rightarrow> Inr (field, AList.delete key req))"

text \<open>
  The branch of \<^verbatim>\<open>_load_entity\<close> on the entity type; it returns the target entity and
  what is left of the source entity.
\<close>

definition load_entity_props ::
  "string \<Rightarrow> json \<Rightarrow> dict \<Rightarrow> dict \<Rightarrow> py_error + (dict \<times> dict)" where
  "load_entity_props entity_id type source_entity target_entity =
     (if type = JStr ''Group'' then
        (if ''memberOf'' \<in> set (map fst source_entity) then
           (case get_required_field source_entity entity_id ''memberOf'' of
              Inl err \<Rightarrow> Inl err
            | Inr (member_of, source1) \<Rightarrow>
                (let target1 = AList.update ''memberOf'' member_of target_entity in
                 case map_of source1 ''expertise'' of
                   Some expertise \<Rightarrow>
                     Inr (AList.update ''expertise'' expertise target1,
                          AList.delete ''expertise'' source1)
                 | None \<Rightarrow> Inr (target1, source1)))
         else Inl (OpenReviewException
                     (''Bad request: no valid Group properties in '' @ entity_id)))
      else if type = JStr ''Note'' then
        (if ''invitation'' \<in> set (map fst source_entity) \<and> ''id'' \<in> set (map fst source_entity) then
           Inl (OpenReviewException
                  (''Bad request: only provide a single id or single invitation in '' @ entity_id))
         else if ''invitation'' \<in> set (map fst source_entity) then
           (case get_required_field source_entity entity_id ''invitation'' of
              Inl err \<Rightarrow> Inl err
            | Inr (invitation, source1) \<Rightarrow>
                Inr (AList.update ''invitation'' invitation target_entity, source1))
         else if ''id'' \<in> set (map fst source_entity) then
           (case get_required_field source_entity entity_id ''id'' of
              Inl err \<Rightarrow> Inl err
            | Inr (note_id, source1) \<Rightarrow>
                Inr (AList.update ''id'' note_id target_entity, source1))
         else Inl (OpenReviewException
                     (''Bad request: no valid Note properties in '' @ entity_id)))
      else Inl (OpenReviewException (''Bad request: invalid type in '' @ entity_id)))"

text \<open>
  \<^verbatim>\<open>_load_entity\<close>, called on the empty target entity.  The source entity is whatever
  JSON value the request carries: a value that is not an object has no dictionary
  \<^verbatim>\<open>pop\<close>, so the first access raises \<^verbatim>\<open>TypeError\<close> for a list (its \<^verbatim>\<open>pop\<close> wants an
  integer) and \<^verbatim>\<open>AttributeError\<close> otherwise.
\<close>

definition load_entity :: "string \<Rightarrow> json \<Rightarrow> py_error + dict" where
  "load_entity entity_id source_entity =
     (case source_entity of
        JObj source \<Rightarrow>
          (case get_required_field source entity_id ''type'' of
             Inl err \<Rightarrow> Inl err
           | Inr (type, source1) \<Rightarrow>
               (case load_entity_props entity_id type source1 [(''type'', type)] of
                  Inl err \<Rightarrow> Inl err
                | Inr (target_entity, source2) \<Rightarrow>
                    if length (map fst source2) > 0 then
                      Inl (OpenReviewException
                             (''Bad request: unexpected fields in '' @ entity_id @ '': ''
                                @ repr_keys (map fst source2)))
                    else Inr target_entity))
      | JArr _ \<Rightarrow> Inl TypeError
      | _ \<Rightarrow> Inl AttributeError)"

record api_request =
  name :: json
  entityA :: dict
  entityB :: dict
  model :: json

text \<open>\<^verbatim>\<open>APIRequest.__init__\<close>\<close>

definition APIRequest_init :: "dict \<Rightarrow> py_error + api_request" where
  "APIRequest_init request =
     (case get_required_field request ''request'' ''name'' of
        Inl err \<Rightarrow> Inl err
      | Inr (name_field, request1) \<Rightarrow>
     (case get_required_field request1 ''request'' ''entityA'' of
        Inl err \<Rightarrow> Inl err
      | Inr (entity_a, request2) \<Rightarrow>
     (case get_required_field request2 ''request'' ''entityB'' of
        Inl err \<Rightarrow> Inl err
      | Inr (entity_b, request3) \<Rightarrow>
     (case load_entity ''entityA'' entity_a of
        Inl err \<Rightarrow> Inl err
      | Inr target_a \<Rightarrow>
     (case load_entity ''entityB'' entity_b of
        Inl err \<Rightarrow> Inl err
      | Inr target_b \<Rightarrow>
          (let model_field = (case map_of request3 ''model'' of None \<Rightarrow> JObj [] | Some m \<Rightarrow> m);
               request4 = AList.delete ''model'' request3
           in if length (map fst request4) > 0 then
                Inl (OpenReviewException
                       (''Bad request: unexpected fields in request: ''
                          @ repr_keys (map fst request4)))
              else Inr \<lparr> name = name_field, entityA = target_a, entityB = target_b,
                         model = model_field \<rparr>))))))"

text \<open>
  What the specification asks of a request, in its words: the required fields are
  present, with their required sub-fields, and there is no unexpected field.
\<close>

definition spec_valid_entity :: "json \<Rightarrow> bool" where
  "spec_valid_entity e =
     (case e of
        JObj d \<Rightarrow>
          (map_of d ''type'' = Some (JStr ''Group'')
             \<and> ''memberOf'' \<in> set (map fst d)
             \<and> set (map fst d) \<subseteq> {''type'', ''memberOf'', ''expertise''})
          \<or> (map_of d ''type'' = Some (JStr ''Note'')
             \<and> (''invitation'' \<in> set (map fst d)) \<noteq> (''id'' \<in> set (map fst d))
             \<and> set (map fst d) \<subseteq> {''type'', ''invitation'', ''id''})
      | _ \<Rightarrow> False)"

definition spec_valid_request :: "dict \<Rightarrow> bool" where
  "spec_valid_request request =
     (''name'' \<in> set (map fst request)
      \<and> (\<exists>a. map_of request ''entityA'' = Some a \<and> spec_valid_entity a)
      \<and> (\<exists>b. map_of request ''entityB'' = Some b \<and> spec_valid_entity b)
      \<and> set (map fst request) \<subseteq> {''name'', ''entityA'', ''entityB'', ''model''})"

definition is_bad_request :: "py_error \<Rightarrow> bool" where
  "is_bad_request err =
     (case err of
        OpenReviewException msg \<Rightarrow> take 12 msg = ''Bad request:''
      | _ \<Rightarrow> False)"

definition entities_are_objects :: "dict \<Rightarrow> bool" where
  "entities_are_objects request =
     (\<forall>key \<in> {''entityA'', ''entityB''}.
        case map_of request key of Some (JObj _) \<Rightarrow> True | Some _ \<Rightarrow> False | None \<Rightarrow> True)"

section \<open>Expertise service: job submission and status (\<^verbatim>\<open>expertise.py\<close>)\<close>

text \<open>
  What the service reads and changes outside itself.  \<open>uuids\<close> are the values that
  successive calls of \<^verbatim>\<open>shortuuid.ShortUUID().random(length=5)\<close> return and \<open>drawn\<close>
  counts the calls made so far.  The file system is the list of existing directories and
  the JSON content of the files, by path; \<open>dumped\<close> records every \<^verbatim>\<open>json.dump\<close> in
  the order it happened.  \<open>queue\<close> holds the messages handed to \<^verbatim>\<open>apply_async\<close>
  (configuration, token, task id).  \<open>redis_db\<close> is the key-value store of
  \<^verbatim>\<open>JobConfig\<close>.
\<close>

record job_config =
  jc_name :: string
  jc_user_id :: string
  jc_job_id :: string
  jc_job_dir :: string
  jc_status :: string
  jc_description :: string

record world =
  uuids :: "nat \<Rightarrow> string"
  drawn :: nat
  dirs :: "string list"
  files :: "(string \<times> json) list"
  dumped :: "(string \<times> json) list"
  queue :: "(dict \<times> json \<times> string) list"
  redis_db :: "(string \<times> job_config) list"

text \<open>
  The fields of \<^verbatim>\<open>ExpertiseService\<close> taken from the server configuration.
\<close>

record service =
  working_dir :: string
  specter_dir :: string
  mfr_feature_vocab_file :: string
  mfr_checkpoint_dir :: string

definition path_fields :: "string list" where
  "path_fields = [''work_dir'', ''scores_path'', ''publications_path'', ''submissions_path'']"

datatype JobStatus =
  INITIALIZED | QUEUED | FETCHING_DATA | EXPERTISE_QUEUED | RUN_EXPERTISE | COMPLETED | ERROR

fun status_value :: "JobStatus \<Rightarrow> string" where
  "status_value INITIALIZED = ''Initialized''"
| "status_value QUEUED = ''Queued''"
| "status_value FETCHING_DATA = ''Fetching Data''"
| "status_value EXPERTISE_QUEUED = ''Queued for Expertise''"
| "status_value RUN_EXPERTISE = ''Running Expertise''"
| "status_value COMPLETED = ''Completed''"
| "status_value ERROR = ''Error''"

text \<open>
  \<^verbatim>\<open>JobDescription.VALS\<close>; it has no entry for \<^verbatim>\<open>ERROR\<close>, so that lookup raises.
\<close>

fun descriptions :: "JobStatus \<Rightarrow> py_error + string" where
  "descriptions INITIALIZED = Inr ''Server received config and allocated space''"
| "descriptions QUEUED = Inr ''Job is waiting to start fetching OpenReview data''"
| "descriptions FETCHING_DATA = Inr ''Job is currently fetching data from OpenReview''"
| "descriptions EXPERTISE_QUEUED =
     Inr ''Job has assembled the data and is waiting in queue for the expertise model''"
| "descriptions RUN_EXPERTISE =
     Inr ''Job is running the selected expertise model to compute scores''"
| "descriptions COMPLETED = Inr ''Job is complete and the computed scores are ready''"
| "descriptions ERROR = Inl (KeyError ''Error'')"

text \<open>Sequencing of steps that may raise: the first exception ends the sequence.\<close>

definition and_then :: "py_error + 'a \<Rightarrow> ('a \<Rightarrow> py_error + 'b) \<Rightarrow> py_error + 'b" where
  "and_then step rest = (case step of Inl err \<Rightarrow> Inl err | Inr x \<Rightarrow> rest x)"

text \<open>\<^verbatim>\<open>os.path.join\<close> of two components.\<close>

definition path_join :: "string \<Rightarrow> string \<Rightarrow> string" where
  "path_join a b =
     (if b \<noteq> [] \<and> hd b = CHR ''/'' then b
      else if a = [] \<or> last a = CHR ''/'' then a @ b
      else a @ ''/'' @ b)"

text \<open>
  Paths are compared as strings.  They are the working directory and what
  \<^verbatim>\<open>os.path.join\<close> builds from it, so their components are separated by single slashes
  and they do not end in one.  \<open>path_prefixes\<close> lists the proper ancestors of a path,
  outermost first; a path without ancestor lies in the current directory or in the root,
  which exist.
\<close>

definition path_prefixes :: "string \<Rightarrow> string list" where
  "path_prefixes p = map (\<lambda>i. take i p) (filter (\<lambda>i. p ! i = CHR ''/'') [1..<length p])"

definition parent_dir :: "string \<Rightarrow> string option" where
  "parent_dir p = (case path_prefixes p of [] \<Rightarrow> None | ps \<Rightarrow> Some (last ps))"

text \<open>
  What the operating system reports when an entry is to be created at \<open>p\<close> and the
  directory that should hold it is a file or does not exist.
\<close>

definition parent_error :: "world \<Rightarrow> string \<Rightarrow> py_error option" where
  "parent_error w p =
     (case parent_dir p of
        None \<Rightarrow> None
      | Some parent \<Rightarrow>
          if parent \<in> set (map fst (files w)) then Some NotADirectoryError
          else if parent \<notin> set (dirs w) then Some FileNotFoundError
          else None)"

text \<open>
  \<^verbatim>\<open>open(path, 'w+')\<close> followed by \<^verbatim>\<open>json.dump\<close>.  Opening fails when the directory
  of the file is missing or the path is a directory.  The content is recorded as
  \<^verbatim>\<open>json.load\<close> reads it back.
\<close>

definition write_json :: "world \<Rightarrow> string \<Rightarrow> json \<Rightarrow> py_error + world" where
  "write_json w path content =
     (case parent_error w path of
        Some err \<Rightarrow> Inl err
      | None \<Rightarrow>
          if path \<in> set (dirs w) then Inl IsADirectoryError
          else Inr (w\<lparr>files := AList.update path content (files w),
                      dumped := dumped w @ [(path, content)]\<rparr>))"

text \<open>\<^verbatim>\<open>config[outer][inner] = v\<close>\<close>

definition set_nested :: "dict \<Rightarrow> string \<Rightarrow> string \<Rightarrow> json \<Rightarrow> py_error + dict" where
  "set_nested config outer inner v =
     (case map_of config outer of
        None \<Rightarrow> Inl (KeyError outer)
      | Some (JObj d) \<Rightarrow> Inr (AList.update outer (JObj (AList.update inner v d)) config)
      | Some _ \<Rightarrow> Inl TypeError)"

fun set_nested_all :: "dict \<Rightarrow> string \<Rightarrow> string list \<Rightarrow> json \<Rightarrow> py_error + dict" where
  "set_nested_all config outer [] v = Inr config"
| "set_nested_all config outer (field # others) v =
     (case set_nested config outer field v of
        Inl err \<Rightarrow> Inl err
      | Inr config1 \<Rightarrow> set_nested_all config1 outer others v)"

text \<open>The substring test of \<^verbatim>\<open>needle in text\<close> on strings.\<close>

fun is_substring :: "string \<Rightarrow> string \<Rightarrow> bool" where
  "is_substring needle [] = (needle = [])"
| "is_substring needle (c # cs) =
     (take (length needle) (c # cs) = needle \<or> is_substring needle cs)"

text \<open>
  \<^verbatim>\<open>needle in value\<close> for a string needle: substring of a string, element of a list,
  key of a dictionary, and \<^verbatim>\<open>TypeError\<close> for a value that is not iterable.
\<close>

definition py_in :: "string \<Rightarrow> json \<Rightarrow> py_error + bool" where
  "py_in needle v =
     (case v of
        JStr text \<Rightarrow> Inr (is_substring needle text)
      | JArr xs \<Rightarrow> Inr (JStr needle \<in> set xs)
      | JObj d \<Rightarrow> Inr (needle \<in> set (map fst d))
      | _ \<Rightarrow> Inl TypeError)"

text \<open>
  The block "Set SPECTER+MFR paths" of \<^verbatim>\<open>_prepare_config\<close>.
\<close>

definition set_model_paths :: "service \<Rightarrow> dict \<Rightarrow> py_error + dict" where
  "set_model_paths srv config =
     (let model_value =
            (case map_of config ''model'' of None \<Rightarrow> JStr ''specter+mfr'' | Some m \<Rightarrow> m)
      in and_then (py_in ''specter'' model_value) (\<lambda>has_specter.
         and_then (if has_specter
                   then set_nested config ''model_params'' ''specter_dir'' (JStr (specter_dir srv))
                   else Inr config) (\<lambda>config1.
         and_then (py_in ''mfr'' model_value) (\<lambda>has_mfr.
           if has_mfr then
             and_then (set_nested config1 ''model_params'' ''mfr_feature_vocab_file''
                         (JStr (mfr_feature_vocab_file srv))) (\<lambda>config2.
               set_nested config2 ''model_params'' ''mfr_checkpoint_dir''
                 (JStr (mfr_checkpoint_dir srv)))
           else Inr config1))))"

text \<open>
  The part of \<^verbatim>\<open>_prepare_config\<close> between validation and the creation of the
  directory: the server-side fields are set in the validated configuration and the token
  is popped.  \<open>now\<close> is the value of \<^verbatim>\<open>int(time.time() * 1000)\<close>.
\<close>

definition populate_config :: "service \<Rightarrow> string \<Rightarrow> int \<Rightarrow> dict \<Rightarrow> py_error + (dict \<times> json)" where
  "populate_config srv root_dir now config =
     and_then (set_nested config ''dataset'' ''directory'' (JStr root_dir)) (\<lambda>config1.
     and_then (set_nested_all config1 ''model_params'' path_fields (JStr root_dir)) (\<lambda>config2.
     and_then (descriptions INITIALIZED) (\<lambda>description.
       (let config3 = AList.update ''job_dir'' (JStr root_dir) config2;
            config4 = AList.update ''cdate'' (JNum now) config3;
            config5 = AList.update ''mdate'' (JNum now) config4;
            config6 = AList.update ''status'' (JStr (status_value INITIALIZED)) config5;
            config7 = AList.update ''description'' (JStr description) config6
        in and_then (set_model_paths srv config7) (\<lambda>config8.
             case map_of config8 ''token'' of
               None \<Rightarrow> Inl (KeyError ''token'')
             | Some token \<Rightarrow> Inr (AList.delete ''token'' config8, token))))))"

text \<open>
  \<^verbatim>\<open>os.mkdir\<close>: the directory that holds the new one must exist, and nothing may
  exist at the path itself.
\<close>

definition mkdir :: "world \<Rightarrow> string \<Rightarrow> py_error + world" where
  "mkdir w p =
     (case parent_error w p of
        Some err \<Rightarrow> Inl err
      | None \<Rightarrow>
          if p \<in> set (dirs w) \<or> p \<in> set (map fst (files w)) then Inl FileExistsError
          else Inr (w\<lparr>dirs := dirs w @ [p]\<rparr>))"

text \<open>
  \<^verbatim>\<open>os.makedirs\<close> creates every ancestor that does not exist yet, outermost first,
  and then the directory itself.  An ancestor that exists is left alone, also when it
  is a file; creating the next level below a file then fails.
\<close>

fun makedirs_chain :: "world \<Rightarrow> string list \<Rightarrow> py_error + world" where
  "makedirs_chain w [] = Inr w"
| "makedirs_chain w (p # ps) =
     (if p \<in> set (dirs w) \<or> p \<in> set (map fst (files w)) then makedirs_chain w ps
      else and_then (mkdir w p) (\<lambda>w1. makedirs_chain w1 ps))"

definition makedirs :: "world \<Rightarrow> string \<Rightarrow> py_error + world" where
  "makedirs w d = and_then (makedirs_chain w (path_prefixes d)) (\<lambda>w1. mkdir w1 d)"

text \<open>
  \<^verbatim>\<open>if not os.path.isdir(d): os.makedirs(d)\<close>; a file at that path makes
  \<^verbatim>\<open>makedirs\<close> raise.
\<close>

definition makedirs_if_absent :: "world \<Rightarrow> string \<Rightarrow> py_error + world" where
  "makedirs_if_absent w d = (if d \<in> set (dirs w) then Inr w else makedirs w d)"

text \<open>
  \<^verbatim>\<open>_prepare_config\<close>.  \<^verbatim>\<open>ServerConfig\<close> is imported from \<^verbatim>\<open>utils.py\<close> but not
  defined in the sources, so its three lines (construction, \<^verbatim>\<open>from_request\<close>,
  \<^verbatim>\<open>to_json\<close>) are the parameter \<open>validate\<close>: it raises, or returns the configuration
  together with the request as validation left it.  The directory tested and created is
  \<^verbatim>\<open>config['dataset']['directory']\<close>, which was set to \<open>root_dir\<close> above.
\<close>

definition prepare_config ::
  "service \<Rightarrow> (dict \<Rightarrow> py_error + (dict \<times> dict)) \<Rightarrow> world \<Rightarrow> dict \<Rightarrow> int
     \<Rightarrow> (py_error + (dict \<times> json)) \<times> world" where
  "prepare_config srv validate w request now =
     (case validate request of
        Inl err \<Rightarrow> (Inl err, w)
      | Inr (config, request1) \<Rightarrow>
          (case map_of request1 ''job_id'' of
             None \<Rightarrow> (Inl (KeyError ''job_id''), w)
           | Some (JStr job_id) \<Rightarrow>
               (let root_dir = path_join (working_dir srv) job_id in
                case populate_config srv root_dir now config of
                  Inl err \<Rightarrow> (Inl err, w)
                | Inr (config1, token) \<Rightarrow>
                    (case makedirs_if_absent w root_dir of
                       Inl err \<Rightarrow> (Inl err, w)
                     | Inr w1 \<Rightarrow>
                         (case write_json w1 (path_join root_dir ''config.json'') (JObj config1) of
                            Inl err \<Rightarrow> (Inl err, w1)
                          | Inr w2 \<Rightarrow> (Inr (config1, token), w2))))
           | Some _ \<Rightarrow> (Inl TypeError, w)))"

text \<open>
  \<^verbatim>\<open>str\<close> of an \<^verbatim>\<open>int\<close>: its decimal digits, with a minus sign when negative.
\<close>

fun str_nat :: "nat \<Rightarrow> string" where
  "str_nat n =
     (if n < 10 then [char_of (48 + n)]
      else str_nat (n div 10) @ [char_of (48 + n mod 10)])"

definition str_int :: "int \<Rightarrow> string" where
  "str_int i = (if i < 0 then ''-'' @ str_nat (nat (- i)) else str_nat (nat i))"

text \<open>
  The key under which \<^verbatim>\<open>json.dump\<close> writes a dictionary key: a string as it is, a
  number by its digits, \<^verbatim>\<open>True\<close>, \<^verbatim>\<open>False\<close> and \<^verbatim>\<open>None\<close> as \<open>true\<close>, \<open>false\<close> and
  \<open>null\<close>.  A list or a dictionary cannot be a key at all: it is unhashable, and the
  membership test on the keys raises \<^verbatim>\<open>TypeError\<close>.
\<close>

definition index_key :: "json \<Rightarrow> py_error + string" where
  "index_key user_id =
     (case user_id of
        JStr user \<Rightarrow> Inr user
      | JNum n \<Rightarrow> Inr (str_int n)
      | JFloat r \<Rightarrow> Inr r
      | JBool b \<Rightarrow> Inr (if b then ''true'' else ''false'')
      | JNull \<Rightarrow> Inr ''null''
      | _ \<Rightarrow> Inl TypeError)"

text \<open>
  \<^verbatim>\<open>_add_to_user_index\<close>.  The index is the JSON object of \<^verbatim>\<open>index.json\<close>, or
  empty when the file does not exist; its keys are strings.  A user id that is a string
  gets the job id appended to its list, or a new list.  A user id that is a number,
  a truth value or \<^verbatim>\<open>None\<close> equals no key of the loaded index, so it always gets a new
  list, and \<^verbatim>\<open>json.dump\<close> writes it under the key \<open>index_key\<close> gives; when the file is
  read back, that entry stands in the place of an entry the index had under that key.
\<close>

definition add_to_user_index :: "service \<Rightarrow> world \<Rightarrow> json \<Rightarrow> json \<Rightarrow> py_error + world" where
  "add_to_user_index srv w user_id job_id =
     (let index_path = path_join (working_dir srv) ''index.json'';
          loaded = (case map_of (files w) index_path of None \<Rightarrow> JObj [] | Some content \<Rightarrow> content)
      in case loaded of
           JObj index \<Rightarrow>
             and_then (index_key user_id) (\<lambda>key.
               case user_id of
                 JStr user \<Rightarrow>
                   (if user \<notin> set (map fst index) then
                      write_json w index_path (JObj (AList.update user (JArr [job_id]) index))
                    else
                      (case map_of index user of
                         Some (JArr jobs) \<Rightarrow>
                           write_json w index_path
                             (JObj (AList.update user (JArr (jobs @ [job_id])) index))
                       | _ \<Rightarrow> Inl AttributeError))
               | _ \<Rightarrow> write_json w index_path (JObj (AList.update key (JArr [job_id]) index)))
         | _ \<Rightarrow> Inl AttributeError)"

text \<open>
  \<^verbatim>\<open>start_expertise\<close>.  \<open>now1\<close> and \<open>now2\<close> are the two clock readings.  The last
  write goes to \<^verbatim>\<open>config['job_dir']\<close>, which \<^verbatim>\<open>_prepare_config\<close> set to the job's
  directory.
\<close>

definition start_expertise ::
  "service \<Rightarrow> (dict \<Rightarrow> py_error + (dict \<times> dict)) \<Rightarrow> world \<Rightarrow> dict \<Rightarrow> int \<Rightarrow> int
     \<Rightarrow> (py_error + string) \<times> world" where
  "start_expertise srv validate w request now1 now2 =
     (let job_id = uuids w (drawn w);
          w0 = w\<lparr>drawn := drawn w + 1\<rparr>;
          request0 = AList.update ''job_id'' (JStr job_id) request
      in case prepare_config srv validate w0 request0 now1 of
           (Inl err, w1) \<Rightarrow> (Inl err, w1)
         | (Inr (config, token), w1) \<Rightarrow>
             (case descriptions QUEUED of
                Inl err \<Rightarrow> (Inl err, w1)
              | Inr description \<Rightarrow>
                  (let config1 = AList.update ''mdate'' (JNum now2) config;
                       config2 = AList.update ''status'' (JStr (status_value QUEUED)) config1;
                       config3 = AList.update ''description'' (JStr description) config2
                   in case map_of config3 ''user_id'' of
                        None \<Rightarrow> (Inl (KeyError ''user_id''), w1)
                      | Some user_id \<Rightarrow>
                          (case map_of config3 ''job_id'' of
                             None \<Rightarrow> (Inl (KeyError ''job_id''), w1)
                           | Some config_job_id \<Rightarrow>
                               (case add_to_user_index srv w1 user_id config_job_id of
                                  Inl err \<Rightarrow> (Inl err, w1)
                                | Inr w2 \<Rightarrow>
                                    (let w3 = w2\<lparr>queue := queue w2 @ [(config3, token, job_id)]\<rparr>
                                     in case map_of config3 ''job_dir'' of
                                          None \<Rightarrow> (Inl (KeyError ''job_dir''), w3)
                                        | Some (JStr job_dir) \<Rightarrow>
                                            (case write_json w3 (path_join job_dir ''config.json'')
                                                    (JObj config3) of
                                               Inl err \<Rightarrow> (Inl err, w3)
                                             | Inr w4 \<Rightarrow> (Inr job_id, w4))
                                        | Some _ \<Rightarrow> (Inl TypeError, w3)))))))"

text \<open>
  \<^verbatim>\<open>str.lower\<close> on the ASCII letters.
\<close>

definition lower_char :: "char \<Rightarrow> char" where
  "lower_char c =
     (if CHR ''A'' \<le> c \<and> c \<le> CHR ''Z'' then char_of (of_char c + (32 :: nat)) else c)"

definition lower :: "string \<Rightarrow> string" where
  "lower s = map lower_char s"

text \<open>
  The name of a direct child of \<open>parent\<close>, if the path is one.
\<close>

definition child_name :: "string \<Rightarrow> string \<Rightarrow> string option" where
  "child_name parent p =
     (let pre = (if parent = [] \<or> last parent = CHR ''/'' then parent else parent @ ''/'');
          rest = drop (length pre) p
      in if take (length pre) p = pre \<and> rest \<noteq> [] \<and> CHR ''/'' \<notin> set rest
         then Some rest else None)"

text \<open>
  The listing of \<^verbatim>\<open>os.listdir(self.working_dir)\<close> restricted to directories.
  \<^verbatim>\<open>os.listdir\<close> raises when the directory does not exist or is a file.
\<close>

definition list_subdirs :: "world \<Rightarrow> string \<Rightarrow> py_error + string list" where
  "list_subdirs w parent =
     (if parent \<in> set (dirs w) then Inr (List.map_filter (child_name parent) (dirs w))
      else if parent \<in> set (map fst (files w)) then Inl NotADirectoryError
      else Inl FileNotFoundError)"

text \<open>The loop of \<^verbatim>\<open>_get_subdirs\<close> that keeps the directories of the user's jobs.\<close>

fun filter_user_dirs :: "service \<Rightarrow> world \<Rightarrow> string \<Rightarrow> string list \<Rightarrow> py_error + string list" where
  "filter_user_dirs srv w user_id [] = Inr []"
| "filter_user_dirs srv w user_id (job_dir # rest) =
     (case map_of (files w) (path_join (path_join (working_dir srv) job_dir) ''config.json'') of
        None \<Rightarrow> Inl FileNotFoundError
      | Some (JObj config) \<Rightarrow>
          (case map_of config ''user_id'' of
             None \<Rightarrow> Inl (KeyError ''user_id'')
           | Some owner \<Rightarrow>
               and_then (filter_user_dirs srv w user_id rest) (\<lambda>filtered_dirs.
                 Inr (if owner = JStr user_id then job_dir # filtered_dirs else filtered_dirs)))
      | Some _ \<Rightarrow> Inl TypeError)"

definition get_subdirs :: "service \<Rightarrow> world \<Rightarrow> string \<Rightarrow> py_error + string list" where
  "get_subdirs srv w user_id =
     and_then (list_subdirs w (working_dir srv)) (\<lambda>subdirs.
       if lower user_id \<in> set SUPERUSER_IDS then Inr subdirs
       else filter_user_dirs srv w user_id subdirs)"

text \<open>\<^verbatim>\<open>_filter_config\<close>: \<^verbatim>\<open>del\<close> of a missing key raises.\<close>

fun filter_config_keys :: "string list \<Rightarrow> dict \<Rightarrow> py_error + dict" where
  "filter_config_keys [] running_config = Inr running_config"
| "filter_config_keys (key # keys) running_config =
     (if key \<in> set (map fst running_config)
      then filter_config_keys keys (AList.delete key running_config)
      else Inl (KeyError key))"

definition filter_config :: "dict \<Rightarrow> py_error + dict" where
  "filter_config running_config = filter_config_keys [''baseurl'', ''user_id''] running_config"

definition get_item :: "dict \<Rightarrow> string \<Rightarrow> py_error + json" where
  "get_item d key = (case map_of d key of None \<Rightarrow> Inl (KeyError key) | Some v \<Rightarrow> Inr v)"

text \<open>
  \<^verbatim>\<open>get_expertise_status\<close>.  It reads the working directory and writes nothing; the
  world is returned as it was received.
\<close>

definition get_expertise_status ::
  "service \<Rightarrow> world \<Rightarrow> string \<Rightarrow> string \<Rightarrow> (py_error + dict) \<times> world" where
  "get_expertise_status srv w user_id job_id =
     (case get_subdirs srv w user_id of
        Inl err \<Rightarrow> Inl err
      | Inr all_subdirs \<Rightarrow>
          (let job_subdirs = filter (\<lambda>name. name = job_id) all_subdirs
           in if length job_subdirs > 1 then
                Inl (OpenReviewException ''Single job not found: multiple matching jobs returned'')
              else if length job_subdirs = 0 then
                Inl (OpenReviewException ''Job not found'')
              else
                (let job_dir = hd job_subdirs;
                     search_dir = path_join (working_dir srv) job_dir
                 in case map_of (files w) (path_join search_dir ''config.json'') of
                      None \<Rightarrow> Inl FileNotFoundError
                    | Some (JObj config) \<Rightarrow>
                        and_then (get_item config ''status'') (\<lambda>status.
                        and_then (get_item config ''description'') (\<lambda>description.
                        and_then (filter_config config) (\<lambda>filtered_config.
                        and_then (get_item filtered_config ''name'') (\<lambda>name_field.
                        and_then (get_item filtered_config ''cdate'') (\<lambda>cdate.
                        and_then (get_item filtered_config ''mdate'') (\<lambda>mdate.
                          Inr [(''job_id'', JStr job_dir), (''name'', name_field),
                               (''status'', status), (''description'', description),
                               (''cdate'', cdate), (''mdate'', mdate),
                               (''config'', JObj filtered_config)]))))))
                    | Some _ \<Rightarrow> Inl TypeError)),
      w)"

section \<open>Expertise service: the job store (\<^verbatim>\<open>JobConfig\<close> in \<^verbatim>\<open>utils.py\<close>)\<close>

definition job_key :: "string \<Rightarrow> string" where
  "job_key job_id = ''job:'' @ job_id"

text \<open>\<^verbatim>\<open>JobConfig.remove_job\<close>\<close>

definition remove_job :: "world \<Rightarrow> string \<Rightarrow> string \<Rightarrow> (py_error + job_config) \<times> world" where
  "remove_job w user_id job_id =
     (case map_of (redis_db w) (job_key job_id) of
        None \<Rightarrow> (Inl (OpenReviewException ''Job not found''), w)
      | Some config \<Rightarrow>
          if jc_user_id config \<noteq> user_id \<and> user_id \<notin> set SUPERUSER_IDS then
            (Inl (OpenReviewException ''Forbidden: Insufficient permissions to modify job''), w)
          else (Inr config, w\<lparr>redis_db := AList.delete (job_key job_id) (redis_db w)\<rparr>))"

text \<open>
  \<^verbatim>\<open>JobConfig.load_job\<close>.  When the directory is missing, \<^verbatim>\<open>remove_job\<close> is called
  first and its exception, if it raises, is the one the caller sees.
\<close>

definition load_job :: "world \<Rightarrow> string \<Rightarrow> string \<Rightarrow> (py_error + job_config) \<times> world" where
  "load_job w job_id user_id =
     (case map_of (redis_db w) (job_key job_id) of
        None \<Rightarrow> (Inl (OpenReviewException ''Job not found''), w)
      | Some config \<Rightarrow>
          if jc_job_dir config \<notin> set (dirs w) then
            (case remove_job w user_id job_id of
               (Inl err, w1) \<Rightarrow> (Inl err, w1)
             | (Inr removed, w1) \<Rightarrow> (Inl (OpenReviewException ''Job not found''), w1))
          else if jc_user_id config \<noteq> user_id \<and> user_id \<notin> set SUPERUSER_IDS then
            (Inl (OpenReviewException ''Forbidden: Insufficient permissions to access job''), w)
          else (Inr config, w))"

text \<open>
  \<^verbatim>\<open>JobConfig.load_all_jobs\<close>: the scan over the keys \<^verbatim>\<open>job:*\<close>, here in the order
  of the store.
\<close>

fun load_all_jobs_loop ::
  "world \<Rightarrow> string \<Rightarrow> job_config list \<Rightarrow> job_config list
     \<Rightarrow> (py_error + job_config list) \<times> world" where
  "load_all_jobs_loop w user_id [] configs = (Inr configs, w)"
| "load_all_jobs_loop w user_id (current_config # rest) configs =
     (if jc_job_dir current_config \<notin> set (dirs w) then
        (case remove_job w user_id (jc_job_id current_config) of
           (Inl err, w1) \<Rightarrow> (Inl err, w1)
         | (Inr removed, w1) \<Rightarrow> load_all_jobs_loop w1 user_id rest configs)
      else if jc_user_id current_config = user_id \<or> user_id \<in> set SUPERUSER_IDS then
        load_all_jobs_loop w user_id rest (configs @ [current_config])
      else load_all_jobs_loop w user_id rest configs)"

definition load_all_jobs :: "world \<Rightarrow> string \<Rightarrow> (py_error + job_config list) \<times> world" where
  "load_all_jobs w user_id = load_all_jobs_loop w user_id (map snd (redis_db w)) []"

section \<open>Example service, worlds and validators\<close>

text \<open>\<^verbatim>\<open>APIRequest.to_json\<close>\<close>

definition APIRequest_to_json :: "api_request \<Rightarrow> py_error + dict" where
  "APIRequest_to_json self =
     (let body = [(''name'', name self), (''entityA'', JObj (entityA self)),
                  (''entityB'', JObj (entityB self))]
      in case model self of
           JObj m \<Rightarrow>
             Inr (if length (map fst m) > 0 then AList.update ''model'' (JObj m) body else body)
         | _ \<Rightarrow> Inl AttributeError)"

text \<open>
  A validator for the examples that runs \<^verbatim>\<open>APIRequest\<close> on the request; the request
  is left empty, as the pops of \<^verbatim>\<open>APIRequest.__init__\<close> leave it.
\<close>

definition ex_api_validate :: "dict \<Rightarrow> py_error + (dict \<times> dict)" where
  "ex_api_validate request =
     and_then (APIRequest_init request) (\<lambda>validated.
     and_then (APIRequest_to_json validated) (\<lambda>body. Inr (body, [])))"

text \<open>
  A validator for the examples that asks for a name and adds the two sections that the
  server-side fields are written into.
\<close>

definition ex_validate :: "dict \<Rightarrow> py_error + (dict \<times> dict)" where
  "ex_validate request =
     (if ''name'' \<in> set (map fst request)
      then Inr (request @ [(''dataset'', JObj []), (''model_params'', JObj [])], request)
      else Inl (OpenReviewException ''Bad request: required field missing: name''))"

definition ex_service :: service where
  "ex_service =
     \<lparr> working_dir = ''jobs'', specter_dir = ''sp'', mfr_feature_vocab_file = ''vocab'',
       mfr_checkpoint_dir = ''ckpt'' \<rparr>"

definition ex_world :: world where
  "ex_world =
     \<lparr> uuids = (\<lambda>n. ''abcde''), drawn = 0, dirs = [''jobs''], files = [], dumped = [],
       queue = [], redis_db = [] \<rparr>"

text \<open>The state before the first submission: the working directory does not exist yet.\<close>

definition ex_world_first :: world where
  "ex_world_first = ex_world\<lparr>dirs := []\<rparr>"

definition ex_request :: dict where
  "ex_request = [(''name'', JStr ''run''), (''user_id'', JStr ''u1''), (''token'', JStr ''secret'')]"

definition ex_request_num :: dict where
  "ex_request_num = [(''name'', JStr ''run''), (''user_id'', JNum 7), (''token'', JStr ''secret'')]"

definition ex_config_init :: dict where
  "ex_config_init =
     [(''name'', JStr ''run''), (''user_id'', JStr ''u1''), (''job_id'', JStr ''abcde''),
      (''dataset'', JObj [(''directory'', JStr ''jobs/abcde'')]),
      (''model_params'',
       JObj [(''work_dir'', JStr ''jobs/abcde''), (''scores_path'', JStr ''jobs/abcde''),
             (''publications_path'', JStr ''jobs/abcde''),
             (''submissions_path'', JStr ''jobs/abcde''), (''specter_dir'', JStr ''sp''),
             (''mfr_feature_vocab_file'', JStr ''vocab''), (''mfr_checkpoint_dir'', JStr ''ckpt'')]),
      (''job_dir'', JStr ''jobs/abcde''), (''cdate'', JNum 5), (''mdate'', JNum 5),
      (''status'', JStr ''Initialized''),
      (''description'', JStr ''Server received config and allocated space'')]"

definition ex_config_queued :: dict where
  "ex_config_queued =
     [(''name'', JStr ''run''), (''user_id'', JStr ''u1''), (''job_id'', JStr ''abcde''),
      (''dataset'', JObj [(''directory'', JStr ''jobs/abcde'')]),
      (''model_params'',
       JObj [(''work_dir'', JStr ''jobs/abcde''), (''scores_path'', JStr ''jobs/abcde''),
             (''publications_path'', JStr ''jobs/abcde''),
             (''submissions_path'', JStr ''jobs/abcde''), (''specter_dir'', JStr ''sp''),
             (''mfr_feature_vocab_file'', JStr ''vocab''), (''mfr_checkpoint_dir'', JStr ''ckpt'')]),
      (''job_dir'', JStr ''jobs/abcde''), (''cdate'', JNum 5), (''mdate'', JNum 6),
      (''status'', JStr ''Queued''),
      (''description'', JStr ''Job is waiting to start fetching OpenReview data'')]"

definition ex_api_request :: dict where
  "ex_api_request =
     [(''name'', JStr ''run''),
      (''entityA'', JObj [(''type'', JStr ''Group''), (''memberOf'', JStr ''ABC.cc'')]),
      (''entityB'', JObj [(''type'', JStr ''Note''), (''invitation'', JStr ''ABC.cc/-/Submission'')])]"

definition ex_world_stale :: world where
  "ex_world_stale =
     ex_world\<lparr>files := [(''jobs/index.json'', JObj [(''u1'', JArr [JStr ''j1''])])]\<rparr>"

definition ex_world_owned :: world where
  "ex_world_owned =
     ex_world\<lparr>dirs := [''jobs'', ''jobs/j1''],
              files := [(''jobs/j1/config.json'', JObj [(''user_id'', JStr ''u1'')])]\<rparr>"

definition ex_job :: job_config where
  "ex_job =
     \<lparr> jc_name = ''run'', jc_user_id = ''u1'', jc_job_id = ''j1'', jc_job_dir = ''jobs/j1'',
       jc_status = ''Completed'', jc_description = ''done'' \<rparr>"

definition ex_world_store :: world where
  "ex_world_store =
     ex_world\<lparr>dirs := [''jobs'', ''jobs/j1''], redis_db := [(''job:j1'', ex_job)]\<rparr>"

definition ex_world_store_stale :: world where
  "ex_world_store_stale = ex_world\<lparr>redis_db := [(''job:j1'', ex_job)]\<rparr>"

section \<open>Properties of the sparsifier\<close>

subsection \<open>The helper keeps the head of every run\<close>

lemma set_set_add: "set (set_add x s) = insert x (set s)"
  by (auto simp: set_add_def)

lemma sparse_loop_mono: "set acc \<subseteq> set (sparse_loop ix k es c cur acc)"
proof (induction es arbitrary: c cur acc)
  case Nil show ?case by simp
next
  case (Cons e es)
  have a: "set acc \<subseteq> set (set_add e acc)" by (auto simp: set_set_add)
  have b: "set acc \<subseteq> set (sparse_loop ix k es c' cur' (set_add e acc))" for c' cur'
    using a Cons[of "set_add e acc" c' cur'] by blast
  show ?case using b Cons[of acc] by simp
qed

lemma sparse_loop_keeps:
  assumes "sorted_wrt (\<ge>) (map (entry_id ix) es)"
      and "\<forall>x\<in>set es. entry_id ix x \<le> cur"
      and "c \<le> int m0 \<or> cur \<notin> entry_id ix ` set es"
  shows "set (take (nat k - (if g = cur then m0 else 0)) (filter (\<lambda>e. entry_id ix e = g) es))
           \<subseteq> set (sparse_loop ix k es c cur acc)"
  using assms
proof (induction es arbitrary: c cur acc m0)
  case Nil show ?case by simp
next
  case (Cons e es)
  let ?i = "entry_id ix e"
  have srt: "sorted_wrt (\<ge>) (map (entry_id ix) es)" using Cons.prems(1) by simp
  have le_e: "\<forall>x\<in>set es. entry_id ix x \<le> ?i" using Cons.prems(1) by auto
  have le_cur: "\<forall>x\<in>set es. entry_id ix x \<le> cur" using Cons.prems(2) by simp
  show ?case
  proof (cases "c < k")
    case True
    have e_in: "e \<in> set (sparse_loop ix k es (c + 1) cur (set_add e acc))"
      using sparse_loop_mono[of "set_add e acc" ix k es "c+1" cur] by (auto simp: set_set_add)
    show ?thesis
    proof (cases "?i = cur")
      case same: True
      have "c \<le> int m0" using Cons.prems(3) same by auto
      then have "c + 1 \<le> int (Suc m0) \<or> cur \<notin> entry_id ix ` set es" by simp
      from Cons.IH[OF srt le_cur this, of "set_add e acc"]
      have IH: "set (take (nat k - (if g = cur then Suc m0 else 0)) (filter (\<lambda>e. entry_id ix e = g) es))
           \<subseteq> set (sparse_loop ix k es (c + 1) cur (set_add e acc))" .
      show ?thesis using True same IH e_in
        by (auto simp: take_Cons' dest: in_set_takeD split: if_splits)
    next
      case diff: False
      have "?i < cur" using Cons.prems(2) diff by auto
      then have "cur \<notin> entry_id ix ` set es" using le_e by fastforce
      then have "c + 1 \<le> int m0 \<or> cur \<notin> entry_id ix ` set es" by simp
      from Cons.IH[OF srt le_cur this, of "set_add e acc"]
      have IH: "set (take (nat k - (if g = cur then m0 else 0)) (filter (\<lambda>e. entry_id ix e = g) es))
           \<subseteq> set (sparse_loop ix k es (c + 1) cur (set_add e acc))" .
      have sub: "set (take (nat k - 1) (filter (\<lambda>e. entry_id ix e = g) es)) \<subseteq> set (take (nat k) (filter (\<lambda>e. entry_id ix e = g) es))"
        by (rule set_take_subset_set_take) simp
      show ?thesis using True diff IH e_in sub
        by (auto simp: take_Cons' split: if_splits)
    qed
  next
    case False
    show ?thesis
    proof (cases "?i = cur")
      case same: True
      have cm: "c \<le> int m0" using Cons.prems(3) same by auto
      then have "c + 1 \<le> int (Suc m0) \<or> cur \<notin> entry_id ix ` set es" by simp
      from Cons.IH[OF srt le_cur this, of acc]
      have IH: "set (take (nat k - (if g = cur then Suc m0 else 0)) (filter (\<lambda>e. entry_id ix e = g) es))
           \<subseteq> set (sparse_loop ix k es (c + 1) cur acc)" .
      have "nat k \<le> m0" using False cm by linarith
      then show ?thesis using False same IH
        by (auto simp: take_Cons' split: if_splits)
    next
      case diff: False
      have e_in: "e \<in> set (sparse_loop ix k es 1 ?i (set_add e acc))"
        using sparse_loop_mono[of "set_add e acc" ix k es 1 ?i] by (auto simp: set_set_add)
      have "(1::int) \<le> int (Suc 0) \<or> ?i \<notin> entry_id ix ` set es" by simp
      from Cons.IH[OF srt le_e this, of "set_add e acc"]
      have IH: "set (take (nat k - (if g = ?i then Suc 0 else 0)) (filter (\<lambda>e. entry_id ix e = g) es))
           \<subseteq> set (sparse_loop ix k es 1 ?i (set_add e acc))" .
      have sub: "set (take (nat k - m0) (filter (\<lambda>e. entry_id ix e = g) es)) \<subseteq> set (take (nat k) (filter (\<lambda>e. entry_id ix e = g) es))"
        by (rule set_take_subset_set_take) simp
      show ?thesis using False diff IH e_in sub
        by (auto simp: take_Cons' split: if_splits)
    qed
  qed
qed

subsection \<open>The stable descending sort\<close>

lemma sorted_desc_py_sort: "sorted_wrt (\<ge>) (map key (py_sort_desc key xs))"
proof -
  have "sorted (map key (sort_key key (rev xs)))" by simp
  then have "sorted_wrt (\<ge>) (rev (map key (sort_key key (rev xs))))"
    by (simp add: sorted_wrt_rev)
  then show ?thesis by (simp add: py_sort_desc_def rev_map)
qed

lemma set_py_sort [simp]: "set (py_sort_desc key xs) = set xs"
  by (simp add: py_sort_desc_def)

lemma filter_py_sort: "filter P (py_sort_desc key xs) = py_sort_desc key (filter P xs)"
  by (simp add: py_sort_desc_def rev_filter [symmetric] filter_sort)

lemma insort_key_cong_order:
  assumes "\<forall>y\<in>set ys. (f x \<le> f y) = (g x \<le> g y)"
  shows "insort_key f x ys = insort_key g x ys"
  using assms by (induction ys) auto

lemma sort_key_cong_order:
  assumes "\<forall>x\<in>set xs. \<forall>y\<in>set xs. (f x \<le> f y) = (g x \<le> g y)"
  shows "sort_key f xs = sort_key g xs"
  using assms
proof (induction xs)
  case Nil show ?case by simp
next
  case (Cons x xs)
  have "sort_key f xs = sort_key g xs" using Cons by simp
  moreover have "insort_key f x (sort_key g xs) = insort_key g x (sort_key g xs)"
    by (rule insort_key_cong_order) (use Cons.prems in simp)
  ultimately show ?case by simp
qed

lemma py_sort_cong_order:
  assumes "\<forall>x\<in>set xs. \<forall>y\<in>set xs. (f x \<le> f y) = (g x \<le> g y)"
  shows "py_sort_desc f xs = py_sort_desc g xs"
  unfolding py_sort_desc_def using sort_key_cong_order[of "rev xs" f g] assms by simp

lemma top_k_note_as_scan:
  "spec_top_k k note_of n xs = take k (filter (\<lambda>e. note_of e = n) (py_sort_desc note_key xs))"
proof -
  have "py_sort_desc note_key (filter (\<lambda>e. note_of e = n) xs)
        = py_sort_desc score_of (filter (\<lambda>e. note_of e = n) xs)"
    by (rule py_sort_cong_order) (auto simp: note_key_def less_eq_prod_def)
  then show ?thesis by (simp add: spec_top_k_def filter_py_sort)
qed

lemma top_k_profile_as_scan:
  "spec_top_k k profile_of p xs = take k (filter (\<lambda>e. profile_of e = p) (py_sort_desc profile_key xs))"
proof -
  have "py_sort_desc profile_key (filter (\<lambda>e. profile_of e = p) xs)
        = py_sort_desc score_of (filter (\<lambda>e. profile_of e = p) xs)"
    by (rule py_sort_cong_order) (auto simp: profile_key_def less_eq_prod_def)
  then show ?thesis by (simp add: spec_top_k_def filter_py_sort)
qed

subsection \<open>One pass of the helper on a sorted list\<close>

lemma helper_keeps_top_k:
  assumes "sparse_scores_helper (py_sort_desc key xs) (Some k) acc ix = Inr out"
      and "\<And>e. fst (key e) = entry_id ix e"
  shows "set (take (nat k) (filter (\<lambda>e. entry_id ix e = g) (py_sort_desc key xs))) \<subseteq> set out"
proof (cases "py_sort_desc key xs")
  case Nil then show ?thesis by simp
next
  case (Cons first rest)
  have out: "out = sparse_loop ix k (first # rest) 0 (entry_id ix first) acc"
    using assms(1) Cons by (simp add: sparse_scores_helper_def)
  have "sorted_wrt (\<ge>) (map key (first # rest))"
    using sorted_desc_py_sort[of key xs] Cons by simp
  then have "sorted_wrt (\<lambda>a b. fst (key a) \<ge> fst (key b)) (first # rest)"
    unfolding sorted_wrt_map by (rule sorted_wrt_mono_rel[rotated]) (auto simp: less_eq_prod_def)
  then have s: "sorted_wrt (\<ge>) (map (entry_id ix) (first # rest))"
    by (simp add: sorted_wrt_map assms(2))
  then have le: "\<forall>x\<in>set (first # rest). entry_id ix x \<le> entry_id ix first" by auto
  have "(0::int) \<le> int 0 \<or> entry_id ix first \<notin> entry_id ix ` set (first # rest)" by simp
  from sparse_loop_keeps[OF s le this, of k g acc] show ?thesis
    unfolding out Cons by simp
qed

lemma helper_mono:
  assumes "sparse_scores_helper xs sp acc ix = Inr out"
  shows "set acc \<subseteq> set out"
proof -
  obtain first rest k where "xs = first # rest" "sp = Some k"
    and "out = sparse_loop ix k xs 0 (entry_id ix first) acc"
    using assms by (auto simp: sparse_scores_helper_def split: list.splits option.splits)
  then show ?thesis using sparse_loop_mono[of acc ix k xs 0 "entry_id ix first"] by simp
qed

subsection \<open>Ranks and top-k lists\<close>

lemma length_py_sort [simp]: "length (py_sort_desc key xs) = length xs"
  by (simp add: py_sort_desc_def)

lemma length_filter_take_le: "length (filter Q (take n L)) \<le> length (filter Q L)"
proof -
  have "length (filter Q L) = length (filter Q (take n L)) + length (filter Q (drop n L))"
    by (metis append_take_drop_id filter_append length_append)
  then show ?thesis by simp
qed

lemma rank_in_top_k:
  assumes "e \<in> set scan" and "idf e = g"
      and "length (filter (\<lambda>x. idf x = g \<and> score_of e \<le> score_of x) scan) \<le> k"
  shows "e \<in> set (spec_top_k k idf g scan)"
proof -
  let ?L = "py_sort_desc score_of (filter (\<lambda>x. idf x = g) scan)"
  let ?Q = "\<lambda>x. score_of e \<le> score_of x"
  have "e \<in> set ?L" using assms(1,2) by simp
  then obtain i where i: "i < length ?L" "?L ! i = e" by (metis in_set_conv_nth)
  have srt: "sorted_wrt (\<ge>) (map score_of ?L)" by (rule sorted_desc_py_sort)
  have all: "\<forall>x\<in>set (take (Suc i) ?L). ?Q x"
  proof
    fix x assume "x \<in> set (take (Suc i) ?L)"
    then obtain j where j: "j < Suc i" "j < length ?L" "?L ! j = x"
      using i(1) by (auto simp: in_set_conv_nth simp del: length_py_sort)
    show "?Q x"
    proof (cases "j = i")
      case True then show ?thesis using i j by simp
    next
      case False
      then have "j < i" using j by simp
      then have "map score_of ?L ! i \<le> map score_of ?L ! j"
        using srt i(1) by (simp only: sorted_wrt_iff_nth_less length_map)
      then show ?thesis using i j by simp
    qed
  qed
  have "Suc i = length (filter ?Q (take (Suc i) ?L))"
    using all i(1) by (simp add: filter_id_conv min_def)
  also have "\<dots> \<le> length (filter ?Q ?L)" by (rule length_filter_take_le)
  also have "\<dots> = length (filter ?Q (filter (\<lambda>x. idf x = g) scan))"
    by (simp add: filter_py_sort)
  also have "\<dots> = length (filter (\<lambda>x. idf x = g \<and> ?Q x) scan)"
    by (simp add: conj_commute)
  finally have "i < k" using assms(3) by simp
  then have "?L ! i \<in> set (take k ?L)" using i(1) by (auto simp: in_set_conv_nth)
  then show ?thesis using i(2) by (simp add: spec_top_k_def)
qed

lemma py_sort_desc_Nil_iff [simp]: "py_sort_desc key xs = [] \<longleftrightarrow> xs = []"
  using length_py_sort[of key xs] by (metis length_0_conv)

lemma helper_returns:
  "prelim \<noteq> [] \<Longrightarrow> \<exists>out. sparse_scores_helper prelim (Some k) acc ix = Inr out"
  by (cases prelim) (simp_all add: sparse_scores_helper_def)

lemma sparse_scores_returns:
  assumes "preliminary_scores self = Some prelim" and "prelim \<noteq> []" and "sparse_value self = Some k"
  shows "\<exists>out self'. sparse_scores self = Inr (out, self')"
proof -
  let ?s1 = "py_sort_desc note_key prelim"
  let ?s2 = "py_sort_desc profile_key ?s1"
  obtain a1 where a1: "sparse_scores_helper ?s1 (Some k) [] Idx0 = Inr a1"
    using helper_returns[of ?s1 k "[]" Idx0] assms(2) by auto
  obtain a2 where a2: "sparse_scores_helper ?s2 (Some k) a1 Idx1 = Inr a2"
    using helper_returns[of ?s2 k a1 Idx1] assms(2) by auto
  show ?thesis using assms(1,3) a1 a2 by (simp add: sparse_scores_def Let_def)
qed

lemma sparse_scores_keeps_top_k:
  assumes "sparse_scores self = Inr (out, self')"
  shows "\<exists>prelim k. preliminary_scores self = Some prelim \<and> sparse_value self = Some k
           \<and> (\<forall>n. set (spec_top_k (nat k) note_of n prelim) \<subseteq> set out)
           \<and> (\<forall>p. set (spec_top_k (nat k) profile_of p (py_sort_desc note_key prelim)) \<subseteq> set out)"
proof -
  obtain prelim where pre: "preliminary_scores self = Some prelim"
    using assms by (cases "preliminary_scores self") (auto simp: sparse_scores_def)
  let ?s1 = "py_sort_desc note_key prelim"
  let ?s2 = "py_sort_desc profile_key ?s1"
  obtain a1 where h1: "sparse_scores_helper ?s1 (sparse_value self) [] Idx0 = Inr a1"
    using assms pre by (auto simp: sparse_scores_def Let_def split: sum.splits)
  obtain a2 where h2: "sparse_scores_helper ?s2 (sparse_value self) a1 Idx1 = Inr a2"
    and out: "out = py_sort_desc note_key a2"
    using assms pre h1 by (auto simp: sparse_scores_def Let_def split: sum.splits)
  obtain k where k: "sparse_value self = Some k"
    using h1 by (cases "sparse_value self") (auto simp: sparse_scores_helper_def split: list.splits)
  have a1_sub: "set a1 \<subseteq> set a2"
    using h2 by (rule helper_mono)
  have nts: "set (spec_top_k (nat k) note_of n prelim) \<subseteq> set out" for n
    using helper_keeps_top_k[OF h1[unfolded k], of n] a1_sub
    by (auto simp: top_k_note_as_scan out note_key_def)
  have profs: "set (spec_top_k (nat k) profile_of p ?s1) \<subseteq> set out" for p
    using helper_keeps_top_k[OF h2[unfolded k], of p]
    by (auto simp: top_k_profile_as_scan out profile_key_def)
  show ?thesis using pre k nts profs by blast
qed


subsection \<open>The entries one pass emits\<close>

lemma set_spec_pass:
  "set (spec_pass ix k ys) = {x. \<exists>g. x \<in> set (take (max 1 (nat k)) (filter (\<lambda>e. entry_id ix e = g) ys))}"
proof -
  have "x \<in> set ys \<and> entry_id ix x = g"
    if "x \<in> set (take n (filter (\<lambda>e. entry_id ix e = g) ys))" for x n g
    using in_set_takeD[OF that] by simp
  then show ?thesis unfolding spec_pass_def by fastforce
qed

lemma sparse_loop_sub: "set (sparse_loop ix k es c cur acc) \<subseteq> set acc \<union> set es"
proof (induction es arbitrary: c cur acc)
  case Nil show ?case by simp
next
  case (Cons e es)
  have a: "set (sparse_loop ix k es c' cur' (set_add e acc)) \<subseteq> set acc \<union> set (e # es)" for c' cur'
    using Cons[of c' cur' "set_add e acc"] by (auto simp: set_set_add)
  have b: "set (sparse_loop ix k es c' cur' acc) \<subseteq> set acc \<union> set (e # es)" for c' cur'
    using Cons[of c' cur' acc] by auto
  show ?case using a b by simp
qed

lemma in_take_filter_at:
  assumes "P e" and "length (filter P pre) < n"
  shows "e \<in> set (take n (filter P (pre @ e # es)))"
  using assms by (simp add: take_Cons')

lemma sparse_loop_exact:
  assumes "sorted_wrt (\<ge>) (map (entry_id ix) (pre @ es))"
      and "\<forall>g \<in> entry_id ix ` set (pre @ es). nat k \<le> length (filter (\<lambda>e. entry_id ix e = g) (pre @ es))"
      and "1 \<le> k"
      and "(pre = [] \<and> c = 0 \<and> (es \<noteq> [] \<longrightarrow> cur = entry_id ix (hd es)))
           \<or> (pre \<noteq> [] \<and> cur = entry_id ix (last pre)
               \<and> c = int (length (filter (\<lambda>e. entry_id ix e = cur) pre)))"
  shows "set (sparse_loop ix k es c cur acc)
           \<subseteq> set acc \<union> {x. \<exists>g. x \<in> set (take (nat k) (filter (\<lambda>e. entry_id ix e = g) (pre @ es)))}"
  using assms
proof (induction es arbitrary: pre c cur acc)
  case Nil show ?case by simp
next
  case (Cons e es)
  let ?i = "entry_id ix e"
  define T where "T = {x. \<exists>g. x \<in> set (take (nat k) (filter (\<lambda>e. entry_id ix e = g) (pre @ e # es)))}"
  have srt: "sorted_wrt (\<ge>) (map (entry_id ix) ((pre @ [e]) @ es))" using Cons.prems(1) by simp
  have big: "\<forall>g \<in> entry_id ix ` set ((pre @ [e]) @ es).
               nat k \<le> length (filter (\<lambda>e. entry_id ix e = g) ((pre @ [e]) @ es))"
    using Cons.prems(2) by simp
  have cnt: "c = int (length (filter (\<lambda>x. entry_id ix x = cur) pre))"
    using Cons.prems(4) by auto
  have step: "set (sparse_loop ix k es c' cur' acc') \<subseteq> set acc' \<union> T"
    if "cur' = ?i" "c' = int (length (filter (\<lambda>x. entry_id ix x = ?i) (pre @ [e])))" for c' cur' acc'
    using Cons.IH[OF srt big Cons.prems(3), of c' cur' acc'] that unfolding T_def by simp
  have goal: "?case = (set (sparse_loop ix k (e # es) c cur acc) \<subseteq> set acc \<union> T)"
    unfolding T_def by simp
  show ?case
  proof (cases "?i = cur")
    case same: True
    have inv: "c + 1 = int (length (filter (\<lambda>x. entry_id ix x = ?i) (pre @ [e])))"
      using cnt same by simp
    show ?thesis
    proof (cases "c < k")
      case True
      have "length (filter (\<lambda>x. entry_id ix x = ?i) pre) < nat k" using True cnt same by simp
      then have "e \<in> set (take (nat k) (filter (\<lambda>x. entry_id ix x = ?i) (pre @ e # es)))"
        by (intro in_take_filter_at) simp_all
      then have eT: "e \<in> T" unfolding T_def by blast
      have st: "set (sparse_loop ix k es (c + 1) cur (set_add e acc)) \<subseteq> set (set_add e acc) \<union> T"
        by (rule step) (use same inv in simp_all)
      have "sparse_loop ix k (e # es) c cur acc = sparse_loop ix k es (c + 1) cur (set_add e acc)"
        using True by simp
      then show ?thesis unfolding goal using st eT by (auto simp: set_set_add)
    next
      case False
      have st: "set (sparse_loop ix k es (c + 1) cur acc) \<subseteq> set acc \<union> T"
        by (rule step) (use same inv in simp_all)
      have "sparse_loop ix k (e # es) c cur acc = sparse_loop ix k es (c + 1) cur acc"
        using False same by simp
      then show ?thesis unfolding goal using st by simp
    qed
  next
    case diff: False
    have pne: "pre \<noteq> []" and curl: "cur = entry_id ix (last pre)"
      using Cons.prems(4) diff by auto
    have ge_last: "\<forall>x\<in>set (e # es). entry_id ix x \<le> entry_id ix (last pre)"
    proof -
      have "pre = butlast pre @ [last pre]" using pne by simp
      then have "sorted_wrt (\<ge>) (map (entry_id ix) (butlast pre @ [last pre] @ e # es))"
        using Cons.prems(1) by (metis append_Cons append_Nil append_assoc)
      then show ?thesis by (auto simp: sorted_wrt_append)
    qed
    have lt: "?i < cur" using ge_last diff curl by auto
    have none_after: "filter (\<lambda>x. entry_id ix x = cur) (e # es) = []"
    proof -
      have "\<forall>x\<in>set es. entry_id ix x \<le> ?i" using Cons.prems(1) by (auto simp: sorted_wrt_append)
      then show ?thesis using lt by (auto simp: filter_empty_conv)
    qed
    have "cur \<in> entry_id ix ` set (pre @ e # es)" using pne curl by auto
    then have "nat k \<le> length (filter (\<lambda>x. entry_id ix x = cur) (pre @ e # es))"
      using Cons.prems(2) by blast
    then have ck: "\<not> c < k" using none_after cnt by simp
    have none_before: "filter (\<lambda>x. entry_id ix x = ?i) pre = []"
    proof -
      have "\<forall>x\<in>set pre. entry_id ix x \<ge> cur"
      proof
        fix x assume "x \<in> set pre"
        then have "x = last pre \<or> x \<in> set (butlast pre)" using pne
          by (metis append_butlast_last_id insert_iff list.set(2) rotate1.simps(2) set_rotate1 Un_iff set_append empty_set)
        moreover have "\<forall>y\<in>set (butlast pre). entry_id ix y \<ge> entry_id ix (last pre)"
        proof -
          have "pre = butlast pre @ [last pre]" using pne by simp
          then have "sorted_wrt (\<ge>) (map (entry_id ix) (butlast pre @ [last pre]))"
            using Cons.prems(1) by (simp add: sorted_wrt_append)
          then show ?thesis by (auto simp: sorted_wrt_append)
        qed
        ultimately show "entry_id ix x \<ge> cur" using curl by auto
      qed
      then show ?thesis using lt by (auto simp: filter_empty_conv)
    qed
    have "0 < nat k" using Cons.prems(3) by simp
    then have "e \<in> set (take (nat k) (filter (\<lambda>x. entry_id ix x = ?i) (pre @ e # es)))"
      by (intro in_take_filter_at) (simp_all add: none_before)
    then have eT: "e \<in> T" unfolding T_def by blast
    have inv: "(0::int) + 1 = int (length (filter (\<lambda>x. entry_id ix x = ?i) (pre @ [e])))"
      by (simp add: none_before)
    have st: "set (sparse_loop ix k es (0 + 1) ?i (set_add e acc)) \<subseteq> set (set_add e acc) \<union> T"
      by (rule step) (use inv in simp_all)
    have "sparse_loop ix k (e # es) c cur acc = sparse_loop ix k es (0 + 1) ?i (set_add e acc)"
      using ck diff by simp
    then show ?thesis unfolding goal using st eT by (auto simp: set_set_add)
  qed
qed

lemma sorted_ids_py_sort:
  assumes "\<And>e. fst (key e) = entry_id ix e"
  shows "sorted_wrt (\<ge>) (map (entry_id ix) (py_sort_desc key xs))"
proof -
  have "sorted_wrt (\<ge>) (map key (py_sort_desc key xs))" by (rule sorted_desc_py_sort)
  then have "sorted_wrt (\<lambda>a b. fst (key a) \<ge> fst (key b)) (py_sort_desc key xs)"
    unfolding sorted_wrt_map by (rule sorted_wrt_mono_rel[rotated]) (auto simp: less_eq_prod_def)
  then show ?thesis by (simp add: sorted_wrt_map assms)
qed

lemma helper_exact:
  assumes k1: "1 \<le> k" and ne: "xs \<noteq> []"
      and uni: "\<forall>g \<in> entry_id ix ` set xs. length (filter (\<lambda>e. entry_id ix e = g) xs) = m"
      and key: "\<And>e. fst (key e) = entry_id ix e"
  shows "\<exists>out. sparse_scores_helper (py_sort_desc key xs) (Some k) acc ix = Inr out
           \<and> set out = set acc
                \<union> {x. \<exists>g. x \<in> set (take (nat k) (filter (\<lambda>e. entry_id ix e = g) (py_sort_desc key xs)))}"
proof -
  define ys where "ys = py_sort_desc key xs"
  define T where "T = {x. \<exists>g. x \<in> set (take (nat k) (filter (\<lambda>e. entry_id ix e = g) ys))}"
  have ysne: "ys \<noteq> []" using ne by (simp add: ys_def)
  then obtain first rest where ys: "ys = first # rest" by (cases ys) auto
  define out where "out = sparse_loop ix k ys 0 (entry_id ix first) acc"
  have run: "sparse_scores_helper ys (Some k) acc ix = Inr out"
    by (simp add: sparse_scores_helper_def ys out_def)
  have len: "length (filter (\<lambda>e. entry_id ix e = g) ys) = m" if "g \<in> entry_id ix ` set ys" for g
  proof -
    have "length (filter (\<lambda>e. entry_id ix e = g) ys) = length (filter (\<lambda>e. entry_id ix e = g) xs)"
      by (simp add: ys_def filter_py_sort)
    moreover have "g \<in> entry_id ix ` set xs" using that by (simp add: ys_def)
    ultimately show ?thesis using uni by (metis (no_types, lifting))
  qed
  have srt: "sorted_wrt (\<ge>) (map (entry_id ix) ys)"
    unfolding ys_def by (rule sorted_ids_py_sort) (rule key)
  have sup1: "set acc \<subseteq> set out" unfolding out_def by (rule sparse_loop_mono)
  have sup2: "T \<subseteq> set out"
    using helper_keeps_top_k[OF run[unfolded ys_def] key] unfolding T_def ys_def by blast
  have sub: "set out \<subseteq> set acc \<union> T"
  proof (cases "nat k \<le> m")
    case True
    have big: "\<forall>g \<in> entry_id ix ` set ([] @ ys). nat k \<le> length (filter (\<lambda>e. entry_id ix e = g) ([] @ ys))"
      using len True by simp
    have inv: "([] = [] \<and> (0::int) = 0 \<and> (ys \<noteq> [] \<longrightarrow> entry_id ix first = entry_id ix (hd ys)))
           \<or> ([] \<noteq> [] \<and> entry_id ix first = entry_id ix (last [])
               \<and> (0::int) = int (length (filter (\<lambda>e. entry_id ix e = entry_id ix first) [])))"
      by (simp add: ys)
    have s0: "sorted_wrt (\<ge>) (map (entry_id ix) ([] @ ys))" using srt by simp
    from sparse_loop_exact[OF s0 big k1 inv, of acc]
    show ?thesis unfolding out_def T_def by simp
  next
    case False
    have "set ys \<subseteq> T"
    proof
      fix y assume y: "y \<in> set ys"
      then have "length (filter (\<lambda>e. entry_id ix e = entry_id ix y) ys) = m" by (intro len) simp
      then have "take (nat k) (filter (\<lambda>e. entry_id ix e = entry_id ix y) ys)
                   = filter (\<lambda>e. entry_id ix e = entry_id ix y) ys"
        using False by simp
      then have "y \<in> set (take (nat k) (filter (\<lambda>e. entry_id ix e = entry_id ix y) ys))"
        using y by simp
      then show "y \<in> T" unfolding T_def by blast
    qed
    then show ?thesis using sparse_loop_sub[of ix k ys 0 "entry_id ix first" acc]
      unfolding out_def by blast
  qed
  have "set out = set acc \<union> T" using sup1 sup2 sub by blast
  then show ?thesis using run unfolding T_def ys_def by blast
qed

lemma fst_pass_key: "fst (pass_key ix e) = entry_id ix e"
  by (cases ix) (simp_all add: pass_key_def note_key_def profile_key_def)

lemma run_of_spec_pass:
  "{e \<in> set (spec_pass ix k ys). entry_id ix e = g}
     = set (take (max 1 (nat k)) (filter (\<lambda>e. entry_id ix e = g) ys))"
proof -
  have "x \<in> set ys \<and> entry_id ix x = g'"
    if "x \<in> set (take n (filter (\<lambda>e. entry_id ix e = g') ys))" for x n g'
    using in_set_takeD[OF that] by simp
  then show ?thesis unfolding set_spec_pass by blast
qed


subsection \<open>Claims about \<^verbatim>\<open>sparse_scores\<close>\<close>

text \<open>
  Claim C1, as stated, fails.  With ties broken by the order of the list, the top entry
  of profile \<open>p\<close> in the list below is \<open>(n1, p, 0.5)\<close>, the first of two entries that
  score 0.5.  With \<open>k = 1\<close> \<^verbatim>\<open>sparse_scores\<close> returns three entries and this one is not
  among them: the profile pass scans the list as the sort by note id left it, where
  \<open>(n2, p, 0.5)\<close> comes first.
\<close>

theorem profile_tie_not_in_list_order:
  "preliminary_scores ex_sparse
     = Some [(''n1'', ''p'', 0.5), (''n1'', ''q'', 0.9), (''n2'', ''p'', 0.5), (''n2'', ''q'', 0.9)]
   \<and> sparse_value ex_sparse = Some 1
   \<and> spec_top_k 1 profile_of ''p''
         [(''n1'', ''p'', 0.5), (''n1'', ''q'', 0.9), (''n2'', ''p'', 0.5), (''n2'', ''q'', 0.9 :: real)]
       = [(''n1'', ''p'', 0.5)]
   \<and> sparse_scores ex_sparse =
       Inr ([(''n2'', ''q'', 0.9), (''n2'', ''p'', 0.5), (''n1'', ''q'', 0.9)],
            ex_sparse\<lparr>preliminary_scores :=
              Some [(''n2'', ''q'', 0.9), (''n1'', ''q'', 0.9), (''n2'', ''p'', 0.5), (''n1'', ''p'', 0.5)]\<rparr>)
   \<and> (''n1'', ''p'', 0.5 :: real)
       \<notin> set [(''n2'', ''q'', 0.9), (''n2'', ''p'', 0.5), (''n1'', ''q'', 0.9)]"
  by code_simp

text \<open>
  A pass keeps the head of each run of the list it scans, whatever the scores are, and
  the heads are the top entries only because the sort has ranked the list.  A NaN score
  (\<^verbatim>\<open>all_scores\<close> can emit one in average mode) compares false with every score,
  and a list in which no entry compares below the entry after it counts as sorted in
  descending order and is left as it is.  The list below is such
  a list; the pass over it with \<open>k = 2\<close> keeps the entries scoring 0.1 and NaN and drops
  the one scoring 0.3.  This is why \<^verbatim>\<open>sparse_scores\<close> is modelled for linearly ordered
  scores only.
\<close>

lemma note_pass_with_nan:
  "sparse_scores_helper
     [(''s1'', ''r2'', Num 0.1), (''s1'', ''r1'', NaN), (''s1'', ''r3'', Num 0.3)] (Some 2) [] Idx0
     = Inr [(''s1'', ''r2'', Num 0.1), (''s1'', ''r1'', NaN)]"
  by (simp add: sparse_scores_helper_def set_add_def note_of_def)

text \<open>
  Claim C1, amended.  On a non-empty list of preliminary scores whose scores are
  linearly ordered (floats none of which is NaN) and with a sparse value \<open>k\<close>,
  \<^verbatim>\<open>sparse_scores\<close> returns, and the returned list holds, for every note id, the first
  \<open>k\<close> entries of that note ranked by descending score with ties in the order of
  \<^verbatim>\<open>preliminary_scores\<close> at the call, and, for every profile id, the first \<open>k\<close> entries
  of that profile ranked by descending score with ties in the order in which the sort by
  note id left them (descending note id, then the order of the list).  Whatever the
  order of ties: an entry is returned whenever at most \<open>k\<close> entries of its note (or of
  its profile), itself included, score at least as much as it does.
\<close>

theorem sparse_scores_superset:
  assumes "preliminary_scores self = Some prelim" and "prelim \<noteq> []" and "sparse_value self = Some k"
  shows "\<exists>out self'. sparse_scores self = Inr (out, self')
     \<and> (\<forall>n. set (spec_top_k (nat k) note_of n prelim) \<subseteq> set out)
     \<and> (\<forall>p. set (spec_top_k (nat k) profile_of p (py_sort_desc note_key prelim)) \<subseteq> set out)
     \<and> (\<forall>e\<in>set prelim.
           length (filter (\<lambda>x. note_of x = note_of e \<and> score_of e \<le> score_of x) prelim) \<le> nat k
           \<longrightarrow> e \<in> set out)
     \<and> (\<forall>e\<in>set prelim.
           length (filter (\<lambda>x. profile_of x = profile_of e \<and> score_of e \<le> score_of x) prelim) \<le> nat k
           \<longrightarrow> e \<in> set out)"
proof -
  obtain out self' where run: "sparse_scores self = Inr (out, self')"
    using sparse_scores_returns[OF assms] by blast
  from sparse_scores_keeps_top_k[OF run] assms(1,3)
  have nts: "\<And>n. set (spec_top_k (nat k) note_of n prelim) \<subseteq> set out"
    and profs: "\<And>p. set (spec_top_k (nat k) profile_of p (py_sort_desc note_key prelim)) \<subseteq> set out"
    by auto
  have rn: "e \<in> set out"
    if "e \<in> set prelim"
       "length (filter (\<lambda>x. note_of x = note_of e \<and> score_of e \<le> score_of x) prelim) \<le> nat k" for e
    using rank_in_top_k[of e prelim note_of "note_of e" "nat k"] that nts by blast
  have rp: "e \<in> set out"
    if e: "e \<in> set prelim"
       "length (filter (\<lambda>x. profile_of x = profile_of e \<and> score_of e \<le> score_of x) prelim) \<le> nat k" for e
  proof -
    let ?s1 = "py_sort_desc note_key prelim"
    have "length (filter (\<lambda>x. profile_of x = profile_of e \<and> score_of e \<le> score_of x) ?s1)
            = length (filter (\<lambda>x. profile_of x = profile_of e \<and> score_of e \<le> score_of x) prelim)"
      by (simp add: filter_py_sort)
    then show ?thesis
      using rank_in_top_k[of e ?s1 profile_of "profile_of e" "nat k"] e profs by auto
  qed
  show ?thesis using run nts profs rn rp by blast
qed

theorem sparse_scores_superset_witness:
  "preliminary_scores ex_sparse
     = Some [(''n1'', ''p'', 0.5), (''n1'', ''q'', 0.9), (''n2'', ''p'', 0.5), (''n2'', ''q'', 0.9)]
   \<and> sparse_value ex_sparse = Some 1
   \<and> sparse_scores ex_sparse =
       Inr ([(''n2'', ''q'', 0.9), (''n2'', ''p'', 0.5), (''n1'', ''q'', 0.9)],
            ex_sparse\<lparr>preliminary_scores :=
              Some [(''n2'', ''q'', 0.9), (''n1'', ''q'', 0.9), (''n2'', ''p'', 0.5), (''n1'', ''p'', 0.5)]\<rparr>)
   \<and> spec_top_k (nat 1) note_of ''n1''
         [(''n1'', ''p'', 0.5), (''n1'', ''q'', 0.9), (''n2'', ''p'', 0.5), (''n2'', ''q'', 0.9 :: real)]
       = [(''n1'', ''q'', 0.9)]
   \<and> spec_top_k (nat 1) profile_of ''p''
         (py_sort_desc note_key
            [(''n1'', ''p'', 0.5), (''n1'', ''q'', 0.9), (''n2'', ''p'', 0.5), (''n2'', ''q'', 0.9 :: real)])
       = [(''n2'', ''p'', 0.5)]
   \<and> (\<exists>out self'. sparse_scores ex_sparse = Inr (out, self')
        \<and> (''n1'', ''q'', 0.9) \<in> set out \<and> (''n2'', ''p'', 0.5) \<in> set out)"
proof -
  let ?prelim = "[(''n1'', ''p'', 0.5), (''n1'', ''q'', 0.9), (''n2'', ''p'', 0.5), (''n2'', ''q'', 0.9 :: real)]"
  have p: "preliminary_scores ex_sparse = Some ?prelim" by (simp add: ex_sparse_def)
  have ne: "?prelim \<noteq> []" by simp
  have k: "sparse_value ex_sparse = Some 1" by (simp add: ex_sparse_def)
  have run: "sparse_scores ex_sparse =
       Inr ([(''n2'', ''q'', 0.9), (''n2'', ''p'', 0.5), (''n1'', ''q'', 0.9)],
            ex_sparse\<lparr>preliminary_scores :=
              Some [(''n2'', ''q'', 0.9), (''n1'', ''q'', 0.9), (''n2'', ''p'', 0.5), (''n1'', ''p'', 0.5)]\<rparr>)"
    by code_simp
  have t1: "spec_top_k (nat 1) note_of ''n1'' ?prelim = [(''n1'', ''q'', 0.9)]" by code_simp
  have t2: "spec_top_k (nat 1) profile_of ''p'' (py_sort_desc note_key ?prelim) = [(''n2'', ''p'', 0.5)]"
    by code_simp
  from sparse_scores_superset [OF p ne k] obtain out self' where
    r: "sparse_scores ex_sparse = Inr (out, self')"
    and a: "set (spec_top_k (nat 1) note_of ''n1'' ?prelim) \<subseteq> set out"
    and b: "set (spec_top_k (nat 1) profile_of ''p'' (py_sort_desc note_key ?prelim)) \<subseteq> set out"
    by blast
  have "(''n1'', ''q'', 0.9) \<in> set out \<and> (''n2'', ''p'', 0.5) \<in> set out"
    using a b unfolding t1 t2 by simp
  with r have e: "\<exists>out self'. sparse_scores ex_sparse = Inr (out, self')
        \<and> (''n1'', ''q'', 0.9) \<in> set out \<and> (''n2'', ''p'', 0.5) \<in> set out" by blast
  from p k run t1 t2 e show ?thesis by (intro conjI)
qed


text \<open>
  Claim C2, as stated, fails.  The helper resets its counter only at a boundary that it
  reaches with the counter at \<open>k\<close> or above, and its first branch, which tests the
  counter alone, is the only one that can emit the entries of the first run.  With
  \<open>k = 0\<close> and the scores of two submissions for two reviewers, the note pass emits the
  first entry of the run of \<open>n1\<close> and nothing of the run of \<open>n2\<close>, which comes first;
  the pass of the specification emits the first entry of both runs.  With \<open>k = 3\<close> and a
  run of one entry followed by a run of five, the boundary is crossed with the counter
  at 1 and the pass emits all six entries, five of them from one run; the pass of the
  specification emits four.
\<close>

theorem sparse_pass_differs_from_spec:
  "py_sort_desc note_key ex_dense
     = [(''n2'', ''a'', 0.9), (''n2'', ''b'', 0.5), (''n1'', ''a'', 0.8), (''n1'', ''b'', 0.4)]
   \<and> sparse_scores_helper (py_sort_desc note_key ex_dense) (Some 0) [] Idx0 = Inr [(''n1'', ''a'', 0.8)]
   \<and> spec_pass Idx0 0 (py_sort_desc note_key ex_dense) = [(''n2'', ''a'', 0.9), (''n1'', ''a'', 0.8)]
   \<and> py_sort_desc note_key ex_ragged = ex_ragged
   \<and> sparse_scores_helper (py_sort_desc note_key ex_ragged) (Some 3) [] Idx0 = Inr ex_ragged
   \<and> spec_pass Idx0 3 (py_sort_desc note_key ex_ragged)
       = [(''n2'', ''r1'', 0.7), (''n1'', ''r1'', 0.9), (''n1'', ''r2'', 0.8), (''n1'', ''r3'', 0.7)]"
  by code_simp


text \<open>
  Claim C2, amended.  \<^verbatim>\<open>all_scores\<close> appends one entry per reviewer and line of the
  submissions file, so in the list it leaves every note id has as many entries as there
  are reviewers and every profile id as many as there are lines: all runs of a pass have
  the same length (\<open>all_scores_runs_equal\<close> below).  On a non-empty list with this
  property, sorted by the pass's key, and with \<open>k\<close> at least 1, the helper adds to the
  set it is given exactly the entries that the pass of the specification emits: of every
  run the entries at positions below \<open>k\<close>, the first entry of the run among them.  So a
  run contributes at most \<open>k\<close> entries.
\<close>

theorem sparse_pass_exact:
  assumes "1 \<le> k" and "xs \<noteq> []"
      and "\<forall>g \<in> entry_id ix ` set xs. length (filter (\<lambda>e. entry_id ix e = g) xs) = m"
  shows "\<exists>out. sparse_scores_helper (py_sort_desc (pass_key ix) xs) (Some k) acc ix = Inr out
           \<and> set out = set acc \<union> set (spec_pass ix k (py_sort_desc (pass_key ix) xs))
           \<and> (\<forall>g. {e \<in> set (spec_pass ix k (py_sort_desc (pass_key ix) xs)). entry_id ix e = g}
                    = set (take (nat k) (filter (\<lambda>e. entry_id ix e = g) (py_sort_desc (pass_key ix) xs))))
           \<and> (\<forall>g. card {e \<in> set (spec_pass ix k (py_sort_desc (pass_key ix) xs)). entry_id ix e = g}
                    \<le> nat k)"
proof -
  let ?ys = "py_sort_desc (pass_key ix) xs"
  have mx: "max 1 (nat k) = nat k" "max (Suc 0) (nat k) = nat k" using assms(1) by simp_all
  from helper_exact[OF assms(1,2,3), of "pass_key ix" acc, OF fst_pass_key]
  obtain out where run: "sparse_scores_helper ?ys (Some k) acc ix = Inr out"
    and eq: "set out = set acc \<union> {x. \<exists>g. x \<in> set (take (nat k) (filter (\<lambda>e. entry_id ix e = g) ?ys))}"
    by blast
  have a: "set out = set acc \<union> set (spec_pass ix k ?ys)"
    using eq by (simp add: set_spec_pass mx)
  have b: "{e \<in> set (spec_pass ix k ?ys). entry_id ix e = g}
             = set (take (nat k) (filter (\<lambda>e. entry_id ix e = g) ?ys))" for g
    using run_of_spec_pass[of ix k ?ys g] by (simp only: mx(1))
  have c: "card {e \<in> set (spec_pass ix k ?ys). entry_id ix e = g} \<le> nat k" for g
  proof -
    have "card (set (take (nat k) (filter (\<lambda>e. entry_id ix e = g) ?ys)))
            \<le> length (take (nat k) (filter (\<lambda>e. entry_id ix e = g) ?ys))"
      by (rule card_length)
    also have "\<dots> \<le> nat k" by simp
    finally show ?thesis by (simp only: b)
  qed
  show ?thesis using run a b c by blast
qed

theorem sparse_pass_exact_witness:
  "(1::int) \<le> 1 \<and> ex_dense \<noteq> []
   \<and> entry_id Idx0 ` set ex_dense = {''n1'', ''n2''}
   \<and> length (filter (\<lambda>e. entry_id Idx0 e = ''n1'') ex_dense) = 2
   \<and> length (filter (\<lambda>e. entry_id Idx0 e = ''n2'') ex_dense) = 2
   \<and> py_sort_desc (pass_key Idx0) ex_dense
       = [(''n2'', ''a'', 0.9), (''n2'', ''b'', 0.5), (''n1'', ''a'', 0.8), (''n1'', ''b'', 0.4)]
   \<and> sparse_scores_helper (py_sort_desc (pass_key Idx0) ex_dense) (Some 1) [] Idx0
       = Inr [(''n2'', ''a'', 0.9), (''n1'', ''a'', 0.8)]
   \<and> spec_pass Idx0 1 (py_sort_desc (pass_key Idx0) ex_dense)
       = [(''n2'', ''a'', 0.9), (''n1'', ''a'', 0.8)]
   \<and> (\<exists>out. sparse_scores_helper (py_sort_desc (pass_key Idx0) ex_dense) (Some 1) [] Idx0 = Inr out
          \<and> set out = set (spec_pass Idx0 1 (py_sort_desc (pass_key Idx0) ex_dense)))"
proof -
  have a: "(1::int) \<le> 1" by simp
  have b: "ex_dense \<noteq> []" by (simp add: ex_dense_def)
  have c: "entry_id Idx0 ` set ex_dense = {''n1'', ''n2''}"
    by (auto simp: ex_dense_def note_of_def)
  have d1: "length (filter (\<lambda>e. entry_id Idx0 e = ''n1'') ex_dense) = 2"
    by (simp add: ex_dense_def note_of_def)
  have d2: "length (filter (\<lambda>e. entry_id Idx0 e = ''n2'') ex_dense) = 2"
    by (simp add: ex_dense_def note_of_def)
  have u: "\<forall>g \<in> entry_id Idx0 ` set ex_dense.
             length (filter (\<lambda>e. entry_id Idx0 e = g) ex_dense) = 2"
    unfolding c using d1 d2 by simp
  have s: "py_sort_desc (pass_key Idx0) ex_dense
       = [(''n2'', ''a'', 0.9), (''n2'', ''b'', 0.5), (''n1'', ''a'', 0.8), (''n1'', ''b'', 0.4)]"
    by code_simp
  have h: "sparse_scores_helper (py_sort_desc (pass_key Idx0) ex_dense) (Some 1) [] Idx0
       = Inr [(''n2'', ''a'', 0.9), (''n1'', ''a'', 0.8)]"
    by code_simp
  have sp: "spec_pass Idx0 1 (py_sort_desc (pass_key Idx0) ex_dense)
       = [(''n2'', ''a'', 0.9), (''n1'', ''a'', 0.8)]"
    by code_simp
  from sparse_pass_exact [OF a b u, of "[]"]
  have e: "\<exists>out. sparse_scores_helper (py_sort_desc (pass_key Idx0) ex_dense) (Some 1) [] Idx0 = Inr out
          \<and> set out = set (spec_pass Idx0 1 (py_sort_desc (pass_key Idx0) ex_dense))"
    by auto
  from a b c d1 d2 s h sp e show ?thesis by (intro conjI)
qed

text \<open>
  Claim C8.  With \<^verbatim>\<open>preliminary_scores\<close> unset, \<^verbatim>\<open>sparse_scores\<close> raises the
  \<^verbatim>\<open>RuntimeError\<close> asking for \<^verbatim>\<open>all_scores\<close> to be called first and returns no
  result; a freshly constructed predictor is in that state.
\<close>

theorem sparse_scores_not_ready:
  "(preliminary_scores self = None \<longrightarrow>
      sparse_scores self = Inl (RuntimeError ''Call all_scores before calling sparse_scores''))
   \<and> (init_predictor avg mx k = Inr self \<longrightarrow>
      sparse_scores self = Inl (RuntimeError ''Call all_scores before calling sparse_scores''))"
  by (auto simp: sparse_scores_def init_predictor_def split: if_splits)

theorem sparse_scores_not_ready_witness:
  "preliminary_scores ex_unset = None
   \<and> init_predictor False True (Some 3) = Inr ex_unset
   \<and> sparse_scores ex_unset = Inl (RuntimeError ''Call all_scores before calling sparse_scores'')"
proof -
  have a: "preliminary_scores ex_unset = None" by (simp add: ex_unset_def)
  have b: "init_predictor False True (Some 3) = Inr ex_unset"
    by (simp add: ex_unset_def init_predictor_def)
  show ?thesis
    using a b sparse_scores_not_ready [of ex_unset False True "Some 3"] by simp
qed

text \<open>
  Claim C10.  On an empty list of preliminary scores \<^verbatim>\<open>sparse_scores\<close> raises
  \<^verbatim>\<open>IndexError\<close> (from reading element 0 in the helper), and whenever it returns a
  result the list of preliminary scores was not empty.  The empty list is a state that
  \<^verbatim>\<open>all_scores\<close> leaves behind: it does so whenever both files load and the
  predictor knows no reviewer.
\<close>

theorem sparse_scores_needs_entry:
  "(preliminary_scores self = Some [] \<longrightarrow> sparse_scores self = Inl IndexError)
   \<and> (sparse_scores self = Inr res \<longrightarrow>
        (\<exists>prelim. preliminary_scores self = Some prelim \<and> prelim \<noteq> []))
   \<and> (pub_author_ids_to_note_id scorer = []
        \<and> (\<exists>loaded. load_emb_file publications = Inr loaded)
        \<and> (\<exists>loaded. load_emb_file submissions = Inr loaded) \<longrightarrow>
        all_scores scorer publications submissions
          = (Inr [], scorer\<lparr>preliminary_scores := Some []\<rparr>))"
proof (intro conjI impI)
  assume "preliminary_scores self = Some []"
  then show "sparse_scores self = Inl IndexError"
    by (simp add: sparse_scores_def py_sort_desc_def sparse_scores_helper_def)
next
  assume r: "sparse_scores self = Inr res"
  then obtain prelim where p: "preliminary_scores self = Some prelim"
    by (cases "preliminary_scores self") (auto simp: sparse_scores_def)
  have "prelim \<noteq> []"
  proof
    assume "prelim = []"
    then have "sparse_scores self = Inl IndexError"
      using p by (simp add: sparse_scores_def py_sort_desc_def sparse_scores_helper_def)
    then show False using r by simp
  qed
  then show "\<exists>prelim. preliminary_scores self = Some prelim \<and> prelim \<noteq> []"
    using p by blast
next
  assume "pub_author_ids_to_note_id scorer = []
        \<and> (\<exists>loaded. load_emb_file publications = Inr loaded)
        \<and> (\<exists>loaded. load_emb_file submissions = Inr loaded)"
  then show "all_scores scorer publications submissions
          = (Inr [], scorer\<lparr>preliminary_scores := Some []\<rparr>)"
    by (auto simp: all_scores_def)
qed

theorem sparse_scores_needs_entry_witness:
  "preliminary_scores ex_empty = Some [] \<and> sparse_scores ex_empty = Inl IndexError
   \<and> sparse_scores ex_sparse =
       Inr ([(''n2'', ''q'', 0.9), (''n2'', ''p'', 0.5), (''n1'', ''q'', 0.9)],
            ex_sparse\<lparr>preliminary_scores :=
              Some [(''n2'', ''q'', 0.9), (''n1'', ''q'', 0.9), (''n2'', ''p'', 0.5), (''n1'', ''p'', 0.5)]\<rparr>)
   \<and> (\<exists>prelim. preliminary_scores ex_sparse = Some prelim \<and> prelim \<noteq> [])
   \<and> pub_author_ids_to_note_id ex_fresh = []
   \<and> load_emb_file ex_pubs = Inr ([replicate 768 0, replicate 768 0], [''a1'', ''a2''], {})
   \<and> load_emb_file ex_subs = Inr ([replicate 768 0], [''s1''], {})
   \<and> all_scores ex_fresh ex_pubs ex_subs = (Inr [], ex_fresh\<lparr>preliminary_scores := Some []\<rparr>)"
proof -
  have a: "preliminary_scores ex_empty = Some []" by (simp add: ex_empty_def)
  have run: "sparse_scores ex_sparse =
       Inr ([(''n2'', ''q'', 0.9), (''n2'', ''p'', 0.5), (''n1'', ''q'', 0.9)],
            ex_sparse\<lparr>preliminary_scores :=
              Some [(''n2'', ''q'', 0.9), (''n1'', ''q'', 0.9), (''n2'', ''p'', 0.5), (''n1'', ''p'', 0.5)]\<rparr>)"
    by code_simp
  have f: "pub_author_ids_to_note_id ex_fresh = []" by (simp add: ex_fresh_def)
  have lp: "load_emb_file ex_pubs = Inr ([replicate 768 0, replicate 768 0], [''a1'', ''a2''], {})"
    by (simp add: ex_pubs_def load_emb_file_def paper_emb_size_default_def normalize_rows_def)
  have ls: "load_emb_file ex_subs = Inr ([replicate 768 0], [''s1''], {})"
    by (simp add: ex_subs_def load_emb_file_def paper_emb_size_default_def normalize_rows_def)
  have e: "sparse_scores ex_empty = Inl IndexError"
    using a sparse_scores_needs_entry [of ex_empty "([], ex_empty)"] by simp
  have n: "\<exists>prelim. preliminary_scores ex_sparse = Some prelim \<and> prelim \<noteq> []"
    using run
      sparse_scores_needs_entry
        [of ex_sparse
          "([(''n2'', ''q'', 0.9), (''n2'', ''p'', 0.5), (''n1'', ''q'', 0.9)],
            ex_sparse\<lparr>preliminary_scores :=
              Some [(''n2'', ''q'', 0.9), (''n1'', ''q'', 0.9), (''n2'', ''p'', 0.5), (''n1'', ''p'', 0.5)]\<rparr>)"]
    by blast
  have s: "all_scores ex_fresh ex_pubs ex_subs = (Inr [], ex_fresh\<lparr>preliminary_scores := Some []\<rparr>)"
    using f lp ls
      sparse_scores_needs_entry
        [of ex_empty "([], ex_empty)" ex_fresh ex_pubs ex_subs]
    by blast
  from a e run n f lp ls s show ?thesis by (intro conjI)
qed

section \<open>Properties of scoring\<close>

lemma load_emb_loop_result:
  "load_emb_loop emb_file (id_list, emb_list, bad) = Inr (id_list', emb_list', bad') \<Longrightarrow>
     id_list' = id_list @ map fst emb_file
     \<and> length emb_list' = length emb_list + length emb_file
     \<and> bad' = bad \<union> {paper_id. (paper_id, []) \<in> set emb_file}"
proof (induction emb_file arbitrary: id_list emb_list bad)
  case Nil then show ?case by simp
next
  case (Cons line rest)
  obtain paper_id embedding where l: "line = (paper_id, embedding)" by (cases line)
  show ?case
  proof (cases "embedding = []")
    case True
    with Cons.prems l have
      "load_emb_loop rest (id_list @ [paper_id], emb_list @ [replicate paper_emb_size_default 0],
          insert paper_id bad) = Inr (id_list', emb_list', bad')"
      by simp
    from Cons.IH[OF this] show ?thesis using l True by auto
  next
    case False
    with Cons.prems l have
      "load_emb_loop rest (id_list @ [paper_id], emb_list @ [embedding], bad)
         = Inr (id_list', emb_list', bad')"
      by (simp add: Let_def split: if_splits)
    from Cons.IH[OF this] show ?thesis using l False by auto
  qed
qed

lemma load_emb_file_result:
  assumes "load_emb_file emb_file = Inr (emb_tensor, id_list, bad_id_set)"
  shows "id_list = map fst emb_file" "length emb_tensor = length emb_file"
        "bad_id_set = {paper_id. (paper_id, []) \<in> set emb_file}"
proof -
  obtain emb_list where
    "load_emb_loop emb_file ([], [], {}) = Inr (id_list, emb_list, bad_id_set)"
    "emb_tensor = normalize_rows emb_list"
    using assms by (auto simp: load_emb_file_def split: sum.splits if_splits)
  then show "id_list = map fst emb_file" "length emb_tensor = length emb_file"
        "bad_id_set = {paper_id. (paper_id, []) \<in> set emb_file}"
    using load_emb_loop_result[of emb_file "[]" "[]" "{}" id_list emb_list bad_id_set]
    by (simp_all add: normalize_rows_def)
qed

lemma build_idx_lookup:
  "map_of (build_idx n ids m) p = Some i \<Longrightarrow>
     (n \<le> i \<and> i < n + length ids \<and> ids ! (i - n) = p) \<or> map_of m p = Some i"
proof (induction ids arbitrary: n m)
  case Nil then show ?case by simp
next
  case (Cons q ids)
  from Cons.prems have "map_of (build_idx (n + 1) ids (AList.update q n m)) p = Some i" by simp
  from Cons.IH[OF this] show ?case
    by (auto simp: update_conv' nth_Cons' split: if_splits)
qed

lemma train_paper_idx_of_sound:
  "train_paper_idx_of idxmap bad L = Inr idx \<Longrightarrow>
     \<forall>i\<in>set idx. \<exists>p\<in>set L. p \<notin> bad \<and> map_of idxmap p = Some i"
proof (induction L arbitrary: idx)
  case Nil then show ?case by simp
next
  case (Cons p L)
  then show ?case by (auto split: if_splits option.splits sum.splits)
qed

lemma selected_columns_usable:
  assumes "train_paper_idx_of (build_idx 0 id_list []) bad L = Inr idx" and "i \<in> set idx"
  shows "i < length id_list \<and> id_list ! i \<notin> bad \<and> id_list ! i \<in> set L"
proof -
  obtain p where p: "p \<in> set L" "p \<notin> bad" "map_of (build_idx 0 id_list []) p = Some i"
    using train_paper_idx_of_sound[OF assms(1)] assms(2) by blast
  from build_idx_lookup[OF p(3)] have "i < length id_list \<and> id_list ! i = p" by simp
  then show ?thesis using p by simp
qed

lemma reviewer_loop_acc:
  "reviewer_loop avg mx p2p idxmap bad tids revs acc = (err, out) \<Longrightarrow> set acc \<subseteq> set out"
proof (induction revs arbitrary: acc)
  case Nil then show ?case by simp
next
  case (Cons rv revs)
  obtain r L where rv: "rv = (r, L)" by (cases rv)
  show ?case using Cons.prems Cons.IH unfolding rv
    by (auto split: if_splits sum.splits dest!: Cons.IH)
qed


lemma reviewer_loop_entry:
  assumes "reviewer_loop avg mx p2p idxmap bad tids revs acc = (None, out)"
      and "avg \<noteq> mx"
      and "(r, L) \<in> set revs"
      and "train_paper_idx_of idxmap bad L = Inr idx" and "idx \<noteq> []"
      and "j < length tids"
  shows "(tids ! j, r, Num (spec_reduce avg (map (p2p j) idx))) \<in> set out"
  using assms(1,3)
proof (induction revs arbitrary: acc)
  case Nil then show ?case by simp
next
  case (Cons rv revs)
  obtain r' L' where rv: "rv = (r', L')" by (cases rv)
  show ?case
  proof (cases "rv = (r, L)")
    case True
    have Lne: "L \<noteq> []" using assms(4,5) by auto
    let ?aff = "\<lambda>j. Num (spec_reduce avg (map (p2p j) idx))"
    have red: "reduce_scores avg mx p2p idx = Inr ?aff"
      using assms(2,5) by (auto simp: reduce_scores_def spec_reduce_def)
    let ?acc' = "acc @ map (\<lambda>j. (tids ! j, r, ?aff j)) [0..<length tids]"
    have "reviewer_loop avg mx p2p idxmap bad tids revs ?acc' = (None, out)"
      using Cons.prems(1) True Lne assms(4) red by simp
    from reviewer_loop_acc[OF this] have "set ?acc' \<subseteq> set out" .
    moreover have "(tids ! j, r, ?aff j) \<in> set ?acc'" using assms(6) by auto
    ultimately show ?thesis by blast
  next
    case False
    then have mem: "(r, L) \<in> set revs" using Cons.prems(2) by simp
    show ?thesis
    proof (cases "length L' = 0")
      case True
      then show ?thesis using Cons.prems(1) Cons.IH[OF _ mem] rv by simp
    next
      case False
      then obtain idx' aff' where
        "reviewer_loop avg mx p2p idxmap bad tids revs
            (acc @ map (\<lambda>j. (tids ! j, r', aff' j)) [0..<length tids]) = (None, out)"
        using Cons.prems(1) rv by (auto split: sum.splits)
      from Cons.IH[OF this mem] show ?thesis .
    qed
  qed
qed

lemma l2_norm_zero: "l2_norm (replicate n 0) = 0"
  by (simp add: l2_norm_def sum_list_replicate)

lemma dot_zero_left: "dot (replicate n 0) (replicate n c) = 0"
  by (simp add: dot_def sum_list_replicate)

lemma all_scores_entry:
  assumes "all_scores self pubs subs = (Inr out, self')"
      and "average_score self \<noteq> max_score self"
      and "load_emb_file pubs = Inr (etr, ids_tr, bad_tr)"
      and "load_emb_file subs = Inr (ete, ids_te, bad_te)"
      and "(r, L) \<in> set (pub_author_ids_to_note_id self)"
      and "train_paper_idx_of (build_idx 0 ids_tr []) bad_tr L = Inr idx" and "idx \<noteq> []"
      and "j < length ids_te"
  shows "(ids_te ! j, r, Num (spec_reduce (average_score self) (map (compute_p2p_aff ete etr j) idx)))
           \<in> set out"
proof -
  have "reviewer_loop (average_score self) (max_score self) (compute_p2p_aff ete etr)
          (build_idx 0 ids_tr []) bad_tr ids_te (pub_author_ids_to_note_id self) [] = (None, out)"
    using assms(1,3,4) by (auto simp: all_scores_def split: prod.splits option.splits)
  from reviewer_loop_entry[OF this assms(2,5,6,7,8)] show ?thesis .
qed

subsection \<open>The shape of the list \<^verbatim>\<open>all_scores\<close> leaves\<close>

text \<open>
  When \<^verbatim>\<open>all_scores\<close> returns, the list it leaves is one block per reviewer with a
  non-empty publication list, each block holding one entry per line of the submissions
  file.  The reviewers are the keys of a dictionary and the submissions file is written
  from a dictionary keyed by submission id, so neither repeats an id; then every note id
  of the list has as many entries as there are blocks, and every profile id as many as
  the file has lines.
\<close>

lemma reviewer_loop_blocks:
  assumes "reviewer_loop avg mx p2p idxmap bad tids revs acc = (None, out)"
  shows "\<exists>affs. length affs = length (filter (\<lambda>rv. snd rv \<noteq> []) revs)
           \<and> out = acc @ concat (map (\<lambda>(rv, aff). map (\<lambda>j. (tids ! j, fst rv, aff j)) [0..<length tids])
                                      (zip (filter (\<lambda>rv. snd rv \<noteq> []) revs) affs))"
  using assms
proof (induction revs arbitrary: acc)
  case Nil then show ?case by simp
next
  case (Cons rv revs)
  obtain r L where rv: "rv = (r, L)" by (cases rv)
  show ?case
  proof (cases "L = []")
    case True
    then have "reviewer_loop avg mx p2p idxmap bad tids revs acc = (None, out)"
      using Cons.prems rv by simp
    from Cons.IH[OF this] show ?thesis using True rv by simp
  next
    case False
    then obtain aff where
      r: "reviewer_loop avg mx p2p idxmap bad tids revs
            (acc @ map (\<lambda>j. (tids ! j, r, aff j)) [0..<length tids]) = (None, out)"
      using Cons.prems rv by (auto split: sum.splits)
    from Cons.IH[OF r] obtain affs where
      l: "length affs = length (filter (\<lambda>rv. snd rv \<noteq> []) revs)"
      and o: "out = (acc @ map (\<lambda>j. (tids ! j, r, aff j)) [0..<length tids])
                 @ concat (map (\<lambda>(rv, aff). map (\<lambda>j. (tids ! j, fst rv, aff j)) [0..<length tids])
                                      (zip (filter (\<lambda>rv. snd rv \<noteq> []) revs) affs))"
      by blast
    show ?thesis
      by (rule exI[of _ "aff # affs"]) (use l o False rv in simp)
  qed
qed

lemma count_in_block:
  "length (filter (\<lambda>e. note_of e = g) (map (\<lambda>j. (tids ! j, r, aff j)) [0..<length tids]))
     = length (filter (\<lambda>t. t = g) tids)"
proof -
  have "filter (\<lambda>e. note_of e = g) (map (\<lambda>j. (tids ! j, r, aff j)) [0..<length tids])
          = map (\<lambda>j. (tids ! j, r, aff j)) (filter (\<lambda>j. tids ! j = g) [0..<length tids])"
    by (simp add: filter_map comp_def note_of_def)
  moreover have "length (filter (\<lambda>j. tids ! j = g) [0..<length tids])
          = length (filter (\<lambda>t. t = g) (map (\<lambda>j. tids ! j) [0..<length tids]))"
    by (simp add: filter_map comp_def)
  ultimately show ?thesis by (simp add: map_nth)
qed

lemma count_note_blocks:
  "length (filter (\<lambda>e. note_of e = g)
      (concat (map (\<lambda>(rv, aff). map (\<lambda>j. (tids ! j, fst rv, aff j)) [0..<length tids]) ps)))
     = length ps * length (filter (\<lambda>t. t = g) tids)"
proof (induction ps)
  case Nil show ?case by simp
next
  case (Cons p ps)
  obtain rv aff where p: "p = (rv, aff)" by (cases p)
  show ?case using Cons count_in_block[of g tids "fst rv" aff] by (simp add: p)
qed

lemma count_profile_blocks:
  "length (filter (\<lambda>e. profile_of e = g)
      (concat (map (\<lambda>(rv, aff). map (\<lambda>j. (tids ! j, fst rv, aff j)) [0..<length tids]) ps)))
     = length (filter (\<lambda>p. fst (fst p) = g) ps) * length tids"
proof (induction ps)
  case Nil show ?case by simp
next
  case (Cons p ps)
  obtain rv aff where p: "p = (rv, aff)" by (cases p)
  have "filter (\<lambda>e. profile_of e = g) (map (\<lambda>j. (tids ! j, fst rv, aff j)) [0..<length tids])
          = (if fst rv = g then map (\<lambda>j. (tids ! j, fst rv, aff j)) [0..<length tids] else [])"
    by (simp add: filter_map comp_def profile_of_def)
  then show ?case using Cons by (simp add: p)
qed

lemma distinct_count_one:
  "distinct xs \<Longrightarrow> x \<in> set xs \<Longrightarrow> length (filter (\<lambda>t. t = x) xs) = 1"
  by (induction xs) (auto simp: filter_empty_conv)

lemma all_scores_runs_equal:
  assumes "all_scores self publications submissions = (Inr out, self')"
      and "distinct (map fst submissions)"
      and "distinct (map fst (pub_author_ids_to_note_id self))"
  shows "\<exists>m. \<forall>g \<in> note_of ` set out. length (filter (\<lambda>e. note_of e = g) out) = m"
    and "\<exists>m. \<forall>g \<in> profile_of ` set out. length (filter (\<lambda>e. profile_of e = g) out) = m"
proof -
  from assms(1) obtain ete etr tids bad_te ids_tr bad_tr where
    lt: "load_emb_file submissions = Inr (ete, tids, bad_te)"
    and lp: "load_emb_file publications = Inr (etr, ids_tr, bad_tr)"
    and loop: "reviewer_loop (average_score self) (max_score self) (compute_p2p_aff ete etr)
          (build_idx 0 ids_tr []) bad_tr tids (pub_author_ids_to_note_id self) [] = (None, out)"
    by (auto simp: all_scores_def split: sum.splits prod.splits option.splits)
  have tids: "tids = map fst submissions" using load_emb_file_result(1)[OF lt] .
  let ?revs = "filter (\<lambda>rv. snd rv \<noteq> []) (pub_author_ids_to_note_id self)"
  from reviewer_loop_blocks[OF loop] obtain affs where
    l: "length affs = length ?revs"
    and o: "out = concat (map (\<lambda>(rv, aff). map (\<lambda>j. (tids ! j, fst rv, aff j)) [0..<length tids])
                              (zip ?revs affs))"
    by auto
  let ?ps = "zip ?revs affs"
  have nt: "length (filter (\<lambda>e. note_of e = g) out) = length ?ps" if "g \<in> note_of ` set out" for g
  proof -
    have "g \<in> set tids" using that unfolding o by (auto simp: note_of_def)
    then have "length (filter (\<lambda>t. t = g) tids) = 1"
      using assms(2) tids by (intro distinct_count_one) simp_all
    then show ?thesis unfolding o using count_note_blocks[of g tids ?ps] by simp
  qed
  then show "\<exists>m. \<forall>g \<in> note_of ` set out. length (filter (\<lambda>e. note_of e = g) out) = m" by blast
  have d: "distinct (map fst ?revs)" using assms(3) by (simp add: distinct_map_filter)
  have pr: "length (filter (\<lambda>e. profile_of e = g) out) = length tids" if "g \<in> profile_of ` set out" for g
  proof -
    have "g \<in> fst ` set ?revs"
    proof -
      from that obtain e where e: "e \<in> set out" "profile_of e = g" by blast
      from e(1) obtain rv aff j where "(rv, aff) \<in> set ?ps" "e = (tids ! j, fst rv, aff j)"
        unfolding o by auto
      then have "rv \<in> set ?revs" "g = fst rv"
        using e(2) by (auto simp: profile_of_def dest: set_zip_leftD)
      then show ?thesis by blast
    qed
    then have "length (filter (\<lambda>t. t = g) (map fst ?revs)) = 1"
      using d by (intro distinct_count_one) simp_all
    moreover have "length (filter (\<lambda>p. fst (fst p) = g) ?ps)
                     = length (filter (\<lambda>t. t = g) (map fst ?revs))"
    proof -
      have m: "map fst ?ps = ?revs" using l by simp
      have "length (filter (\<lambda>p. fst (fst p) = g) ?ps)
              = length (filter (\<lambda>t. t = g) (map fst (map fst ?ps)))"
        by (simp add: filter_map comp_def)
      then show ?thesis by (simp only: m)
    qed
    ultimately show ?thesis unfolding o using count_profile_blocks[of g tids ?ps] by simp
  qed
  then show "\<exists>m. \<forall>g \<in> profile_of ` set out. length (filter (\<lambda>e. profile_of e = g) out) = m" by blast
qed

subsection \<open>Claims about \<^verbatim>\<open>all_scores\<close>\<close>

text \<open>
  Claim C3.  The claim says that a reviewer all of whose publications are bad ids yields
  no score entry.  The loop skips a reviewer only when the reviewer's list of publication
  ids is itself empty; when every id of a non-empty list is a bad id, the column selection
  is empty and the reduction runs over no columns.  For reviewer \<open>r1\<close> whose only
  publication \<open>p1\<close> has an empty embedding (the file also holds a publication \<open>p2\<close> of
  nobody) and one submission \<open>s1\<close>: in average mode the entry \<open>(s1, r1, NaN)\<close> is
  emitted, and in max mode \<^verbatim>\<open>all_scores\<close> fails.
\<close>

theorem all_scores_all_bad_reviewer:
  "all_scores (ex_reviewer True) [(''p1'', []), (''p2'', replicate 768 0)]
       [(''s1'', replicate 768 1)]
     = (Inr [(''s1'', ''r1'', NaN)],
        (ex_reviewer True)\<lparr>preliminary_scores := Some [(''s1'', ''r1'', NaN)]\<rparr>)
   \<and> all_scores (ex_reviewer False) [(''p1'', []), (''p2'', replicate 768 0)]
       [(''s1'', replicate 768 1)]
     = (Inl EmptyReductionError, (ex_reviewer False)\<lparr>preliminary_scores := Some []\<rparr>)"
  by (simp add: all_scores_def load_emb_file_def ex_reviewer_def reduce_scores_def
        paper_emb_size_default_def)

text \<open>
  Claim C4.  The claim says that no score entry is produced for a document whose
  embedding could not be computed.  \<^verbatim>\<open>load_emb_file\<close> records such a document in the
  bad-id set and gives it a row of zeros, and the reviewer loop leaves the bad-id
  publications out when it selects a reviewer's columns.  For submissions nothing of the
  kind is done: \<^verbatim>\<open>test_bad_id_set\<close> is bound and never read, and the loop over
  \<^verbatim>\<open>range(paper_num_test)\<close> appends an entry for every line of the submissions file.
  For the submission \<open>s1\<close> with an empty embedding (next to a submission \<open>s2\<close>), a
  publication \<open>p1\<close> and its author \<open>r1\<close>, \<open>s1\<close> is in the bad-id set of the
  submissions and the entry \<open>(s1, r1, 0)\<close> is emitted.
\<close>

theorem bad_submission_scored:
  "load_emb_file [(''s1'', []), (''s2'', replicate 768 0)]
     = Inr ([replicate 768 0, replicate 768 0], [''s1'', ''s2''], {''s1''})
   \<and> all_scores (ex_reviewer True) [(''p1'', replicate 768 1)]
       [(''s1'', []), (''s2'', replicate 768 0)]
     = (Inr [(''s1'', ''r1'', Num 0), (''s2'', ''r1'', Num 0)],
        (ex_reviewer True)\<lparr>preliminary_scores :=
           Some [(''s1'', ''r1'', Num 0), (''s2'', ''r1'', Num 0)]\<rparr>)"
  by (simp add: all_scores_def load_emb_file_def ex_reviewer_def reduce_scores_def
        paper_emb_size_default_def normalize_rows_def compute_p2p_aff_def dot_def
        sum_list_replicate l2_norm_zero)

text \<open>
  What loading does with the bad ids, and what the selection of a reviewer's columns
  does with those of the publications: every line of a file, bad or not, keeps its
  place in the id list and its row in the tensor; a selected column belongs to a
  publication of the reviewer that is outside the bad-id set.
\<close>

lemma bad_ids_recorded_and_unselected:
  assumes "load_emb_file emb_file = Inr (emb_tensor, id_list, bad_id_set)"
  shows "id_list = map fst emb_file \<and> length emb_tensor = length emb_file
         \<and> bad_id_set = {paper_id. (paper_id, []) \<in> set emb_file}
         \<and> (\<forall>L idx. train_paper_idx_of (build_idx 0 id_list []) bad_id_set L = Inr idx \<longrightarrow>
               (\<forall>i\<in>set idx. i < length id_list \<and> id_list ! i \<notin> bad_id_set \<and> id_list ! i \<in> set L))"
  using load_emb_file_result[OF assms] selected_columns_usable by blast

text \<open>
  The constructor accepts exactly the arguments in which one of the two flags is set and
  the other is not, and stores them.
\<close>

lemma init_predictor_modes:
  "((\<exists>self :: fscore predictor. init_predictor avg mx k = Inr self) = (mx \<noteq> avg))
   \<and> (init_predictor avg mx k = Inr (p :: fscore predictor) \<longrightarrow>
        average_score p = avg \<and> max_score p = mx \<and> average_score p \<noteq> max_score p)"
  by (auto simp: init_predictor_def split: if_splits)

section \<open>Properties of the expertise service\<close>

subsection \<open>Writes of the submission path\<close>

lemma and_then_Inr:
  "and_then step rest = Inr y \<Longrightarrow> \<exists>x. step = Inr x \<and> rest x = Inr y"
  by (cases step) (auto simp: and_then_def)

lemma set_nested_other:
  "set_nested config outer inner v = Inr config' \<Longrightarrow> key \<noteq> outer \<Longrightarrow>
     map_of config' key = map_of config key"
  by (auto simp: set_nested_def update_conv' split: option.splits json.splits)

lemma set_nested_all_other:
  "set_nested_all config outer fs v = Inr config' \<Longrightarrow> key \<noteq> outer \<Longrightarrow>
     map_of config' key = map_of config key"
proof (induction fs arbitrary: config)
  case Nil then show ?case by simp
next
  case (Cons f fs)
  from Cons.prems(1) obtain c1 where a: "set_nested config outer f v = Inr c1"
    and b: "set_nested_all c1 outer fs v = Inr config'"
    by (auto split: sum.splits)
  show ?case using Cons.IH[OF b Cons.prems(2)] set_nested_other[OF a Cons.prems(2)] by simp
qed

lemma set_model_paths_other:
  assumes "set_model_paths srv config = Inr config'" and "key \<noteq> ''model_params''"
  shows "map_of config' key = map_of config key"
proof -
  let ?m = "(case map_of config ''model'' of None \<Rightarrow> JStr ''specter+mfr'' | Some m \<Rightarrow> m)"
  from assms(1) obtain hs c1 hm where
    s1: "(if hs then set_nested config ''model_params'' ''specter_dir'' (JStr (specter_dir srv))
          else Inr config) = Inr c1"
    and s2: "(if hm then
             and_then (set_nested c1 ''model_params'' ''mfr_feature_vocab_file''
                         (JStr (mfr_feature_vocab_file srv))) (\<lambda>config2.
               set_nested config2 ''model_params'' ''mfr_checkpoint_dir''
                 (JStr (mfr_checkpoint_dir srv)))
           else Inr c1) = Inr config'"
    unfolding set_model_paths_def Let_def by (auto dest!: and_then_Inr)
  have a: "map_of c1 key = map_of config key"
    using s1 set_nested_other[OF _ assms(2)] by (auto split: if_splits)
  have b: "map_of config' key = map_of c1 key"
    using s2 set_nested_other[OF _ assms(2)] by (auto split: if_splits dest!: and_then_Inr)
  show ?thesis using a b by simp
qed

lemma populate_config_result:
  assumes "populate_config srv root_dir now config = Inr (config', token)"
  shows "''token'' \<notin> fst ` set config'"
    and "map_of config' ''job_dir'' = Some (JStr root_dir)"
    and "map_of config' ''status'' = Some (JStr ''Initialized'')"
    and "map_of config ''token'' = Some token"
    and "key \<notin> {''dataset'', ''model_params'', ''job_dir'', ''cdate'', ''mdate'', ''status'',
                 ''description'', ''token''} \<Longrightarrow> map_of config' key = map_of config key"
proof -
  from assms obtain c1 c2 c8 where
    c1: "set_nested config ''dataset'' ''directory'' (JStr root_dir) = Inr c1"
    and c2: "set_nested_all c1 ''model_params'' path_fields (JStr root_dir) = Inr c2"
    and c8: "set_model_paths srv
           (AList.update ''description'' (JStr ''Server received config and allocated space'')
             (AList.update ''status'' (JStr (status_value INITIALIZED))
               (AList.update ''mdate'' (JNum now)
                 (AList.update ''cdate'' (JNum now)
                   (AList.update ''job_dir'' (JStr root_dir) c2))))) = Inr c8"
    and fin: "(case map_of c8 ''token'' of None \<Rightarrow> Inl (KeyError ''token'')
               | Some token \<Rightarrow> Inr (AList.delete ''token'' c8, token)) = Inr (config', token)"
    unfolding populate_config_def Let_def by (auto dest!: and_then_Inr)
  from fin have cfg: "config' = AList.delete ''token'' c8" and tok8: "map_of c8 ''token'' = Some token"
    by (auto split: option.splits)
  have pre: "map_of c2 k = map_of config k" if "k \<noteq> ''dataset''" "k \<noteq> ''model_params''" for k
    using set_nested_other[OF c1 that(1)] set_nested_all_other[OF c2 that(2)] by simp
  show "''token'' \<notin> fst ` set config'" unfolding cfg by (rule delete_notin_dom)
  have "map_of c8 ''job_dir'' = Some (JStr root_dir)"
    using set_model_paths_other[OF c8, of "''job_dir''"] by (simp add: update_conv')
  then show "map_of config' ''job_dir'' = Some (JStr root_dir)"
    unfolding cfg by (simp add: delete_conv')
  have "map_of c8 ''status'' = Some (JStr ''Initialized'')"
    using set_model_paths_other[OF c8, of "''status''"] by (simp add: update_conv')
  then show "map_of config' ''status'' = Some (JStr ''Initialized'')"
    unfolding cfg by (simp add: delete_conv')
  have "map_of c8 ''token'' = map_of c2 ''token''"
    using set_model_paths_other[OF c8, of "''token''"] by (simp add: update_conv')
  then show "map_of config ''token'' = Some token"
    using tok8 pre[of "''token''"] by simp
  show "map_of config' key = map_of config key"
    if k: "key \<notin> {''dataset'', ''model_params'', ''job_dir'', ''cdate'', ''mdate'', ''status'',
                 ''description'', ''token''}"
  proof -
    have "map_of c8 key = map_of c2 key"
      using set_model_paths_other[OF c8, of key] k by (simp add: update_conv')
    then show ?thesis unfolding cfg using k pre[of key] by (simp add: delete_conv')
  qed
qed

lemma write_json_Inr:
  assumes "write_json w path content = Inr w'"
  shows "w' = w\<lparr>files := AList.update path content (files w),
                 dumped := dumped w @ [(path, content)]\<rparr>"
  using assms by (auto simp: write_json_def split: option.splits if_splits)

lemma mkdir_keeps:
  assumes "mkdir w p = Inr w'"
  shows "files w' = files w \<and> dumped w' = dumped w \<and> queue w' = queue w \<and> drawn w' = drawn w
         \<and> uuids w' = uuids w \<and> redis_db w' = redis_db w \<and> set (dirs w) \<subseteq> set (dirs w')"
  using assms by (auto simp: mkdir_def split: option.splits if_splits)

lemma makedirs_chain_keeps:
  assumes "makedirs_chain w ps = Inr w'"
  shows "files w' = files w \<and> dumped w' = dumped w \<and> queue w' = queue w \<and> drawn w' = drawn w
         \<and> uuids w' = uuids w \<and> redis_db w' = redis_db w \<and> set (dirs w) \<subseteq> set (dirs w')"
  using assms
proof (induction ps arbitrary: w)
  case Nil then show ?case by simp
next
  case (Cons p ps)
  show ?case
  proof (cases "p \<in> set (dirs w) \<or> p \<in> set (map fst (files w))")
    case True
    then have "makedirs_chain w ps = Inr w'" using Cons.prems by simp
    then show ?thesis by (rule Cons.IH)
  next
    case False
    then obtain w1 where m: "mkdir w p = Inr w1" and r: "makedirs_chain w1 ps = Inr w'"
      using Cons.prems by (auto dest!: and_then_Inr)
    show ?thesis using mkdir_keeps[OF m] Cons.IH[OF r] by auto
  qed
qed

lemma makedirs_if_absent_keeps:
  assumes "makedirs_if_absent w d = Inr w'"
  shows "files w' = files w \<and> dumped w' = dumped w \<and> queue w' = queue w \<and> drawn w' = drawn w
         \<and> uuids w' = uuids w \<and> redis_db w' = redis_db w \<and> set (dirs w) \<subseteq> set (dirs w')
         \<and> d \<in> set (dirs w')"
proof (cases "d \<in> set (dirs w)")
  case True
  then show ?thesis using assms by (simp add: makedirs_if_absent_def)
next
  case False
  then obtain w1 where c: "makedirs_chain w (path_prefixes d) = Inr w1" and m: "mkdir w1 d = Inr w'"
    using assms by (auto simp: makedirs_if_absent_def makedirs_def dest!: and_then_Inr)
  have "d \<in> set (dirs w')" using m by (auto simp: mkdir_def split: option.splits if_splits)
  then show ?thesis using makedirs_chain_keeps[OF c] mkdir_keeps[OF m] by auto
qed

lemma prepare_config_accepts:
  assumes "prepare_config srv validate w request now = (Inr (config, token), w')"
  shows "\<exists>config0 request1 job_id w1.
           validate request = Inr (config0, request1)
           \<and> map_of request1 ''job_id'' = Some (JStr job_id)
           \<and> populate_config srv (path_join (working_dir srv) job_id) now config0 = Inr (config, token)
           \<and> makedirs_if_absent w (path_join (working_dir srv) job_id) = Inr w1
           \<and> write_json w1 (path_join (path_join (working_dir srv) job_id) ''config.json'') (JObj config)
               = Inr w'"
  using assms unfolding prepare_config_def Let_def
  by (auto split: sum.splits option.splits json.splits prod.splits)

lemma index_and_config_paths_differ:
  "path_join a ''index.json'' \<noteq> path_join b ''config.json''"
proof
  assume eq: "path_join a ''index.json'' = path_join b ''config.json''"
  have "path_join a ''index.json'' = a @ ''index.json''
        \<or> path_join a ''index.json'' = (a @ ''/'') @ ''index.json''"
    by (simp add: path_join_def)
  then obtain x where x: "path_join a ''index.json'' = x @ ''index.json''" by blast
  have "path_join b ''config.json'' = b @ ''config.json''
        \<or> path_join b ''config.json'' = (b @ ''/'') @ ''config.json''"
    by (simp add: path_join_def)
  then obtain y where y: "path_join b ''config.json'' = y @ ''config.json''" by blast
  have "x @ ''index.json'' = (y @ ''c'') @ ''onfig.json''" using eq x y by simp
  then have "''index.json'' = ''onfig.json''"
    by (subst (asm) append_eq_append_conv) simp_all
  then show False by simp
qed

lemma add_to_user_index_effect:
  assumes "add_to_user_index srv w user_id job_id = Inr w'"
  shows "\<exists>old_index key.
           (map_of (files w) (path_join (working_dir srv) ''index.json'') = None \<and> old_index = []
            \<or> map_of (files w) (path_join (working_dir srv) ''index.json'') = Some (JObj old_index))
           \<and> index_key user_id = Inr key
           \<and> write_json w (path_join (working_dir srv) ''index.json'')
                (JObj (AList.update key
                         (JArr ((case user_id of
                                   JStr user \<Rightarrow>
                                     (case map_of old_index user of Some (JArr jobs) \<Rightarrow> jobs | _ \<Rightarrow> [])
                                 | _ \<Rightarrow> []) @ [job_id]))
                         old_index)) = Inr w'"
proof -
  let ?p = "path_join (working_dir srv) ''index.json''"
  obtain old_index where old:
    "(map_of (files w) ?p = None \<and> old_index = []) \<or> map_of (files w) ?p = Some (JObj old_index)"
    and ld: "(case map_of (files w) ?p of None \<Rightarrow> JObj [] | Some content \<Rightarrow> content) = JObj old_index"
    using assms unfolding add_to_user_index_def Let_def
    by (auto split: option.splits json.splits)
  from assms ld obtain key where key: "index_key user_id = Inr key"
    and rest: "(case user_id of
                 JStr user \<Rightarrow>
                   (if user \<notin> set (map fst old_index) then
                      write_json w ?p (JObj (AList.update user (JArr [job_id]) old_index))
                    else
                      (case map_of old_index user of
                         Some (JArr jobs) \<Rightarrow>
                           write_json w ?p (JObj (AList.update user (JArr (jobs @ [job_id])) old_index))
                       | _ \<Rightarrow> Inl AttributeError))
               | _ \<Rightarrow> write_json w ?p (JObj (AList.update key (JArr [job_id]) old_index))) = Inr w'"
    unfolding add_to_user_index_def Let_def by (auto dest!: and_then_Inr)
  have "write_json w ?p
          (JObj (AList.update key
                   (JArr ((case user_id of
                             JStr user \<Rightarrow>
                               (case map_of old_index user of Some (JArr jobs) \<Rightarrow> jobs | _ \<Rightarrow> [])
                           | _ \<Rightarrow> []) @ [job_id]))
                   old_index)) = Inr w'"
  proof (cases user_id)
    case (JStr user)
    then have k: "key = user" using key by (simp add: index_key_def)
    show ?thesis
    proof (cases "user \<in> set (map fst old_index)")
      case True
      then show ?thesis using rest JStr k
        by (auto split: option.splits json.splits)
    next
      case False
      then have "map_of old_index user = None" by (simp add: map_of_eq_None_iff)
      then show ?thesis using rest JStr k False by simp
    qed
  qed (use rest in simp_all)
  then show ?thesis using old key by blast
qed


lemma start_expertise_accepts:
  assumes "start_expertise srv validate w request now1 now2 = (Inr job_id, w')"
  shows "\<exists>config token w1 user_id cjid w2 job_dir.
           prepare_config srv validate (w\<lparr>drawn := drawn w + 1\<rparr>)
               (AList.update ''job_id'' (JStr (uuids w (drawn w))) request) now1
             = (Inr (config, token), w1)
           \<and> job_id = uuids w (drawn w)
           \<and> map_of config ''user_id'' = Some user_id
           \<and> map_of config ''job_id'' = Some cjid
           \<and> map_of config ''job_dir'' = Some (JStr job_dir)
           \<and> add_to_user_index srv w1 user_id cjid = Inr w2
           \<and> write_json
                (w2\<lparr>queue := queue w2 @
                   [(AList.update ''description'' (JStr ''Job is waiting to start fetching OpenReview data'')
                      (AList.update ''status'' (JStr ''Queued'')
                         (AList.update ''mdate'' (JNum now2) config)), token, job_id)]\<rparr>)
                (path_join job_dir ''config.json'')
                (JObj (AList.update ''description'' (JStr ''Job is waiting to start fetching OpenReview data'')
                      (AList.update ''status'' (JStr ''Queued'')
                         (AList.update ''mdate'' (JNum now2) config)))) = Inr w'"
proof -
  let ?w0 = "w\<lparr>drawn := drawn w + 1\<rparr>"
  let ?jid = "uuids w (drawn w)"
  let ?r0 = "AList.update ''job_id'' (JStr ?jid) request"
  obtain r w1 where p: "prepare_config srv validate ?w0 ?r0 now1 = (r, w1)"
    by (cases "prepare_config srv validate ?w0 ?r0 now1") auto
  show ?thesis
  proof (cases r)
    case (Inl err)
    then show ?thesis using assms p by (simp add: start_expertise_def Let_def)
  next
    case (Inr ct)
    obtain config token where ct: "ct = (config, token)" by (cases ct) auto
    let ?c3 = "AList.update ''description'' (JStr ''Job is waiting to start fetching OpenReview data'')
              (AList.update ''status'' (JStr ''Queued'')
                (AList.update ''mdate'' (JNum now2) config))"
    have eq0: "start_expertise srv validate w request now1 now2 =
        (case descriptions QUEUED of
           Inl err \<Rightarrow> (Inl err, w1)
         | Inr description \<Rightarrow>
             (let config1 = AList.update ''mdate'' (JNum now2) config;
                  config2 = AList.update ''status'' (JStr (status_value QUEUED)) config1;
                  config3 = AList.update ''description'' (JStr description) config2
              in case map_of config3 ''user_id'' of
                   None \<Rightarrow> (Inl (KeyError ''user_id''), w1)
                 | Some user_id \<Rightarrow>
                     (case map_of config3 ''job_id'' of
                        None \<Rightarrow> (Inl (KeyError ''job_id''), w1)
                      | Some config_job_id \<Rightarrow>
                          (case add_to_user_index srv w1 user_id config_job_id of
                             Inl err \<Rightarrow> (Inl err, w1)
                           | Inr w2 \<Rightarrow>
                               (let w3 = w2\<lparr>queue := queue w2 @ [(config3, token, ?jid)]\<rparr>
                                in case map_of config3 ''job_dir'' of
                                     None \<Rightarrow> (Inl (KeyError ''job_dir''), w3)
                                   | Some (JStr job_dir) \<Rightarrow>
                                       (case write_json w3 (path_join job_dir ''config.json'')
                                               (JObj config3) of
                                          Inl err \<Rightarrow> (Inl err, w3)
                                        | Inr w4 \<Rightarrow> (Inr ?jid, w4))
                                   | Some _ \<Rightarrow> (Inl TypeError, w3))))))"
      by (simp only: start_expertise_def Let_def p Inr ct prod.case sum.case)
    note defs = eq0 Let_def update_conv'
    obtain user_id where uid: "map_of config ''user_id'' = Some user_id"
    proof (cases "map_of config ''user_id''")
      case None
      then have "fst (start_expertise srv validate w request now1 now2) = Inl (KeyError ''user_id'')"
        by (simp add: defs)
      then show ?thesis using assms by simp
    qed auto
    obtain cjid where cj: "map_of config ''job_id'' = Some cjid"
    proof (cases "map_of config ''job_id''")
      case None
      then have "fst (start_expertise srv validate w request now1 now2) = Inl (KeyError ''job_id'')"
        using uid by (simp add: defs)
      then show ?thesis using assms by simp
    qed auto
    obtain w2 where idx: "add_to_user_index srv w1 user_id cjid = Inr w2"
    proof (cases "add_to_user_index srv w1 user_id cjid")
      case (Inl err)
      then have "fst (start_expertise srv validate w request now1 now2) = Inl err"
        using uid cj by (simp add: defs)
      then show ?thesis using assms by simp
    qed auto
    let ?w3 = "w2\<lparr>queue := queue w2 @ [(?c3, token, ?jid)]\<rparr>"
    obtain job_dir where jd: "map_of config ''job_dir'' = Some (JStr job_dir)"
    proof (cases "map_of config ''job_dir''")
      case None
      then have "fst (start_expertise srv validate w request now1 now2) = Inl (KeyError ''job_dir'')"
        using uid cj idx by (simp add: defs)
      then show ?thesis using assms by simp
    next
      case (Some v)
      show ?thesis
      proof (cases "\<exists>d. v = JStr d")
        case True
        then show ?thesis using Some that by auto
      next
        case False
        then have "(case v of JStr job_dir \<Rightarrow> a job_dir | _ \<Rightarrow> b) = b"
          for a :: "string \<Rightarrow> (py_error + string) \<times> world" and b
          by (cases v) auto
        then have "fst (start_expertise srv validate w request now1 now2) = Inl TypeError"
          using uid cj idx Some by (simp add: defs)
        then show ?thesis using assms by simp
      qed
    qed
    have fin: "write_json ?w3 (path_join job_dir ''config.json'') (JObj ?c3) = Inr w' \<and> job_id = ?jid"
    proof (cases "write_json ?w3 (path_join job_dir ''config.json'') (JObj ?c3)")
      case (Inl err)
      then have "fst (start_expertise srv validate w request now1 now2) = Inl err"
        using uid cj idx jd by (simp add: defs)
      then show ?thesis using assms by simp
    next
      case (Inr w4)
      then have "start_expertise srv validate w request now1 now2 = (Inr ?jid, w4)"
        using uid cj idx jd by (simp add: defs)
      then show ?thesis using assms Inr by simp
    qed
    show ?thesis
      apply (rule exI[of _ config], rule exI[of _ token], rule exI[of _ w1])
      apply (rule exI[of _ user_id], rule exI[of _ cjid], rule exI[of _ w2])
      apply (rule exI[of _ job_dir])
      using p Inr ct uid cj jd idx fin by simp
  qed
qed


subsection \<open>Request validation\<close>

lemma keys_delete: "set (map fst (AList.delete k d)) = set (map fst d) - {k}"
  by (simp add: delete_keys)

lemma delete_empty_iff: "AList.delete k d = [] \<longleftrightarrow> set (map fst d) \<subseteq> {k}"
proof -
  have "AList.delete k d = [] \<longleftrightarrow> set (map fst (AList.delete k d)) = {}" by simp
  then show ?thesis unfolding keys_delete by auto
qed

lemma in_keys_iff: "k \<in> set (map fst d) \<longleftrightarrow> (\<exists>v. map_of d k = Some v)"
  using map_of_eq_None_iff[of d k] by auto

lemma get_required_field_Inr:
  "get_required_field req sk key = Inr (v, req') \<longleftrightarrow> map_of req key = Some v \<and> req' = AList.delete key req"
  by (auto simp: get_required_field_def split: option.splits)

lemma get_required_field_Inl:
  "get_required_field req sk key = Inl err \<Longrightarrow> is_bad_request err \<and> map_of req key = None"
  by (auto simp: get_required_field_def is_bad_request_def split: option.splits)

lemma load_entity_props_Inl:
  "load_entity_props eid type src tgt = Inl err \<Longrightarrow> is_bad_request err"
  unfolding load_entity_props_def
  by (auto simp: is_bad_request_def Let_def split: if_splits sum.splits option.splits
           dest!: get_required_field_Inl)

lemma load_entity_Inl:
  "load_entity eid (JObj d) = Inl err \<Longrightarrow> is_bad_request err"
  unfolding load_entity_def
  by (auto simp: is_bad_request_def split: if_splits sum.splits
           dest!: get_required_field_Inl load_entity_props_Inl)

lemma load_entity_props_ok:
  "(\<exists>tgt'. load_entity_props eid type src tgt = Inr (tgt', []))
     \<longleftrightarrow> (type = JStr ''Group'' \<and> ''memberOf'' \<in> set (map fst src)
            \<and> set (map fst src) \<subseteq> {''memberOf'', ''expertise''})
         \<or> (type = JStr ''Note''
            \<and> ((''invitation'' \<in> set (map fst src)) \<noteq> (''id'' \<in> set (map fst src)))
            \<and> set (map fst src) \<subseteq> {''invitation'', ''id''})"
  (is "?L \<longleftrightarrow> ?G \<or> ?N")
proof -
  let ?K = "set (map fst src)"
  have neq: "JStr ''Group'' \<noteq> JStr ''Note''" by simp
  consider (grp) "type = JStr ''Group''" "''memberOf'' \<in> ?K"
    | (grp_no) "type = JStr ''Group''" "''memberOf'' \<notin> ?K"
    | (note_both) "type = JStr ''Note''" "''invitation'' \<in> ?K" "''id'' \<in> ?K"
    | (note_inv) "type = JStr ''Note''" "''invitation'' \<in> ?K" "''id'' \<notin> ?K"
    | (note_id) "type = JStr ''Note''" "''invitation'' \<notin> ?K" "''id'' \<in> ?K"
    | (note_no) "type = JStr ''Note''" "''invitation'' \<notin> ?K" "''id'' \<notin> ?K"
    | (other) "type \<noteq> JStr ''Group''" "type \<noteq> JStr ''Note''"
    by blast
  then show ?thesis
  proof cases
    case grp
    then obtain v where v: "map_of src ''memberOf'' = Some v" using in_keys_iff by metis
    let ?s1 = "AList.delete ''memberOf'' src"
    have k1: "set (map fst ?s1) = ?K - {''memberOf''}" by (rule keys_delete)
    have res: "\<exists>t. load_entity_props eid type src tgt = Inr (t, AList.delete ''expertise'' ?s1)"
    proof (cases "map_of ?s1 ''expertise''")
      case None
      then have "''expertise'' \<notin> fst ` set ?s1" by (rule iffD1 [OF map_of_eq_None_iff])
      then have "AList.delete ''expertise'' ?s1 = ?s1" by (rule delete_id)
      then show ?thesis using grp v None
        by (simp add: load_entity_props_def get_required_field_def Let_def)
    next
      case (Some x)
      then show ?thesis using grp v
        by (simp add: load_entity_props_def get_required_field_def Let_def)
    qed
    have "?L \<longleftrightarrow> AList.delete ''expertise'' ?s1 = []" using res by auto
    also have "\<dots> \<longleftrightarrow> set (map fst ?s1) \<subseteq> {''expertise''}" by (rule delete_empty_iff)
    also have "\<dots> \<longleftrightarrow> ?K \<subseteq> {''memberOf'', ''expertise''}" unfolding k1 by blast
    finally show ?thesis using grp by simp
  next
    case grp_no
    then show ?thesis by (simp add: load_entity_props_def)
  next
    case note_both
    then show ?thesis by (simp add: load_entity_props_def)
  next
    case note_inv
    then obtain v where v: "map_of src ''invitation'' = Some v" using in_keys_iff by metis
    have res: "\<exists>t. load_entity_props eid type src tgt = Inr (t, AList.delete ''invitation'' src)"
      using note_inv v by (simp add: load_entity_props_def get_required_field_def)
    have "?L \<longleftrightarrow> AList.delete ''invitation'' src = []" using res by auto
    also have "\<dots> \<longleftrightarrow> ?K \<subseteq> {''invitation''}" by (rule delete_empty_iff)
    also have "\<dots> \<longleftrightarrow> ?K \<subseteq> {''invitation'', ''id''}" using note_inv(3) by blast
    finally show ?thesis using note_inv by simp
  next
    case note_id
    then obtain v where v: "map_of src ''id'' = Some v" using in_keys_iff by metis
    have res: "\<exists>t. load_entity_props eid type src tgt = Inr (t, AList.delete ''id'' src)"
      using note_id v by (simp add: load_entity_props_def get_required_field_def)
    have "?L \<longleftrightarrow> AList.delete ''id'' src = []" using res by auto
    also have "\<dots> \<longleftrightarrow> ?K \<subseteq> {''id''}" by (rule delete_empty_iff)
    also have "\<dots> \<longleftrightarrow> ?K \<subseteq> {''invitation'', ''id''}" using note_id(2) by blast
    finally show ?thesis using note_id by simp
  next
    case note_no
    then show ?thesis by (simp add: load_entity_props_def)
  next
    case other
    then show ?thesis by (simp add: load_entity_props_def)
  qed
qed

lemma load_entity_ok: "(\<exists>t. load_entity eid e = Inr t) \<longleftrightarrow> spec_valid_entity e"
proof (cases e)
  case (JObj d)
  let ?K = "set (map fst d)"
  show ?thesis
  proof (cases "map_of d ''type''")
    case None
    then show ?thesis using JObj
      by (simp add: load_entity_def get_required_field_def spec_valid_entity_def)
  next
    case (Some type)
    let ?src = "AList.delete ''type'' d"
    let ?K' = "set (map fst ?src)"
    have t: "''type'' \<in> ?K" using Some in_keys_iff by metis
    have k': "?K' = ?K - {''type''}" by (rule keys_delete)
    have d1: "''memberOf'' \<noteq> ''type''" "''expertise'' \<noteq> ''type''"
             "''invitation'' \<noteq> ''type''" "''id'' \<noteq> ''type''" by simp_all
    have m: "''memberOf'' \<in> ?K' \<longleftrightarrow> ''memberOf'' \<in> ?K"
      and i: "''invitation'' \<in> ?K' \<longleftrightarrow> ''invitation'' \<in> ?K"
      and j: "''id'' \<in> ?K' \<longleftrightarrow> ''id'' \<in> ?K"
      unfolding k' using d1 by blast+
    have g: "?K' \<subseteq> {''memberOf'', ''expertise''} \<longleftrightarrow> ?K \<subseteq> {''type'', ''memberOf'', ''expertise''}"
      and n: "?K' \<subseteq> {''invitation'', ''id''} \<longleftrightarrow> ?K \<subseteq> {''type'', ''invitation'', ''id''}"
      unfolding k' by blast+
    have run: "load_entity eid e =
       (case load_entity_props eid type ?src [(''type'', type)] of
          Inl err \<Rightarrow> Inl err
        | Inr (target_entity, source2) \<Rightarrow>
            if length (map fst source2) > 0 then
              Inl (OpenReviewException
                     (''Bad request: unexpected fields in '' @ eid @ '': ''
                        @ repr_keys (map fst source2)))
            else Inr target_entity)"
      using JObj Some by (simp add: load_entity_def get_required_field_def)
    have "(\<exists>t. load_entity eid e = Inr t)
            \<longleftrightarrow> (\<exists>tgt'. load_entity_props eid type ?src [(''type'', type)] = Inr (tgt', []))"
      unfolding run by (auto split: sum.splits if_splits)
    also have "\<dots> \<longleftrightarrow> (type = JStr ''Group'' \<and> ''memberOf'' \<in> ?K
            \<and> ?K \<subseteq> {''type'', ''memberOf'', ''expertise''})
         \<or> (type = JStr ''Note''
            \<and> ((''invitation'' \<in> ?K) \<noteq> (''id'' \<in> ?K))
            \<and> ?K \<subseteq> {''type'', ''invitation'', ''id''})"
      unfolding load_entity_props_ok m i j g n ..
    also have "\<dots> \<longleftrightarrow> spec_valid_entity e"
      using JObj Some by (simp add: spec_valid_entity_def)
    finally show ?thesis .
  qed
qed (simp_all add: load_entity_def spec_valid_entity_def)

lemma APIRequest_init_ok:
  "(\<exists>a. APIRequest_init request = Inr a) \<longleftrightarrow> spec_valid_request request"
proof -
  let ?K = "set (map fst request)"
  let ?r1 = "AList.delete ''name'' request"
  let ?r2 = "AList.delete ''entityA'' ?r1"
  let ?r3 = "AList.delete ''entityB'' ?r2"
  let ?r4 = "AList.delete ''model'' ?r3"
  have k4: "set (map fst ?r4) = ?K - {''name'', ''entityA'', ''entityB'', ''model''}"
    by (simp only: keys_delete) blast
  have left: "?r4 = [] \<longleftrightarrow> ?K \<subseteq> {''name'', ''entityA'', ''entityB'', ''model''}"
  proof -
    have "?r4 = [] \<longleftrightarrow> set (map fst ?r4) = {}" by simp
    then show ?thesis unfolding k4 by blast
  qed
  have ea: "map_of ?r1 ''entityA'' = map_of request ''entityA''" by simp
  have eb: "map_of ?r2 ''entityB'' = map_of request ''entityB''" by simp
  show ?thesis
  proof (cases "map_of request ''name''")
    case None
    then have "''name'' \<notin> ?K" using in_keys_iff[of "''name''" request] by simp
    then show ?thesis using None
      by (simp add: APIRequest_init_def get_required_field_def spec_valid_request_def)
  next
    case (Some nm)
    then have nk: "''name'' \<in> ?K" using in_keys_iff[of "''name''" request] by simp
    show ?thesis
    proof (cases "map_of request ''entityA''")
      case None
      then show ?thesis using Some ea
        by (simp add: APIRequest_init_def get_required_field_def spec_valid_request_def)
    next
      case a: (Some ent_a)
      show ?thesis
      proof (cases "map_of request ''entityB''")
        case None
        then show ?thesis using Some a ea eb
          by (simp add: APIRequest_init_def get_required_field_def spec_valid_request_def)
      next
        case b: (Some ent_b)
        have run: "APIRequest_init request =
          (case load_entity ''entityA'' ent_a of
             Inl err \<Rightarrow> Inl err
           | Inr target_a \<Rightarrow>
          (case load_entity ''entityB'' ent_b of
             Inl err \<Rightarrow> Inl err
           | Inr target_b \<Rightarrow>
               if length (map fst ?r4) > 0 then
                 Inl (OpenReviewException
                        (''Bad request: unexpected fields in request: ''
                           @ repr_keys (map fst ?r4)))
               else Inr \<lparr> name = nm, entityA = target_a, entityB = target_b,
                          model = (case map_of ?r3 ''model'' of None \<Rightarrow> JObj [] | Some m \<Rightarrow> m) \<rparr>))"
          using Some a b ea eb
          by (simp add: APIRequest_init_def get_required_field_def Let_def cong: sum.case_cong)
        have "(\<exists>x. APIRequest_init request = Inr x)
                \<longleftrightarrow> (\<exists>ta. load_entity ''entityA'' ent_a = Inr ta)
                    \<and> (\<exists>tb. load_entity ''entityB'' ent_b = Inr tb) \<and> ?r4 = []"
          unfolding run by (auto split: sum.splits if_splits)
        also have "\<dots> \<longleftrightarrow> spec_valid_entity ent_a \<and> spec_valid_entity ent_b
                      \<and> ?K \<subseteq> {''name'', ''entityA'', ''entityB'', ''model''}"
          unfolding load_entity_ok left ..
        also have "\<dots> \<longleftrightarrow> spec_valid_request request"
          using nk a b by (simp add: spec_valid_request_def)
        finally show ?thesis .
      qed
    qed
  qed
qed

lemma APIRequest_init_bad:
  assumes "entities_are_objects request" and "APIRequest_init request = Inl err"
  shows "is_bad_request err"
proof -
  have obj: "map_of request k = Some v \<Longrightarrow> k = ''entityA'' \<or> k = ''entityB'' \<Longrightarrow> \<exists>d. v = JObj d" for k v
    using assms(1) unfolding entities_are_objects_def by (auto split: option.splits json.splits)
  have ea: "map_of (AList.delete ''name'' request) ''entityA'' = map_of request ''entityA''" by simp
  have eb: "map_of (AList.delete ''entityA'' (AList.delete ''name'' request)) ''entityB''
              = map_of request ''entityB''" by simp
  show ?thesis
  proof (cases "map_of request ''name''")
    case None
    then show ?thesis using assms(2)
      by (auto simp: APIRequest_init_def get_required_field_def is_bad_request_def)
  next
    case (Some nm)
    show ?thesis
    proof (cases "map_of request ''entityA''")
      case None
      then show ?thesis using assms(2) Some ea
        by (auto simp: APIRequest_init_def get_required_field_def is_bad_request_def)
    next
      case a: (Some ent_a)
      then obtain da where da: "ent_a = JObj da" using obj by blast
      show ?thesis
      proof (cases "map_of request ''entityB''")
        case None
        then show ?thesis using assms(2) Some a ea eb
          by (auto simp: APIRequest_init_def get_required_field_def is_bad_request_def)
      next
        case b: (Some ent_b)
        then obtain db where db: "ent_b = JObj db" using obj by blast
        show ?thesis using assms(2) Some a b ea eb da db
          by (auto simp: APIRequest_init_def get_required_field_def Let_def is_bad_request_def
                split: sum.splits if_splits dest: load_entity_Inl)
      qed
    qed
  qed
qed

lemma start_expertise_rejected:
  assumes "validate (AList.update ''job_id'' (JStr (uuids w (drawn w))) request) = Inl err"
  shows "start_expertise srv validate w request now1 now2 = (Inl err, w\<lparr>drawn := drawn w + 1\<rparr>)"
  using assms by (simp add: start_expertise_def prepare_config_def Let_def)


subsection \<open>Status lookup\<close>

lemma child_name_join:
  assumes "child_name parent p = Some n"
  shows "p = path_join parent n"
proof -
  let ?pre = "(if parent = [] \<or> last parent = CHR ''/'' then parent else parent @ ''/'')"
  from assms have a: "take (length ?pre) p = ?pre" and n: "n = drop (length ?pre) p"
    and ne: "n \<noteq> []" and sl: "CHR ''/'' \<notin> set n"
    unfolding child_name_def Let_def by (auto split: if_splits)
  have "hd n \<noteq> CHR ''/''" using ne sl by (cases n) auto
  then have "path_join parent n = ?pre @ n" using ne by (simp add: path_join_def)
  moreover have "p = ?pre @ n"
  proof -
    have "take (length ?pre) p @ drop (length ?pre) p = p" by (rule append_take_drop_id)
    then have "?pre @ drop (length ?pre) p = p" by (simp only: a)
    then show ?thesis by (simp only: n)
  qed
  ultimately show ?thesis by (simp only:)
qed

lemma children_exist:
  "n \<in> set (List.map_filter (child_name parent) ds) \<Longrightarrow> path_join parent n \<in> set ds"
  by (auto simp: List.map_filter_def dest: child_name_join)

lemma list_subdirs_exist:
  assumes "list_subdirs w parent = Inr listed" and "n \<in> set listed"
  shows "path_join parent n \<in> set (dirs w) \<and> parent \<in> set (dirs w)"
proof -
  have p: "parent \<in> set (dirs w)" and l: "listed = List.map_filter (child_name parent) (dirs w)"
    using assms(1) by (auto simp: list_subdirs_def split: if_splits)
  show ?thesis using p children_exist[of n parent "dirs w"] assms(2) l by simp
qed

lemma filter_user_dirs_sound:
  "filter_user_dirs srv w user_id subdirs = Inr out \<Longrightarrow> n \<in> set out \<Longrightarrow>
     n \<in> set subdirs
     \<and> (\<exists>config. map_of (files w) (path_join (path_join (working_dir srv) n) ''config.json'')
                    = Some (JObj config)
                  \<and> map_of config ''user_id'' = Some (JStr user_id))"
proof (induction subdirs arbitrary: out)
  case Nil then show ?case by simp
next
  case (Cons d subdirs)
  from Cons.prems(1) obtain config owner rest_out where
    c: "map_of (files w) (path_join (path_join (working_dir srv) d) ''config.json'') = Some (JObj config)"
    and o: "map_of config ''user_id'' = Some owner"
    and r: "filter_user_dirs srv w user_id subdirs = Inr rest_out"
    and out: "out = (if owner = JStr user_id then d # rest_out else rest_out)"
    by (auto split: option.splits json.splits dest!: and_then_Inr)
  show ?case
  proof (cases "n \<in> set rest_out")
    case True
    from Cons.IH[OF r True] show ?thesis by simp
  next
    case False
    then have "n = d" "owner = JStr user_id" using Cons.prems(2) out by (auto split: if_splits)
    then show ?thesis using c o by simp
  qed
qed

lemma get_subdirs_listed:
  assumes "get_subdirs srv w user_id = Inr subdirs" and "n \<in> set subdirs"
  shows "path_join (working_dir srv) n \<in> set (dirs w)"
    and "lower user_id \<notin> set SUPERUSER_IDS \<Longrightarrow>
           \<exists>config. map_of (files w) (path_join (path_join (working_dir srv) n) ''config.json'')
                      = Some (JObj config)
                    \<and> map_of config ''user_id'' = Some (JStr user_id)"
proof -
  from assms(1) obtain listed where l: "list_subdirs w (working_dir srv) = Inr listed"
    and r: "(if lower user_id \<in> set SUPERUSER_IDS then Inr listed
             else filter_user_dirs srv w user_id listed) = Inr subdirs"
    unfolding get_subdirs_def by (auto dest!: and_then_Inr)
  have "n \<in> set listed"
    using r assms(2) filter_user_dirs_sound[of srv w user_id listed subdirs n]
    by (auto split: if_splits)
  then show "path_join (working_dir srv) n \<in> set (dirs w)"
    using list_subdirs_exist[OF l] by blast
  show "\<exists>config. map_of (files w) (path_join (path_join (working_dir srv) n) ''config.json'')
                      = Some (JObj config)
                    \<and> map_of config ''user_id'' = Some (JStr user_id)"
    if "lower user_id \<notin> set SUPERUSER_IDS"
    using that r assms(2) filter_user_dirs_sound[of srv w user_id listed subdirs n]
    by (auto split: if_splits)
qed

lemma get_subdirs_missing:
  assumes "working_dir srv \<notin> set (dirs w)"
  shows "\<exists>err. get_subdirs srv w user_id = Inl err
           \<and> (err = FileNotFoundError \<or> err = NotADirectoryError)"
  using assms by (simp add: get_subdirs_def list_subdirs_def and_then_def)

lemma status_not_listed:
  assumes "get_subdirs srv w user_id = Inr subdirs" and "job_id \<notin> set subdirs"
  shows "fst (get_expertise_status srv w user_id job_id) = Inl (OpenReviewException ''Job not found'')"
proof -
  have "filter (\<lambda>name. name = job_id) subdirs = []" using assms(2) by (induction subdirs) auto
  then show ?thesis using assms(1) by (simp add: get_expertise_status_def Let_def)
qed

subsection \<open>Claims about the service\<close>

text \<open>
  Claim C6, as stated, fails in its last part: \<^verbatim>\<open>start_expertise\<close> draws the job id
  in its first statement and validates afterwards.  A request that lacks \<open>entityA\<close> is
  rejected as a bad request after one job id has been drawn.
\<close>

theorem job_id_drawn_before_rejection:
  "drawn ex_world = 0
   \<and> start_expertise ex_service ex_api_validate ex_world [(''name'', JStr ''run'')] 5 6
       = (Inl (OpenReviewException ''Bad request: required field missing in request: entityA''),
          ex_world\<lparr>drawn := 1\<rparr>)"
  by (simp add: start_expertise_def prepare_config_def ex_api_validate_def APIRequest_init_def
        get_required_field_def and_then_def ex_world_def)

text \<open>
  Claim C6, amended.  \<^verbatim>\<open>APIRequest\<close> accepts a request exactly when \<open>name\<close>,
  \<open>entityA\<close> and \<open>entityB\<close> are present, each entity is an object of type \<open>Group\<close>
  with \<open>memberOf\<close> (and at most \<open>expertise\<close> besides) or of type \<open>Note\<close> with exactly one
  of \<open>invitation\<close> and \<open>id\<close>, and the request has no field besides these and \<open>model\<close>.
  Every other request whose entities are JSON objects is rejected with an
  \<^verbatim>\<open>OpenReviewException\<close> whose message starts with "Bad request:".  In
  \<^verbatim>\<open>start_expertise\<close> the job id is drawn before validation; when validation raises,
  the exception is passed on and nothing but the draw has happened: no directory, no
  file, no index entry and no queue message has been created.
\<close>

theorem submit_validation:
  "((\<exists>a. APIRequest_init request = Inr a) \<longleftrightarrow> spec_valid_request request)
   \<and> (entities_are_objects request \<and> \<not> spec_valid_request request \<longrightarrow>
        (\<exists>err. APIRequest_init request = Inl err \<and> is_bad_request err))
   \<and> (validate (AList.update ''job_id'' (JStr (uuids w (drawn w))) req) = Inl err' \<longrightarrow>
        start_expertise srv validate w req now1 now2 = (Inl err', w\<lparr>drawn := drawn w + 1\<rparr>))"
proof (intro conjI impI)
  show "(\<exists>a. APIRequest_init request = Inr a) \<longleftrightarrow> spec_valid_request request"
    by (rule APIRequest_init_ok)
next
  assume h: "entities_are_objects request \<and> \<not> spec_valid_request request"
  then have "\<not> (\<exists>a. APIRequest_init request = Inr a)" using APIRequest_init_ok by blast
  then obtain err where e: "APIRequest_init request = Inl err"
    by (cases "APIRequest_init request") auto
  then show "\<exists>err. APIRequest_init request = Inl err \<and> is_bad_request err"
    using APIRequest_init_bad h by blast
next
  assume "validate (AList.update ''job_id'' (JStr (uuids w (drawn w))) req) = Inl err'"
  then show "start_expertise srv validate w req now1 now2 = (Inl err', w\<lparr>drawn := drawn w + 1\<rparr>)"
    by (rule start_expertise_rejected)
qed

theorem submit_validation_witness:
  "(\<exists>a. APIRequest_init ex_api_request = Inr a) \<and> spec_valid_request ex_api_request
   \<and> entities_are_objects [(''name'', JStr ''run'')] \<and> \<not> spec_valid_request [(''name'', JStr ''run'')]
   \<and> (\<exists>err. APIRequest_init [(''name'', JStr ''run'')] = Inl err \<and> is_bad_request err)
   \<and> ex_api_validate (AList.update ''job_id'' (JStr (uuids ex_world (drawn ex_world))) [(''name'', JStr ''run'')])
        = Inl (OpenReviewException ''Bad request: required field missing in request: entityA'')
   \<and> start_expertise ex_service ex_api_validate ex_world [(''name'', JStr ''run'')] 5 6
        = (Inl (OpenReviewException ''Bad request: required field missing in request: entityA''),
           ex_world\<lparr>drawn := drawn ex_world + 1\<rparr>)"
proof -
  have v: "spec_valid_request ex_api_request"
    by (simp add: spec_valid_request_def spec_valid_entity_def ex_api_request_def)
  have o: "entities_are_objects [(''name'', JStr ''run'')]"
    by (simp add: entities_are_objects_def)
  have n: "\<not> spec_valid_request [(''name'', JStr ''run'')]"
    by (simp add: spec_valid_request_def)
  have r: "ex_api_validate (AList.update ''job_id'' (JStr (uuids ex_world (drawn ex_world))) [(''name'', JStr ''run'')])
        = Inl (OpenReviewException ''Bad request: required field missing in request: entityA'')"
    by (simp add: ex_api_validate_def APIRequest_init_def get_required_field_def and_then_def)
  note t1 = submit_validation [of ex_api_request ex_api_validate ex_world "[(''name'', JStr ''run'')]"
        "OpenReviewException ''Bad request: required field missing in request: entityA''"
        ex_service 5 6]
  note t2 = submit_validation [of "[(''name'', JStr ''run'')]" ex_api_validate ex_world "[(''name'', JStr ''run'')]"
        "OpenReviewException ''Bad request: required field missing in request: entityA''"
        ex_service 5 6]
  have a: "\<exists>a. APIRequest_init ex_api_request = Inr a" using t1 v by blast
  have b: "\<exists>err. APIRequest_init [(''name'', JStr ''run'')] = Inl err \<and> is_bad_request err"
    using t2 o n by blast
  have c: "start_expertise ex_service ex_api_validate ex_world [(''name'', JStr ''run'')] 5 6
        = (Inl (OpenReviewException ''Bad request: required field missing in request: entityA''),
           ex_world\<lparr>drawn := drawn ex_world + 1\<rparr>)"
    using t2 r by blast
  from a v o n b r c show ?thesis by (intro conjI)
qed

text \<open>
  Claim C7, as stated, fails on both status lookups of the sources.
  \<^verbatim>\<open>JobConfig.load_job\<close> answers a caller who is neither owner nor superuser with
  "Forbidden", not with "Job not found"; \<^verbatim>\<open>get_expertise_status\<close> answers "Job not
  found" for a job whose directory is gone and leaves the entry of that job in the user
  index where it was.
\<close>

theorem status_lookup_counterexample:
  "load_job ex_world_store ''j1'' ''u2''
     = (Inl (OpenReviewException ''Forbidden: Insufficient permissions to access job''),
        ex_world_store)
   \<and> get_expertise_status ex_service ex_world_stale ''u1'' ''j1''
     = (Inl (OpenReviewException ''Job not found''), ex_world_stale)
   \<and> map_of (files ex_world_stale) ''jobs/index.json'' = Some (JObj [(''u1'', JArr [JStr ''j1''])])"
  by (simp add: load_job_def job_key_def ex_world_store_def ex_world_def ex_job_def SUPERUSER_IDS_def
        get_expertise_status_def get_subdirs_def list_subdirs_def List.map_filter_def child_name_def
        ex_service_def ex_world_stale_def lower_def lower_char_def and_then_def)

text \<open>
  Claim C7, amended.  \<^verbatim>\<open>get_expertise_status\<close> changes nothing.  When the working
  directory does not exist, as before the first submission, \<^verbatim>\<open>os.listdir\<close> raises
  and that exception (\<^verbatim>\<open>FileNotFoundError\<close>, or \<^verbatim>\<open>NotADirectoryError\<close> for a file in
  its place) is what the caller gets.  Whenever the scan of the working directory
  succeeds, the lookup fails with "Job not found" if the job's directory does not
  exist, and also if the caller is no superuser and the user id in the job's
  configuration is not the caller's.  \<^verbatim>\<open>JobConfig.load_job\<close> fails with "Job not
  found" and deletes the job's record when the record's directory does not exist and
  the caller is the owner or a superuser; when the directory exists and the caller is
  neither, it fails with "Forbidden" and changes nothing.
\<close>

theorem status_lookup_not_found:
  "snd (get_expertise_status srv w user_id job_id) = w
   \<and> (working_dir srv \<notin> set (dirs w) \<longrightarrow>
        (\<exists>err. fst (get_expertise_status srv w user_id job_id) = Inl err
               \<and> (err = FileNotFoundError \<or> err = NotADirectoryError)))
   \<and> (get_subdirs srv w user_id = Inr subdirs
        \<and> path_join (working_dir srv) job_id \<notin> set (dirs w) \<longrightarrow>
      fst (get_expertise_status srv w user_id job_id) = Inl (OpenReviewException ''Job not found''))
   \<and> (get_subdirs srv w user_id = Inr subdirs
        \<and> lower user_id \<notin> set SUPERUSER_IDS
        \<and> map_of (files w) (path_join (path_join (working_dir srv) job_id) ''config.json'')
             = Some (JObj config)
        \<and> map_of config ''user_id'' \<noteq> Some (JStr user_id) \<longrightarrow>
      fst (get_expertise_status srv w user_id job_id) = Inl (OpenReviewException ''Job not found''))
   \<and> (map_of (redis_db w) (job_key job_id) = Some jc
        \<and> jc_job_dir jc \<notin> set (dirs w)
        \<and> (jc_user_id jc = user_id \<or> user_id \<in> set SUPERUSER_IDS) \<longrightarrow>
      load_job w job_id user_id
        = (Inl (OpenReviewException ''Job not found''),
           w\<lparr>redis_db := AList.delete (job_key job_id) (redis_db w)\<rparr>))
   \<and> (map_of (redis_db w) (job_key job_id) = Some jc
        \<and> jc_job_dir jc \<in> set (dirs w)
        \<and> jc_user_id jc \<noteq> user_id \<and> user_id \<notin> set SUPERUSER_IDS \<longrightarrow>
      load_job w job_id user_id
        = (Inl (OpenReviewException ''Forbidden: Insufficient permissions to access job''), w))"
proof (intro conjI impI)
  show "snd (get_expertise_status srv w user_id job_id) = w"
    by (simp add: get_expertise_status_def)
next
  assume "working_dir srv \<notin> set (dirs w)"
  from get_subdirs_missing[OF this, of user_id]
  show "\<exists>err. fst (get_expertise_status srv w user_id job_id) = Inl err
               \<and> (err = FileNotFoundError \<or> err = NotADirectoryError)"
    by (auto simp: get_expertise_status_def)
next
  assume h: "get_subdirs srv w user_id = Inr subdirs
        \<and> path_join (working_dir srv) job_id \<notin> set (dirs w)"
  then have "job_id \<notin> set subdirs" using get_subdirs_listed(1) by blast
  then show "fst (get_expertise_status srv w user_id job_id) = Inl (OpenReviewException ''Job not found'')"
    using h status_not_listed by blast
next
  assume h: "get_subdirs srv w user_id = Inr subdirs
        \<and> lower user_id \<notin> set SUPERUSER_IDS
        \<and> map_of (files w) (path_join (path_join (working_dir srv) job_id) ''config.json'')
             = Some (JObj config)
        \<and> map_of config ''user_id'' \<noteq> Some (JStr user_id)"
  have "job_id \<notin> set subdirs"
  proof
    assume "job_id \<in> set subdirs"
    from get_subdirs_listed(2)[OF _ this] h show False by fastforce
  qed
  then show "fst (get_expertise_status srv w user_id job_id) = Inl (OpenReviewException ''Job not found'')"
    using h status_not_listed by blast
next
  assume "map_of (redis_db w) (job_key job_id) = Some jc
        \<and> jc_job_dir jc \<notin> set (dirs w)
        \<and> (jc_user_id jc = user_id \<or> user_id \<in> set SUPERUSER_IDS)"
  then show "load_job w job_id user_id
        = (Inl (OpenReviewException ''Job not found''),
           w\<lparr>redis_db := AList.delete (job_key job_id) (redis_db w)\<rparr>)"
    by (auto simp: load_job_def remove_job_def)
next
  assume "map_of (redis_db w) (job_key job_id) = Some jc
        \<and> jc_job_dir jc \<in> set (dirs w)
        \<and> jc_user_id jc \<noteq> user_id \<and> user_id \<notin> set SUPERUSER_IDS"
  then show "load_job w job_id user_id
        = (Inl (OpenReviewException ''Forbidden: Insufficient permissions to access job''), w)"
    by (auto simp: load_job_def)
qed

theorem status_lookup_not_found_witness:
  "working_dir ex_service \<notin> set (dirs ex_world_first)
   \<and> get_expertise_status ex_service ex_world_first ''u1'' ''j1'' = (Inl FileNotFoundError, ex_world_first)
   \<and> get_subdirs ex_service ex_world_stale ''u1'' = Inr []
   \<and> path_join (working_dir ex_service) ''j1'' \<notin> set (dirs ex_world_stale)
   \<and> fst (get_expertise_status ex_service ex_world_stale ''u1'' ''j1'')
       = Inl (OpenReviewException ''Job not found'')
   \<and> get_subdirs ex_service ex_world_owned ''u2'' = Inr []
   \<and> lower ''u2'' \<notin> set SUPERUSER_IDS
   \<and> map_of (files ex_world_owned) (path_join (path_join (working_dir ex_service) ''j1'') ''config.json'')
       = Some (JObj [(''user_id'', JStr ''u1'')])
   \<and> fst (get_expertise_status ex_service ex_world_owned ''u2'' ''j1'')
       = Inl (OpenReviewException ''Job not found'')
   \<and> map_of (redis_db ex_world_store_stale) (job_key ''j1'') = Some ex_job
   \<and> jc_job_dir ex_job \<notin> set (dirs ex_world_store_stale)
   \<and> load_job ex_world_store_stale ''j1'' ''u1''
       = (Inl (OpenReviewException ''Job not found''),
          ex_world_store_stale\<lparr>redis_db := AList.delete (job_key ''j1'') (redis_db ex_world_store_stale)\<rparr>)
   \<and> map_of (redis_db ex_world_store) (job_key ''j1'') = Some ex_job
   \<and> jc_job_dir ex_job \<in> set (dirs ex_world_store)
   \<and> load_job ex_world_store ''j1'' ''u2''
       = (Inl (OpenReviewException ''Forbidden: Insufficient permissions to access job''),
          ex_world_store)"
proof -
  have z1: "working_dir ex_service \<notin> set (dirs ex_world_first)"
    by (simp add: ex_world_first_def ex_world_def)
  have z2: "fst (get_expertise_status ex_service ex_world_first ''u1'' ''j1'') = Inl FileNotFoundError"
    by (simp add: get_expertise_status_def get_subdirs_def list_subdirs_def and_then_def
          ex_world_first_def ex_world_def ex_service_def)
  have z: "get_expertise_status ex_service ex_world_first ''u1'' ''j1''
             = (Inl FileNotFoundError, ex_world_first)"
    using z2 status_lookup_not_found [of ex_service ex_world_first "''u1''" "''j1''"]
    by (simp add: prod_eq_iff)
  have a1: "get_subdirs ex_service ex_world_stale ''u1'' = Inr []"
    by code_simp
  have a2: "path_join (working_dir ex_service) ''j1'' \<notin> set (dirs ex_world_stale)"
    by code_simp
  have b1: "get_subdirs ex_service ex_world_owned ''u2'' = Inr []"
    by code_simp
  have b2: "lower ''u2'' \<notin> set SUPERUSER_IDS"
    by code_simp
  have b3: "map_of (files ex_world_owned) (path_join (path_join (working_dir ex_service) ''j1'') ''config.json'')
       = Some (JObj [(''user_id'', JStr ''u1'')])"
    by code_simp
  have b4: "map_of [(''user_id'', JStr ''u1'')] ''user_id'' \<noteq> Some (JStr ''u2'')"
    by simp
  have c1: "map_of (redis_db ex_world_store_stale) (job_key ''j1'') = Some ex_job"
    by (simp add: ex_world_store_stale_def ex_world_def job_key_def)
  have c2: "jc_job_dir ex_job \<notin> set (dirs ex_world_store_stale)"
    by (simp add: ex_world_store_stale_def ex_world_def ex_job_def)
  have c3: "jc_user_id ex_job = ''u1''" by (simp add: ex_job_def)
  have d1: "map_of (redis_db ex_world_store) (job_key ''j1'') = Some ex_job"
    by (simp add: ex_world_store_def ex_world_def job_key_def)
  have d2: "jc_job_dir ex_job \<in> set (dirs ex_world_store)"
    by (simp add: ex_world_store_def ex_world_def ex_job_def)
  have d3: "jc_user_id ex_job \<noteq> ''u2''" "''u2'' \<notin> set SUPERUSER_IDS"
    by (simp_all add: ex_job_def SUPERUSER_IDS_def)
  have a: "fst (get_expertise_status ex_service ex_world_stale ''u1'' ''j1'')
       = Inl (OpenReviewException ''Job not found'')"
    using status_lookup_not_found [of ex_service ex_world_stale "''u1''" "''j1''" "[]"] a1 a2
    by blast
  have b: "fst (get_expertise_status ex_service ex_world_owned ''u2'' ''j1'')
       = Inl (OpenReviewException ''Job not found'')"
    using status_lookup_not_found [of ex_service ex_world_owned "''u2''" "''j1''" "[]"
            "[(''user_id'', JStr ''u1'')]"] b1 b2 b3 b4
    by blast
  have c: "load_job ex_world_store_stale ''j1'' ''u1''
       = (Inl (OpenReviewException ''Job not found''),
          ex_world_store_stale\<lparr>redis_db := AList.delete (job_key ''j1'') (redis_db ex_world_store_stale)\<rparr>)"
    using status_lookup_not_found [of ex_service ex_world_store_stale "''u1''" "''j1''" "[]" "[]" ex_job]
      c1 c2 c3
    by blast
  have d: "load_job ex_world_store ''j1'' ''u2''
       = (Inl (OpenReviewException ''Forbidden: Insufficient permissions to access job''),
          ex_world_store)"
    using status_lookup_not_found [of ex_service ex_world_store "''u2''" "''j1''" "[]" "[]" ex_job]
      d1 d2 d3
    by blast
  from z1 z a1 a2 a b1 b2 b3 b c1 c2 c d1 d2 d show ?thesis by (intro conjI)
qed

text \<open>
  Claim C9.  Whenever \<^verbatim>\<open>start_expertise\<close> accepts a request, the token is the value
  that the validated configuration has under \<open>token\<close>, and it is the token of the one
  message put on the queue.  Exactly three writes have happened: the configuration with
  status \<open>Initialized\<close>, the user index, and the configuration with status \<open>Queued\<close>,
  both configurations to the \<^verbatim>\<open>config.json\<close> of the job's directory, which exists
  afterwards; no other file changed and the job store is as it was.  Neither written configuration has a \<open>token\<close> key: the first is the validated
  configuration with the server-side fields set and the token removed, the second is
  the first with \<open>mdate\<close>, \<open>status\<close> and \<open>description\<close> reassigned.  The index written is
  the index read with the configuration's job id added under the configuration's user
  id, so it holds no part of the configuration but these two ids.
\<close>

theorem token_never_written:
  assumes "start_expertise srv validate w request now1 now2 = (Inr job_id, w')"
  shows "\<exists>config0 request1 job_dir_id token config_init config_queued user_id config_job_id
            old_index key.
           job_id = uuids w (drawn w)
           \<and> validate (AList.update ''job_id'' (JStr job_id) request) = Inr (config0, request1)
           \<and> map_of request1 ''job_id'' = Some (JStr job_dir_id)
           \<and> map_of config0 ''token'' = Some token
           \<and> queue w' = queue w @ [(config_queued, token, job_id)]
           \<and> dumped w' = dumped w @
                [(path_join (path_join (working_dir srv) job_dir_id) ''config.json'', JObj config_init),
                 (path_join (working_dir srv) ''index.json'',
                    JObj (AList.update key
                           (JArr ((case user_id of
                                     JStr user \<Rightarrow>
                                       (case map_of old_index user of
                                          Some (JArr jobs) \<Rightarrow> jobs | _ \<Rightarrow> [])
                                   | _ \<Rightarrow> []) @ [config_job_id]))
                           old_index)),
                 (path_join (path_join (working_dir srv) job_dir_id) ''config.json'', JObj config_queued)]
           \<and> files w' =
                AList.update (path_join (path_join (working_dir srv) job_dir_id) ''config.json'')
                  (JObj config_queued)
                  (AList.update (path_join (working_dir srv) ''index.json'')
                     (JObj (AList.update key
                             (JArr ((case user_id of
                                       JStr user \<Rightarrow>
                                         (case map_of old_index user of
                                            Some (JArr jobs) \<Rightarrow> jobs | _ \<Rightarrow> [])
                                     | _ \<Rightarrow> []) @ [config_job_id]))
                             old_index))
                     (AList.update (path_join (path_join (working_dir srv) job_dir_id) ''config.json'')
                        (JObj config_init) (files w)))
           \<and> redis_db w' = redis_db w
           \<and> path_join (working_dir srv) job_dir_id \<in> set (dirs w')
           \<and> ''token'' \<notin> fst ` set config_init
           \<and> ''token'' \<notin> fst ` set config_queued
           \<and> map_of config_init ''status'' = Some (JStr ''Initialized'')
           \<and> (\<forall>field. field \<notin> {''dataset'', ''model_params'', ''job_dir'', ''cdate'', ''mdate'',
                                ''status'', ''description'', ''token''} \<longrightarrow>
                  map_of config_init field = map_of config0 field)
           \<and> config_queued =
                AList.update ''description'' (JStr ''Job is waiting to start fetching OpenReview data'')
                  (AList.update ''status'' (JStr ''Queued'')
                     (AList.update ''mdate'' (JNum now2) config_init))
           \<and> map_of config_queued ''user_id'' = Some user_id
           \<and> map_of config_queued ''job_id'' = Some config_job_id
           \<and> index_key user_id = Inr key
           \<and> (map_of (files w) (path_join (working_dir srv) ''index.json'') = None \<and> old_index = []
              \<or> map_of (files w) (path_join (working_dir srv) ''index.json'') = Some (JObj old_index))"
proof -
  let ?w0 = "w\<lparr>drawn := drawn w + 1\<rparr>"
  let ?jid = "uuids w (drawn w)"
  let ?r0 = "AList.update ''job_id'' (JStr ?jid) request"
  let ?idx = "path_join (working_dir srv) ''index.json''"
  from start_expertise_accepts[OF assms] obtain config token w1 user_id cjid w2 job_dir where
    prep: "prepare_config srv validate ?w0 ?r0 now1 = (Inr (config, token), w1)"
    and jid: "job_id = ?jid"
    and uid0: "map_of config ''user_id'' = Some user_id"
    and cj0: "map_of config ''job_id'' = Some cjid"
    and jd0: "map_of config ''job_dir'' = Some (JStr job_dir)"
    and idx: "add_to_user_index srv w1 user_id cjid = Inr w2"
    and wr3': "write_json
                (w2\<lparr>queue := queue w2 @
                   [(AList.update ''description'' (JStr ''Job is waiting to start fetching OpenReview data'')
                      (AList.update ''status'' (JStr ''Queued'')
                         (AList.update ''mdate'' (JNum now2) config)), token, job_id)]\<rparr>)
                (path_join job_dir ''config.json'')
                (JObj (AList.update ''description'' (JStr ''Job is waiting to start fetching OpenReview data'')
                      (AList.update ''status'' (JStr ''Queued'')
                         (AList.update ''mdate'' (JNum now2) config)))) = Inr w'"
    by blast
  let ?c3 = "AList.update ''description'' (JStr ''Job is waiting to start fetching OpenReview data'')
              (AList.update ''status'' (JStr ''Queued'')
                (AList.update ''mdate'' (JNum now2) config))"
  from prepare_config_accepts[OF prep] obtain config0 request1 rid wa where
    val: "validate ?r0 = Inr (config0, request1)"
    and rq: "map_of request1 ''job_id'' = Some (JStr rid)"
    and pop: "populate_config srv (path_join (working_dir srv) rid) now1 config0 = Inr (config, token)"
    and mk: "makedirs_if_absent ?w0 (path_join (working_dir srv) rid) = Inr wa"
    and wr1: "write_json wa (path_join (path_join (working_dir srv) rid) ''config.json'') (JObj config)
                = Inr w1"
    by blast
  let ?cfg = "path_join (path_join (working_dir srv) rid) ''config.json''"
  note pc = populate_config_result[OF pop]
  have jdir: "job_dir = path_join (working_dir srv) rid" using pc(2) jd0 by simp
  have uid: "map_of ?c3 ''user_id'' = Some user_id" using uid0 by (simp add: update_conv')
  have cj: "map_of ?c3 ''job_id'' = Some cjid" using cj0 by (simp add: update_conv')
  define w4 where "w4 = w'"
  have fin: "w' = w4" by (simp add: w4_def)
  have wr3: "write_json (w2\<lparr>queue := queue w2 @ [(?c3, token, ?jid)]\<rparr>) ?cfg (JObj ?c3) = Inr w4"
    using wr3' jid jdir by (simp add: w4_def)
  from add_to_user_index_effect[OF idx] obtain old_index key where
    old1: "(map_of (files w1) ?idx = None \<and> old_index = [])
           \<or> map_of (files w1) ?idx = Some (JObj old_index)"
    and key: "index_key user_id = Inr key"
    and wr2: "write_json w1 ?idx
                (JObj (AList.update key
                         (JArr ((case user_id of
                                   JStr user \<Rightarrow>
                                     (case map_of old_index user of Some (JArr jobs) \<Rightarrow> jobs | _ \<Rightarrow> [])
                                 | _ \<Rightarrow> []) @ [cjid]))
                         old_index)) = Inr w2"
    by blast
  let ?new = "JObj (AList.update key
                         (JArr ((case user_id of
                                   JStr user \<Rightarrow>
                                     (case map_of old_index user of Some (JArr jobs) \<Rightarrow> jobs | _ \<Rightarrow> [])
                                 | _ \<Rightarrow> []) @ [cjid]))
                         old_index)"
  note ka = makedirs_if_absent_keeps[OF mk]
  have w1: "w1 = wa\<lparr>files := AList.update ?cfg (JObj config) (files wa),
                     dumped := dumped wa @ [(?cfg, JObj config)]\<rparr>"
    using wr1 by (rule write_json_Inr)
  have w2: "w2 = w1\<lparr>files := AList.update ?idx ?new (files w1),
                     dumped := dumped w1 @ [(?idx, ?new)]\<rparr>"
    using wr2 by (rule write_json_Inr)
  have w4: "w4 = (w2\<lparr>queue := queue w2 @ [(?c3, token, ?jid)]\<rparr>)
                   \<lparr>files := AList.update ?cfg (JObj ?c3) (files w2),
                    dumped := dumped w2 @ [(?cfg, JObj ?c3)]\<rparr>"
    using write_json_Inr[OF wr3] by simp
  have d: "dumped w' = dumped w @ [(?cfg, JObj config), (?idx, ?new), (?cfg, JObj ?c3)]"
    unfolding fin w4 w2 w1 using ka by simp
  have q: "queue w' = queue w @ [(?c3, token, ?jid)]"
    unfolding fin w4 w2 w1 using ka by simp
  have f: "files w' = AList.update ?cfg (JObj ?c3)
                        (AList.update ?idx ?new (AList.update ?cfg (JObj config) (files w)))"
    unfolding fin w4 w2 w1 using ka by simp
  have rd: "redis_db w' = redis_db w"
    unfolding fin w4 w2 w1 using ka by simp
  have jdx: "path_join (working_dir srv) rid \<in> set (dirs w')"
    unfolding fin w4 w2 w1 using ka by simp
  have "map_of (files w1) ?idx = map_of (files w) ?idx"
    unfolding w1 using ka index_and_config_paths_differ[of "working_dir srv" "path_join (working_dir srv) rid"]
    by (simp add: update_conv')
  then have old: "(map_of (files w) ?idx = None \<and> old_index = [])
           \<or> map_of (files w) ?idx = Some (JObj old_index)"
    using old1 by simp
  have pres: "\<forall>field. field \<notin> {''dataset'', ''model_params'', ''job_dir'', ''cdate'', ''mdate'',
                                ''status'', ''description'', ''token''} \<longrightarrow>
                  map_of config field = map_of config0 field"
    using pc(5) by blast
  have t3: "''token'' \<notin> fst ` set ?c3" using pc(1) by (simp add: dom_update)
  have v: "validate (AList.update ''job_id'' (JStr job_id) request) = Inr (config0, request1)"
    using val jid by simp
  have q': "queue w' = queue w @ [(?c3, token, job_id)]" using q jid by simp
  show ?thesis
    apply (rule exI[of _ config0], rule exI[of _ request1], rule exI[of _ rid])
    apply (rule exI[of _ token], rule exI[of _ config], rule exI[of _ ?c3])
    apply (rule exI[of _ user_id], rule exI[of _ cjid], rule exI[of _ old_index])
    apply (rule exI[of _ key])
    using jid v rq pc(4) q' d f rd jdx pc(1) t3 pc(3) pres uid cj key old
    apply (intro conjI)
    apply (assumption | rule refl)+
    done
qed

theorem token_never_written_witness:
  "dirs ex_world_first = [] \<and> files ex_world_first = []
   \<and> map_of ex_request ''token'' = Some (JStr ''secret'')
   \<and> fst (start_expertise ex_service ex_validate ex_world_first ex_request 5 6) = Inr ''abcde''
   \<and> queue (snd (start_expertise ex_service ex_validate ex_world_first ex_request 5 6))
       = [(ex_config_queued, JStr ''secret'', ''abcde'')]
   \<and> dumped (snd (start_expertise ex_service ex_validate ex_world_first ex_request 5 6))
       = [(''jobs/abcde/config.json'', JObj ex_config_init),
          (''jobs/index.json'', JObj [(''u1'', JArr [JStr ''abcde''])]),
          (''jobs/abcde/config.json'', JObj ex_config_queued)]
   \<and> files (snd (start_expertise ex_service ex_validate ex_world_first ex_request 5 6))
       = [(''jobs/abcde/config.json'', JObj ex_config_queued),
          (''jobs/index.json'', JObj [(''u1'', JArr [JStr ''abcde''])])]
   \<and> dirs (snd (start_expertise ex_service ex_validate ex_world_first ex_request 5 6))
       = [''jobs'', ''jobs/abcde'']
   \<and> ''token'' \<notin> fst ` set ex_config_init \<and> ''token'' \<notin> fst ` set ex_config_queued
   \<and> fst (start_expertise ex_service ex_validate ex_world_first ex_request_num 5 6) = Inr ''abcde''
   \<and> map_of (files (snd (start_expertise ex_service ex_validate ex_world_first ex_request_num 5 6)))
         ''jobs/index.json''
       = Some (JObj [(''7'', JArr [JStr ''abcde''])])
   \<and> (\<exists>config0 request1 token config_init config_queued.
         ex_validate (AList.update ''job_id'' (JStr ''abcde'') ex_request) = Inr (config0, request1)
         \<and> map_of config0 ''token'' = Some token
         \<and> queue (snd (start_expertise ex_service ex_validate ex_world_first ex_request 5 6))
             = queue ex_world_first @ [(config_queued, token, ''abcde'')]
         \<and> ''token'' \<notin> fst ` set config_init
         \<and> ''token'' \<notin> fst ` set config_queued
         \<and> config_queued =
              AList.update ''description'' (JStr ''Job is waiting to start fetching OpenReview data'')
                (AList.update ''status'' (JStr ''Queued'')
                   (AList.update ''mdate'' (JNum 6) config_init)))"
proof -
  let ?run = "start_expertise ex_service ex_validate ex_world_first ex_request 5 6"
  let ?num = "start_expertise ex_service ex_validate ex_world_first ex_request_num 5 6"
  have a: "dirs ex_world_first = []" "files ex_world_first = []"
    by (simp_all add: ex_world_first_def ex_world_def)
  have t: "map_of ex_request ''token'' = Some (JStr ''secret'')"
    by (simp add: ex_request_def)
  have f: "fst ?run = Inr ''abcde''" by code_simp
  have q: "queue (snd ?run) = [(ex_config_queued, JStr ''secret'', ''abcde'')]" by code_simp
  have d: "dumped (snd ?run)
       = [(''jobs/abcde/config.json'', JObj ex_config_init),
          (''jobs/index.json'', JObj [(''u1'', JArr [JStr ''abcde''])]),
          (''jobs/abcde/config.json'', JObj ex_config_queued)]" by code_simp
  have fl: "files (snd ?run)
       = [(''jobs/abcde/config.json'', JObj ex_config_queued),
          (''jobs/index.json'', JObj [(''u1'', JArr [JStr ''abcde''])])]" by code_simp
  have dr: "dirs (snd ?run) = [''jobs'', ''jobs/abcde'']" by code_simp
  have n1: "''token'' \<notin> fst ` set ex_config_init" by (simp add: ex_config_init_def)
  have n2: "''token'' \<notin> fst ` set ex_config_queued" by (simp add: ex_config_queued_def)
  have fn: "fst ?num = Inr ''abcde''" by code_simp
  have ix: "map_of (files (snd ?num)) ''jobs/index.json'' = Some (JObj [(''7'', JArr [JStr ''abcde''])])"
    by code_simp
  have run: "?run = (Inr ''abcde'', snd ?run)"
    using f by (simp add: prod_eq_iff)
  from token_never_written [OF run]
  obtain config0 request1 job_dir_id token config_init config_queued where
    "ex_validate (AList.update ''job_id'' (JStr ''abcde'') ex_request) = Inr (config0, request1)"
    "map_of config0 ''token'' = Some token"
    "queue (snd ?run) = queue ex_world_first @ [(config_queued, token, ''abcde'')]"
    "''token'' \<notin> fst ` set config_init"
    "''token'' \<notin> fst ` set config_queued"
    "config_queued =
              AList.update ''description'' (JStr ''Job is waiting to start fetching OpenReview data'')
                (AList.update ''status'' (JStr ''Queued'')
                   (AList.update ''mdate'' (JNum 6) config_init))"
    by (elim exE conjE)
  then have e: "\<exists>config0 request1 token config_init config_queued.
         ex_validate (AList.update ''job_id'' (JStr ''abcde'') ex_request) = Inr (config0, request1)
         \<and> map_of config0 ''token'' = Some token
         \<and> queue (snd ?run) = queue ex_world_first @ [(config_queued, token, ''abcde'')]
         \<and> ''token'' \<notin> fst ` set config_init
         \<and> ''token'' \<notin> fst ` set config_queued
         \<and> config_queued =
              AList.update ''description'' (JStr ''Job is waiting to start fetching OpenReview data'')
                (AList.update ''status'' (JStr ''Queued'')
                   (AList.update ''mdate'' (JNum 6) config_init))"
    by blast
  from a t f q d fl dr n1 n2 fn ix e show ?thesis by (intro conjI)
qed

end
